(* ===== verification/Prelude.thy ===== *)
theory Prelude
  imports Main "HOL-Library.Word"
begin

text \<open>
  Shared vocabulary of the development: the machine integers of the C++ code, its
  exceptions as values, the decimal printing of \<^verbatim>\<open>std::to_string\<close>, the string
  helpers of the standard library that several components use, and the generic lemmas
  on lists and signed words that their proofs share.
\<close>

section \<open>Machine integers, errors\<close>

type_synonym int32 = "32 word"
type_synonym int64 = "64 word"
type_synonym uint16 = "16 word"
type_synonym byte = "8 word"

text \<open>
  The exceptions the code throws or lets through. \<open>StdException\<close> is a bare
  \<^verbatim>\<open>std::exception\<close> (what is left of any exception rethrown by value),
  \<open>CodecException\<close> stands for whatever the generated message codecs throw, and
  \<open>CallbackException\<close> for whatever a callback of the application throws.
\<close>

datatype exn =
    IllegalArgumentException string
  | IllegalStateException string
  | ArchiveException string
  | RuntimeError string
  | StdException
  | OutOfRange
  | BadLexicalCast
  | CodecException
  | CallbackException

type_synonym 'a result = "exn + 'a"

named_theorems call_defs \<open>the calls into the environment, to be evaluated\<close>
named_theorems request_defs \<open>the operations that only build a request and send it\<close>

text \<open>Sequencing of computations that may throw.\<close>

definition bind_result :: "'a result \<Rightarrow> ('a \<Rightarrow> 'b result) \<Rightarrow> 'b result" where
  "bind_result r f = (case r of Inl e \<Rightarrow> Inl e | Inr x \<Rightarrow> f x)"

lemma bind_result_simps [simp]:
  "bind_result (Inl e) f = Inl e"
  "bind_result (Inr x) f = f x"
  by (simp_all add: bind_result_def)

lemma bind_result_Inr:
  "bind_result r f = Inr y \<longleftrightarrow> (\<exists>x. r = Inr x \<and> f x = Inr y)"
  by (simp add: bind_result_def split: sum.split)

section \<open>Decimal printing\<close>

definition digit_char :: "nat \<Rightarrow> char" where
  "digit_char d = char_of (48 + d)"

fun decimal :: "nat \<Rightarrow> string" where
  "decimal n = (if n < 10 then [digit_char n] else decimal (n div 10) @ [digit_char (n mod 10)])"

declare decimal.simps [simp del]

text \<open>\<^verbatim>\<open>std::to_string\<close> on a signed integer.\<close>

definition to_string :: "int \<Rightarrow> string" where
  "to_string i = (if i < 0 then CHR ''-'' # decimal (nat (- i)) else decimal (nat i))"

definition is_digit :: "char \<Rightarrow> bool" where
  "is_digit c \<longleftrightarrow> 48 \<le> (of_char c :: nat) \<and> (of_char c :: nat) \<le> 57"

text \<open>Reading the digits back: the left inverse that makes the printing injective.\<close>

definition digit_value :: "char \<Rightarrow> nat" where
  "digit_value c = of_char c - 48"

definition read_decimal :: "string \<Rightarrow> nat" where
  "read_decimal s = foldl (\<lambda>n c. 10 * n + digit_value c) 0 s"

lemma of_char_digit_char: "d < 10 \<Longrightarrow> (of_char (digit_char d) :: nat) = 48 + d"
  by (simp add: digit_char_def)

lemma is_digit_digit_char: "d < 10 \<Longrightarrow> is_digit (digit_char d)"
  by (simp add: is_digit_def of_char_digit_char)

lemma digit_value_digit_char: "d < 10 \<Longrightarrow> digit_value (digit_char d) = d"
  by (simp add: digit_value_def of_char_digit_char)

lemma decimal_digits: "c \<in> set (decimal n) \<Longrightarrow> is_digit c"
proof (induction n rule: decimal.induct)
  case (1 n)
  then show ?case
    by (subst (asm) (2) decimal.simps) (auto simp: is_digit_digit_char split: if_splits)
qed

lemma decimal_not_Nil [simp]: "decimal n \<noteq> []"
  by (subst decimal.simps) simp

lemma read_decimal_decimal: "read_decimal (decimal n) = n"
proof (induction n rule: decimal.induct)
  case (1 n)
  then show ?case
    by (subst decimal.simps) (auto simp: read_decimal_def digit_value_digit_char)
qed

lemma digit_not_minus: "is_digit c \<Longrightarrow> c \<noteq> CHR ''-''"
  by (auto simp: is_digit_def)

lemma to_string_chars: "c \<in> set (to_string i) \<Longrightarrow> is_digit c \<or> c = CHR ''-''"
  by (auto simp: to_string_def dest: decimal_digits split: if_splits)

lemma decimal_inj: "decimal m = decimal n \<Longrightarrow> m = n"
  by (metis read_decimal_decimal)

lemma decimal_neq_minus: "decimal n \<noteq> CHR ''-'' # s"
  using decimal_digits [of "CHR ''-''" n] digit_not_minus by (metis list.set_intros(1))

lemma to_string_inj: "to_string i = to_string j \<Longrightarrow> i = j"
proof (cases "i < 0"; cases "j < 0")
  assume "to_string i = to_string j" "i < 0" "j < 0"
  then show ?thesis by (auto simp: to_string_def dest: decimal_inj)
next
  assume "to_string i = to_string j" "\<not> i < 0" "\<not> j < 0"
  then show ?thesis by (auto simp: to_string_def dest: decimal_inj)
qed (auto simp: to_string_def decimal_neq_minus decimal_neq_minus [symmetric])

lemma to_string_free:
  assumes "\<not> is_digit c" and "c \<noteq> CHR ''-''"
  shows "c \<notin> set (to_string i)"
  using assms to_string_chars by blast

lemma to_string_0 [simp]: "to_string 0 = ''0''"
  by code_simp

lemma to_string_1 [simp]: "to_string 1 = ''1''"
  by code_simp

section \<open>Loops\<close>

text \<open>
  The code's \<^verbatim>\<open>while (true)\<close> loops. One pass over the body either goes on with a new state or
  leaves with a result, and may itself not return; \<open>None\<close> means that the loop never ends. The
  laws: an invariant shows what holds of any result, a decreasing measure that there is one,
  and a trap that there is none.
\<close>

partial_function (option) loop :: "('s \<Rightarrow> ('s + 'r) option) \<Rightarrow> 's \<Rightarrow> 'r option" where
  "loop body s =
     (case body s of
        None \<Rightarrow> None
      | Some x \<Rightarrow> (case x of Inl s' \<Rightarrow> loop body s' | Inr r \<Rightarrow> Some r))"

lemma loop_unfold:
  "loop body s =
     (case body s of None \<Rightarrow> None | Some (Inl s') \<Rightarrow> loop body s' | Some (Inr r) \<Rightarrow> Some r)"
  by (subst loop.simps) rule

lemma loop_invariant:
  assumes "loop body s = Some r" and "I s"
    and step: "\<And>s s'. I s \<Longrightarrow> body s = Some (Inl s') \<Longrightarrow> I s'"
    and exit: "\<And>s r. I s \<Longrightarrow> body s = Some (Inr r) \<Longrightarrow> Q r"
  shows "Q r"
proof -
  have "body' = body \<longrightarrow> I s \<longrightarrow> Q r" if "loop body' s = Some r" for body' s r
  proof (rule loop.raw_induct [OF _ that])
    fix loop' body' s r
    assume "\<And>body' s r. loop' body' s = Some r \<Longrightarrow> body' = body \<longrightarrow> I s \<longrightarrow> Q r"
      and "(case body' s of None \<Rightarrow> None
            | Some (Inl s') \<Rightarrow> loop' body' s' | Some (Inr r) \<Rightarrow> Some r) = Some r"
    then show "body' = body \<longrightarrow> I s \<longrightarrow> Q r"
      by (auto split: option.splits sum.splits intro: exit dest: step)
  qed
  then show ?thesis using assms(1,2) by blast
qed

lemma loop_total:
  fixes m :: "'s \<Rightarrow> nat"
  assumes "I s"
    and step: "\<And>s. I s \<Longrightarrow>
      (\<exists>s'. body s = Some (Inl s') \<and> I s' \<and> m s' < m s) \<or> (\<exists>r. body s = Some (Inr r) \<and> Q r)"
  shows "\<exists>r. loop body s = Some r \<and> Q r"
  using assms(1)
proof (induction "m s" arbitrary: s rule: less_induct)
  case less
  from step [OF less.prems] show ?case
  proof (elim disjE exE conjE)
    fix s' assume "body s = Some (Inl s')" "I s'" "m s' < m s"
    then show ?thesis using less.hyps [of s'] by (simp add: loop_unfold [of body s])
  next
    fix r assume "body s = Some (Inr r)" "Q r"
    then show ?thesis by (simp add: loop_unfold [of body s])
  qed
qed

lemma loop_diverges:
  assumes "I s" and step: "\<And>s. I s \<Longrightarrow> body s = None \<or> (\<exists>s'. body s = Some (Inl s') \<and> I s')"
  shows "loop body s = None"
proof (rule ccontr)
  assume "loop body s \<noteq> None"
  then obtain r where "loop body s = Some r" by auto
  then have False
    using assms(1) by (rule loop_invariant [where Q = "\<lambda>_. False"]) (use step in fastforce)+
  then show False .
qed

section \<open>Strings\<close>

text \<open>The constructor \<^verbatim>\<open>std::string(s, pos, count)\<close>: at most \<open>count\<close> characters from \<open>pos\<close>.\<close>

definition substr :: "string \<Rightarrow> nat \<Rightarrow> nat \<Rightarrow> string result" where
  "substr s pos n = (if length s < pos then Inl OutOfRange else Inr (take n (drop pos s)))"

text \<open>\<^verbatim>\<open>std::isspace\<close> and \<^verbatim>\<open>std::toupper\<close> in the C locale.\<close>

definition isspace :: "char \<Rightarrow> bool" where
  "isspace c \<longleftrightarrow> of_char c = (32::nat) \<or> (9 \<le> (of_char c :: nat) \<and> (of_char c :: nat) \<le> 13)"

definition toupper :: "char \<Rightarrow> char" where
  "toupper c = (if 97 \<le> (of_char c :: nat) \<and> (of_char c :: nat) \<le> 122
                then char_of ((of_char c :: nat) - 32) else c)"

section \<open>Lists\<close>

lemma takeWhile_free: "c \<notin> set s \<Longrightarrow> takeWhile (\<lambda>x. x \<noteq> c) (s @ c # t) = s"
  by (induction s) auto

lemma dropWhile_free: "c \<notin> set s \<Longrightarrow> dropWhile (\<lambda>x. x \<noteq> c) (s @ c # t) = c # t"
  by (induction s) auto

lemma takeWhile_all: "c \<notin> set s \<Longrightarrow> takeWhile (\<lambda>x. x \<noteq> c) s = s"
  by (induction s) auto

lemma dropWhile_all: "c \<notin> set s \<Longrightarrow> dropWhile (\<lambda>x. x \<noteq> c) s = []"
  by (induction s) auto

lemma not_in_takeWhile: "c \<notin> set (takeWhile (\<lambda>x. x \<noteq> c) s)"
  by (auto dest: set_takeWhileD)

lemma dropWhile_Cons_shorter: "dropWhile P xs = y # ys \<Longrightarrow> length ys < length xs"
  by (metis Suc_le_lessD length_Cons length_dropWhile_le)

section \<open>Signed words\<close>

lemma pred_positive_unat:
  fixes n :: "32 word"
  assumes "\<not> n - 1 \<le>s 0"
  shows "unat (n - 1) < unat n"
proof -
  have "n \<noteq> 0" using assms by auto
  then show ?thesis by (rule measure_unat)
qed

lemma sint_pred:
  fixes n :: "32 word"
  assumes "- (2 ^ 31) < sint n"
  shows "sint (n - 1) = sint n - 1"
proof -
  have "sint n < 2 ^ 31" using sint_less [of n] by simp
  then have "signed_take_bit 31 (sint n - 1) = sint n - 1"
    using assms by (intro signed_take_bit_int_eq_self) simp_all
  then show ?thesis
    by (simp add: sint_word_ariths)
qed

end
