(* ===== verification/AeronEnv.thy ===== *)
theory AeronEnv
  imports Prelude
begin

text \<open>
  The world outside the client: the Aeron library (publication, subscription, conductor,
  counters), the clock, and the application's callbacks. None of that code is part of the
  repository, so it is a parameter: the record \<open>env\<close>. Each call the client makes is an event,
  and the trace (newest event first) is the history of all of them. What the outside answers
  to a call is an arbitrary function of that history, so a theorem about every \<open>env\<close> is a
  theorem about every behaviour of the outside. Assumptions about it are named predicates on
  \<open>env\<close>, stated where they are used.
\<close>

section \<open>Events\<close>

text \<open>What a controlled fragment handler tells the library to do next.\<close>

datatype ControlledPollAction = ABORT | BREAK | COMMIT | CONTINUE

text \<open>The buffer and offset a fragment handler is called with.\<close>

record fragment =
  buffer :: "byte list"
  offset :: nat

text \<open>The arguments of the callbacks: of a recording descriptor, and of recording events.\<close>

record descriptor_body =
  d_recordingId :: int64
  d_startTimestamp :: int64
  d_stopTimestamp :: int64
  d_startPosition :: int64
  d_stopPosition :: int64
  d_initialTermId :: int32
  d_segmentFileLength :: int32
  d_termBufferLength :: int32
  d_mtuLength :: int32
  d_sessionId :: int32
  d_streamId :: int32
  d_strippedChannel :: string
  d_originalChannel :: string
  d_sourceIdentity :: string

record recording_started =
  rs_recordingId :: int64
  rs_startPosition :: int64
  rs_sessionId :: int32
  rs_streamId :: int32
  rs_channel :: string
  rs_sourceIdentity :: string

text \<open>
  A consumer of descriptors is known by a number; it is called with the control session id,
  the correlation id and the rest of the descriptor.
\<close>

datatype callback =
    Consumer nat int64 int64 descriptor_body
  | OnStart recording_started
  | OnProgress int64 int64 int64
  | OnStop int64 int64 int64

datatype resource = Sub | Pub | ExclusivePub

datatype event =
    Offered "byte list" int64
  | ClockRead int64
  | Idled
  | Invoked
  | Yielded
  | ConnectedRead bool
  | CorrelationIdDrawn int64
  | PollStarted int32
  | Delivered fragment
  | Answered ControlledPollAction
  | Raised exn
  | Polled int32
  | Called callback
  | Locked
  | Unlocked
  | AeronConnected string
  | Added resource string int32
  | Looked resource int64
  | DataOffered "byte list" int64
  | DataPolled int32
  | EndPolled int32
  | Slept

type_synonym trace = "event list"

section \<open>The environment\<close>

record env =
  env_offer :: "trace \<Rightarrow> byte list \<Rightarrow> int64"
  env_now :: "trace \<Rightarrow> int64"
  env_isConnected :: "trace \<Rightarrow> bool"
  env_nextCorrelationId :: "trace \<Rightarrow> int64"
  env_nextFragment :: "trace \<Rightarrow> fragment option"
  env_pollResult :: "trace \<Rightarrow> int32"
  env_rethrows :: "trace \<Rightarrow> bool"
  env_callback :: "trace \<Rightarrow> exn option"
  env_connect :: "trace \<Rightarrow> string \<Rightarrow> nat result"
  env_add :: "trace \<Rightarrow> resource \<Rightarrow> string \<Rightarrow> int32 \<Rightarrow> int64 result"
  env_find :: "trace \<Rightarrow> resource \<Rightarrow> int64 \<Rightarrow> bool result"
  env_sessionId :: "int64 \<Rightarrow> int32"
  env_isOriginal :: "int64 \<Rightarrow> bool"
  env_defaultAeronPath :: string
  env_PUBLICATION_CLOSED :: int64
  env_NOT_CONNECTED :: int64
  env_MAX_POSITION_EXCEEDED :: int64

text \<open>The calls, one per operation of the outside that the client uses.\<close>

definition call_offer :: "env \<Rightarrow> byte list \<Rightarrow> trace \<Rightarrow> int64 \<times> trace" where
  [call_defs]: "call_offer E payload tr =
     (let r = env_offer E tr payload in (r, Offered payload r # tr))"

definition call_now :: "env \<Rightarrow> trace \<Rightarrow> int64 \<times> trace" where
  [call_defs]: "call_now E tr = (let t = env_now E tr in (t, ClockRead t # tr))"

definition call_idle :: "trace \<Rightarrow> trace" where
  [call_defs]: "call_idle tr = Idled # tr"

definition call_invoke :: "trace \<Rightarrow> trace" where
  [call_defs]: "call_invoke tr = Invoked # tr"

definition call_isConnected :: "env \<Rightarrow> trace \<Rightarrow> bool \<times> trace" where
  [call_defs]: "call_isConnected E tr =
     (let c = env_isConnected E tr in (c, ConnectedRead c # tr))"

definition call_nextCorrelationId :: "env \<Rightarrow> trace \<Rightarrow> int64 \<times> trace" where
  [call_defs]: "call_nextCorrelationId E tr =
     (let c = env_nextCorrelationId E tr in (c, CorrelationIdDrawn c # tr))"

text \<open>A callback of the application: it returns, or it throws.\<close>

definition call_callback :: "env \<Rightarrow> callback \<Rightarrow> trace \<Rightarrow> unit result \<times> trace" where
  [call_defs]: "call_callback E cb tr =
     (let tr' = Called cb # tr
      in (case env_callback E tr' of None \<Rightarrow> Inr () | Some e \<Rightarrow> Inl e, tr'))"

definition call_add :: "env \<Rightarrow> resource \<Rightarrow> string \<Rightarrow> int32 \<Rightarrow> trace \<Rightarrow> int64 result \<times> trace" where
  [call_defs]: "call_add E res channel streamId tr =
     (env_add E tr res channel streamId, Added res channel streamId # tr)"

definition call_find :: "env \<Rightarrow> resource \<Rightarrow> int64 \<Rightarrow> trace \<Rightarrow> bool result \<times> trace" where
  [call_defs]: "call_find E res regId tr = (env_find E tr res regId, Looked res regId # tr)"

definition call_connect :: "env \<Rightarrow> string \<Rightarrow> trace \<Rightarrow> nat result \<times> trace" where
  [call_defs]: "call_connect E dir tr = (env_connect E tr dir, AeronConnected dir # tr)"

definition call_yield :: "trace \<Rightarrow> trace" where
  [call_defs]: "call_yield tr = Yielded # tr"

section \<open>Polling a subscription with a handler\<close>

text \<open>
  A poll is a conversation: before each round the library decides from the whole history,
  the handler's earlier answers included, whether to hand over another message, for at most
  as many rounds as the fragment limit; at the end it returns some count. When the handler
  throws, the library either lets the exception through or ends the poll.
\<close>

type_synonym 's handler =
  "'s \<Rightarrow> fragment \<Rightarrow> trace \<Rightarrow> ControlledPollAction result \<times> 's \<times> trace"

definition poll_end :: "env \<Rightarrow> 's \<Rightarrow> trace \<Rightarrow> int32 result \<times> 's \<times> trace" where
  "poll_end E s tr = (let r = env_pollResult E tr in (Inr r, s, Polled r # tr))"

fun poll_rounds :: "env \<Rightarrow> 's handler \<Rightarrow> nat \<Rightarrow> 's \<Rightarrow> trace \<Rightarrow> int32 result \<times> 's \<times> trace" where
  "poll_rounds E h 0 s tr = poll_end E s tr"
| "poll_rounds E h (Suc n) s tr =
     (case env_nextFragment E tr of
        None \<Rightarrow> poll_end E s tr
      | Some f \<Rightarrow>
          (case h s f (Delivered f # tr) of
             (Inr act, s', tr') \<Rightarrow> poll_rounds E h n s' (Answered act # tr')
           | (Inl e, s', tr') \<Rightarrow>
               if env_rethrows E (Raised e # tr') then (Inl e, s', Raised e # tr')
               else poll_end E s' (Raised e # tr')))"

definition controlledPoll ::
  "env \<Rightarrow> 's handler \<Rightarrow> int32 \<Rightarrow> 's \<Rightarrow> trace \<Rightarrow> int32 result \<times> 's \<times> trace" where
  "controlledPoll E h limit s tr =
     poll_rounds E h (nat (sint limit)) s (PollStarted limit # tr)"

text \<open>The events the library itself adds while it polls.\<close>

fun poll_event :: "event \<Rightarrow> bool" where
  "poll_event (PollStarted _) = True"
| "poll_event (Delivered _) = True"
| "poll_event (Answered _) = True"
| "poll_event (Raised _) = True"
| "poll_event (Polled _) = True"
| "poll_event _ = False"

fun is_delivery :: "event \<Rightarrow> bool" where
  "is_delivery (Delivered _) = True"
| "is_delivery _ = False"

text \<open>
  The contract between the library and a handler: what the handler keeps, in whatever state
  and history a message is delivered to it, the whole poll keeps.
\<close>

locale fragment_handler =
  fixes h :: "'s handler"
    and inv :: "'s \<Rightarrow> trace \<Rightarrow> bool"
  assumes inv_poll_event: "poll_event e \<Longrightarrow> \<not> is_delivery e \<Longrightarrow> inv s tr \<Longrightarrow> inv s (e # tr)"
    and inv_handler: "inv s tr \<Longrightarrow> h s f (Delivered f # tr) = (r, s', tr') \<Longrightarrow> inv s' tr'"
begin

lemma inv_poll_end: "inv s tr \<Longrightarrow> poll_end E s tr = (r, s', tr') \<Longrightarrow> inv s' tr'"
  by (auto simp: poll_end_def Let_def inv_poll_event)

lemma inv_poll_rounds:
  "inv s tr \<Longrightarrow> poll_rounds E h n s tr = (r, s', tr') \<Longrightarrow> inv s' tr'"
proof (induction n arbitrary: s tr)
  case 0
  then show ?case by (auto intro: inv_poll_end)
next
  case (Suc n)
  show ?case
  proof (cases "env_nextFragment E tr")
    case None
    then show ?thesis using Suc.prems by (auto intro: inv_poll_end)
  next
    case (Some f)
    obtain x s1 tr1 where h: "h s f (Delivered f # tr) = (x, s1, tr1)"
      by (cases "h s f (Delivered f # tr)") auto
    have i: "inv s1 tr1"
      using inv_handler [OF Suc.prems(1) h] .
    show ?thesis
    proof (cases x)
      case (Inl e)
      have "inv s1 (Raised e # tr1)" using i inv_poll_event by simp
      then show ?thesis
        using Suc.prems(2) inv_poll_end by (auto simp: Some h Inl split: if_splits)
    next
      case (Inr act)
      have "inv s1 (Answered act # tr1)" using i inv_poll_event by simp
      then show ?thesis
        using Suc.IH Suc.prems(2) by (simp add: Some h Inr)
    qed
  qed
qed

lemma inv_controlledPoll:
  assumes "inv s tr" and "controlledPoll E h limit s tr = (r, s', tr')"
  shows "inv s' tr'"
proof -
  have "inv s (PollStarted limit # tr)" using inv_poll_event assms(1) by simp
  then show ?thesis using assms(2) inv_poll_rounds unfolding controlledPoll_def by blast
qed

end

text \<open>
  The documented contract of a controlled poll on one image: after \<open>BREAK\<close> no further message
  is handed over in that poll.
\<close>

definition break_stops :: "env \<Rightarrow> bool" where
  "break_stops E \<longleftrightarrow> (\<forall>tr. env_nextFragment E (Answered BREAK # tr) = None)"

lemma poll_rounds_break:
  "break_stops E \<Longrightarrow> poll_rounds E h n s (Answered BREAK # tr) = poll_end E s (Answered BREAK # tr)"
  by (cases n) (simp_all add: break_stops_def)

text \<open>A handler that always asks to stop sees at most one message in a poll.\<close>

locale breaking_handler =
  fixes h :: "'s handler"
  assumes breaks: "h s f tr = (Inr act, s', tr') \<Longrightarrow> act = BREAK"
begin

lemma one_message:
  assumes "break_stops E" and "0 <s limit"
  shows "controlledPoll E h limit s tr =
     (let tr0 = PollStarted limit # tr
      in case env_nextFragment E tr0 of
           None \<Rightarrow> poll_end E s tr0
         | Some f \<Rightarrow>
             (case h s f (Delivered f # tr0) of
                (Inr _, s', tr') \<Rightarrow> poll_end E s' (Answered BREAK # tr')
              | (Inl e, s', tr') \<Rightarrow>
                  if env_rethrows E (Raised e # tr') then (Inl e, s', Raised e # tr')
                  else poll_end E s' (Raised e # tr')))"
proof -
  have "0 < nat (sint limit)" using assms(2) by (simp add: word_sless_alt)
  then obtain n where n: "nat (sint limit) = Suc n" by (cases "nat (sint limit)") auto
  show ?thesis
    unfolding controlledPoll_def n poll_rounds.simps Let_def
    by (auto dest: breaks simp: poll_rounds_break [OF assms(1)] split: option.split prod.split sum.split)
qed

end

text \<open>
  A handler that may ask to stop: until it does, \<open>inv\<close> holds; when it does, \<open>stopped\<close> holds, and
  the poll ends there.
\<close>

locale stopping_handler =
  fixes h :: "'s handler"
    and inv :: "'s \<Rightarrow> trace \<Rightarrow> bool"
    and stopped :: "'s \<Rightarrow> trace \<Rightarrow> bool"
  assumes going_event: "poll_event e \<Longrightarrow> \<not> is_delivery e \<Longrightarrow> inv s tr \<Longrightarrow> inv s (e # tr)"
    and stopped_event: "poll_event e \<Longrightarrow> \<not> is_delivery e \<Longrightarrow> stopped s tr \<Longrightarrow> stopped s (e # tr)"
    and goes_on: "inv s tr \<Longrightarrow> h s f (Delivered f # tr) = (r, s', tr') \<Longrightarrow> r \<noteq> Inr BREAK \<Longrightarrow> inv s' tr'"
    and stops: "inv s tr \<Longrightarrow> h s f (Delivered f # tr) = (Inr BREAK, s', tr') \<Longrightarrow> stopped s' tr'"
begin

lemma ends_rounds:
  assumes "break_stops E"
  shows "inv s tr \<Longrightarrow> poll_rounds E h n s tr = (r, s', tr') \<Longrightarrow> inv s' tr' \<or> stopped s' tr'"
proof (induction n arbitrary: s tr)
  case 0
  then show ?case by (auto simp: poll_end_def Let_def going_event)
next
  case (Suc n)
  show ?case
  proof (cases "env_nextFragment E tr")
    case None
    then show ?thesis using Suc.prems by (auto simp: poll_end_def Let_def going_event)
  next
    case (Some f)
    obtain x s1 tr1 where h: "h s f (Delivered f # tr) = (x, s1, tr1)"
      by (cases "h s f (Delivered f # tr)") auto
    show ?thesis
    proof (cases "x = Inr BREAK")
      case True
      then have "stopped s1 (Polled (env_pollResult E (Answered BREAK # tr1)) # Answered BREAK # tr1)"
        using stops [OF Suc.prems(1)] h by (intro stopped_event) simp_all
      then show ?thesis
        using Suc.prems(2) by (auto simp: Some h True poll_rounds_break [OF assms] poll_end_def Let_def)
    next
      case False
      then have i: "inv s1 tr1" using goes_on [OF Suc.prems(1) h] by simp
      show ?thesis
      proof (cases x)
        case (Inl e)
        have r: "inv s1 (Raised e # tr1)" by (rule going_event) (use i in simp_all)
        have "inv s1 (Polled (env_pollResult E (Raised e # tr1)) # Raised e # tr1)"
          by (rule going_event) (use r in simp_all)
        from this r show ?thesis
          using Suc.prems(2) by (auto simp: Some h Inl poll_end_def Let_def split: if_splits)
      next
        case (Inr act)
        have "inv s1 (Answered act # tr1)" by (rule going_event) (use i in simp_all)
        then show ?thesis using Suc.IH Suc.prems(2) by (simp add: Some h Inr)
      qed
    qed
  qed
qed

lemma ends:
  assumes "break_stops E" and "inv s tr" and "controlledPoll E h limit s tr = (r, s', tr')"
  shows "inv s' tr' \<or> stopped s' tr'"
proof -
  have "inv s (PollStarted limit # tr)" using going_event assms(2) by simp
  then show ?thesis using assms(3) ends_rounds [OF assms(1)] unfolding controlledPoll_def by blast
qed

end

section \<open>Histories only grow\<close>

definition extends :: "trace \<Rightarrow> trace \<Rightarrow> bool" where
  "extends tr tr' \<longleftrightarrow> (\<exists>es. tr' = es @ tr)"

lemma extends_refl [simp, intro]: "extends tr tr"
  by (simp add: extends_def)

lemma extends_Cons [simp, intro]: "extends tr tr' \<Longrightarrow> extends tr (e # tr')"
  unfolding extends_def by (metis append_Cons)

lemma extends_append: "extends tr tr' \<Longrightarrow> extends tr (es @ tr')"
  unfolding extends_def by (metis append_assoc)

lemma extends_trans [trans]: "extends a b \<Longrightarrow> extends b c \<Longrightarrow> extends a c"
  unfolding extends_def by (metis append_assoc)

lemma extends_length: "extends tr tr' \<Longrightarrow> length tr \<le> length tr'"
  by (auto simp: extends_def)

section \<open>What a history says\<close>

text \<open>The messages that were delivered and the callbacks that were called, newest first.\<close>

fun delivery :: "event \<Rightarrow> fragment option" where
  "delivery (Delivered f) = Some f"
| "delivery _ = None"

fun called :: "event \<Rightarrow> callback option" where
  "called (Called cb) = Some cb"
| "called _ = None"

definition deliveries :: "trace \<Rightarrow> fragment list" where
  "deliveries tr = List.map_filter delivery tr"

definition callbacks :: "trace \<Rightarrow> callback list" where
  "callbacks tr = List.map_filter called tr"

lemma deliveries_simps [simp]:
  "deliveries [] = []"
  "deliveries (e # tr) = (case delivery e of None \<Rightarrow> deliveries tr | Some f \<Rightarrow> f # deliveries tr)"
  "deliveries (xs @ ys) = deliveries xs @ deliveries ys"
  by (simp_all add: deliveries_def List.map_filter_def split: option.split)

lemma callbacks_simps [simp]:
  "callbacks [] = []"
  "callbacks (e # tr) = (case called e of None \<Rightarrow> callbacks tr | Some f \<Rightarrow> f # callbacks tr)"
  "callbacks (xs @ ys) = callbacks xs @ callbacks ys"
  by (simp_all add: callbacks_def List.map_filter_def split: option.split)

section \<open>Assumptions on the outside\<close>

text \<open>The clock has passed the time \<open>d\<close> once \<open>N\<close> calls have been made.\<close>

definition clock_passes :: "env \<Rightarrow> int64 \<Rightarrow> nat \<Rightarrow> bool" where
  "clock_passes E d N \<longleftrightarrow> (\<forall>tr. N \<le> length tr \<longrightarrow> d <s env_now E tr)"

text \<open>No message arrives any more once \<open>M\<close> calls have been made.\<close>

definition quiet_after :: "env \<Rightarrow> nat \<Rightarrow> bool" where
  "quiet_after E M \<longleftrightarrow>
     (\<forall>tr. M \<le> length tr \<longrightarrow> env_nextFragment E tr = None \<and> env_pollResult E tr \<le>s 0)"

text \<open>The number of events of a kind in a history.\<close>

definition count_events :: "(event \<Rightarrow> bool) \<Rightarrow> trace \<Rightarrow> nat" where
  "count_events P tr = length (filter P tr)"

lemma count_events_simps [simp]:
  "count_events P [] = 0"
  "count_events P (e # tr) = (if P e then Suc (count_events P tr) else count_events P tr)"
  "count_events P (xs @ ys) = count_events P xs + count_events P ys"
  by (simp_all add: count_events_def)

end
