(* ===== verification/SbeCodec.thy ===== *)
theory SbeCodec
  imports AeronEnv
begin

text \<open>
  The messages of the archive protocol. Their codecs are generated by the build from a schema
  that is not part of the repository, so they are the parameter \<open>sbe\<close>: for the requests, how
  the header and the fields set by the client are written into a buffer; for the responses,
  how they are read, where \<open>Inl\<close> is a throw of the codec. The data types list the
  messages and the fields the client sets or reads.
\<close>

datatype SourceLocation = LOCAL | REMOTE

text \<open>One constructor per request class, with the fields the client sets, in its order.\<close>

datatype request =
    ConnectRequest int64 int32 string
  | CloseSessionRequest int64
  | StartRecordingRequest int64 int64 int32 SourceLocation string
  | StopRecordingRequest int64 int64 int32 string
  | StopRecordingSubscriptionRequest int64 int64 int64
  | ReplayRequest int64 int64 int64 int64 int64 int32 string
  | StopReplayRequest int64 int64 int64
  | ListRecordingsRequest int64 int64 int64 int32
  | ListRecordingsForUriRequest int64 int64 int64 int32 int32 string
  | ListRecordingRequest int64 int64 int64
  | ExtendRecordingRequest int64 int64 int64 int32 SourceLocation string
  | RecordingPositionRequest int64 int64 int64
  | TruncateRecordingRequest int64 int64 int64 int64
  | StopPositionRequest int64 int64 int64
  | FindLastMatchingRecordingRequest int64 int64 int64 int32 int32 string

text \<open>The class of a request: its codec's static constants depend on nothing else.\<close>

datatype request_type =
    T_Connect | T_CloseSession | T_StartRecording | T_StopRecording
  | T_StopRecordingSubscription | T_Replay | T_StopReplay | T_ListRecordings
  | T_ListRecordingsForUri | T_ListRecording | T_ExtendRecording | T_RecordingPosition
  | T_TruncateRecording | T_StopPosition | T_FindLastMatchingRecording

fun type_of_request :: "request \<Rightarrow> request_type" where
  "type_of_request (ConnectRequest _ _ _) = T_Connect"
| "type_of_request (CloseSessionRequest _) = T_CloseSession"
| "type_of_request (StartRecordingRequest _ _ _ _ _) = T_StartRecording"
| "type_of_request (StopRecordingRequest _ _ _ _) = T_StopRecording"
| "type_of_request (StopRecordingSubscriptionRequest _ _ _) = T_StopRecordingSubscription"
| "type_of_request (ReplayRequest _ _ _ _ _ _ _) = T_Replay"
| "type_of_request (StopReplayRequest _ _ _) = T_StopReplay"
| "type_of_request (ListRecordingsRequest _ _ _ _) = T_ListRecordings"
| "type_of_request (ListRecordingsForUriRequest _ _ _ _ _ _) = T_ListRecordingsForUri"
| "type_of_request (ListRecordingRequest _ _ _) = T_ListRecording"
| "type_of_request (ExtendRecordingRequest _ _ _ _ _ _) = T_ExtendRecording"
| "type_of_request (RecordingPositionRequest _ _ _) = T_RecordingPosition"
| "type_of_request (TruncateRecordingRequest _ _ _ _) = T_TruncateRecording"
| "type_of_request (StopPositionRequest _ _ _) = T_StopPosition"
| "type_of_request (FindLastMatchingRecordingRequest _ _ _ _ _ _) = T_FindLastMatchingRecording"

record header =
  blockLength :: uint16
  templateId :: uint16
  schemaId :: uint16
  version :: uint16

text \<open>
  Views of the messages the client reads. A getter that can throw is a result: the code of a
  response may be out of the enumeration, a text may run past the buffer.
\<close>

record control_response =
  cr_controlSessionId :: int64
  cr_correlationId :: int64
  cr_relevantId :: int64
  cr_code :: "int32 result"
  cr_errorMessage :: "string result"

record recording_descriptor =
  rd_controlSessionId :: int64
  rd_correlationId :: int64
  rd_body :: "descriptor_body result"

record recording_progress =
  rp_recordingId :: int64
  rp_startPosition :: int64
  rp_position :: int64

record sbe =
  sbe_headerLength :: nat
  sbe_blockLength :: "request_type \<Rightarrow> uint16"
  sbe_templateId :: "request_type \<Rightarrow> uint16"
  sbe_schemaId :: "request_type \<Rightarrow> uint16"
  sbe_schemaVersion :: "request_type \<Rightarrow> uint16"
  sbe_writeHeader :: "header \<Rightarrow> byte list \<Rightarrow> nat \<Rightarrow> unit result \<times> byte list"
  sbe_write :: "request \<Rightarrow> byte list \<Rightarrow> nat \<Rightarrow> nat result \<times> byte list"
  sbe_readHeader :: "byte list \<Rightarrow> nat \<Rightarrow> header result"
  sbe_ControlResponse :: uint16
  sbe_RecordingDescriptor :: uint16
  sbe_RecordingStarted :: uint16
  sbe_RecordingProgress :: uint16
  sbe_RecordingStopped :: uint16
  sbe_readControlResponse :: "byte list \<Rightarrow> nat \<Rightarrow> uint16 \<Rightarrow> uint16 \<Rightarrow> control_response result"
  sbe_readRecordingDescriptor :: "byte list \<Rightarrow> nat \<Rightarrow> uint16 \<Rightarrow> uint16 \<Rightarrow> recording_descriptor result"
  sbe_readRecordingStarted :: "byte list \<Rightarrow> nat \<Rightarrow> uint16 \<Rightarrow> uint16 \<Rightarrow> recording_started result"
  sbe_readRecordingProgress :: "byte list \<Rightarrow> nat \<Rightarrow> uint16 \<Rightarrow> uint16 \<Rightarrow> recording_progress result"
  sbe_readRecordingStopped :: "byte list \<Rightarrow> nat \<Rightarrow> uint16 \<Rightarrow> uint16 \<Rightarrow> recording_progress result"
  code_OK :: int32
  code_ERROR :: int32
  code_RECORDING_UNKNOWN :: int32

definition request_header :: "sbe \<Rightarrow> request_type \<Rightarrow> header" where
  "request_header S t =
     \<lparr>blockLength = sbe_blockLength S t, templateId = sbe_templateId S t,
      schemaId = sbe_schemaId S t, version = sbe_schemaVersion S t\<rparr>"

text \<open>
  What the receiver of a request relies on, with the decoder \<open>D\<close> of the same schema: when
  the header was written at the start of a buffer and the message right behind it, the bytes
  up to the end of the message decode to both. This is the round trip that generated codecs
  promise; it says nothing about where the client writes or how much it sends.
\<close>

definition sbe_decodes :: "sbe \<Rightarrow> (byte list \<Rightarrow> (header \<times> request) option) \<Rightarrow> bool" where
  "sbe_decodes S D \<longleftrightarrow>
     (\<forall>req buf buf1 n buf2.
        sbe_writeHeader S (request_header S (type_of_request req)) buf 0 = (Inr (), buf1) \<longrightarrow>
        sbe_write S req buf1 (sbe_headerLength S) = (Inr n, buf2) \<longrightarrow>
        D (take (sbe_headerLength S + n) buf2) = Some (request_header S (type_of_request req), req))"

text \<open>The codes and template ids the client tells apart are different.\<close>

definition sbe_ids_distinct :: "sbe \<Rightarrow> bool" where
  "sbe_ids_distinct S \<longleftrightarrow>
     distinct [sbe_ControlResponse S, sbe_RecordingDescriptor S] \<and>
     distinct [sbe_RecordingStarted S, sbe_RecordingProgress S, sbe_RecordingStopped S] \<and>
     distinct [code_OK S, code_ERROR S, code_RECORDING_UNKNOWN S]"

end
