(* ===== verification/SampleWorld.thy ===== *)
theory SampleWorld
  imports SbeCodec
begin

text \<open>
  Concrete instances of the two parameters of the model, at which the theorems with
  assumptions about them are applied: a codec with one byte per number (the byte 255 is the
  greatest number), which throws on values that do not fit, and an environment in which offers succeed, the clock counts calls and
  every poll delivers one given message. Nothing here models the repository's code.
\<close>

section \<open>A codec\<close>

definition narrow :: "int64 \<Rightarrow> byte" where "narrow w = (if w = 2 ^ 63 - 1 then 255 else ucast w)"
definition widen :: "byte \<Rightarrow> int64" where "widen b = (if b = 255 then 2 ^ 63 - 1 else ucast b)"
definition wide32 :: "int32 \<Rightarrow> int64" where "wide32 w = ucast w"
definition cut32 :: "int64 \<Rightarrow> int32" where "cut32 w = ucast w"

lemma cut_wide [simp]: "cut32 (wide32 w) = w"
  by (rule bit_word_eqI) (simp add: cut32_def wide32_def bit_simps)

fun loc_code :: "SourceLocation \<Rightarrow> int64" where
  "loc_code LOCAL = 0"
| "loc_code REMOTE = 1"

definition loc_of :: "int64 \<Rightarrow> SourceLocation" where
  "loc_of w = (if w = 0 then LOCAL else REMOTE)"

lemma loc_of_code [simp]: "loc_of (loc_code l) = l"
  by (cases l) (simp_all add: loc_of_def)

fun type_tag :: "request_type \<Rightarrow> byte" where
  "type_tag T_Connect = 3"
| "type_tag T_CloseSession = 4"
| "type_tag T_StartRecording = 5"
| "type_tag T_StopRecording = 6"
| "type_tag T_Replay = 7"
| "type_tag T_StopReplay = 8"
| "type_tag T_ListRecordings = 9"
| "type_tag T_ListRecordingsForUri = 10"
| "type_tag T_ListRecording = 11"
| "type_tag T_ExtendRecording = 12"
| "type_tag T_RecordingPosition = 13"
| "type_tag T_TruncateRecording = 14"
| "type_tag T_StopRecordingSubscription = 15"
| "type_tag T_StopPosition = 16"
| "type_tag T_FindLastMatchingRecording = 17"

fun wire :: "request \<Rightarrow> int64 list \<times> string" where
  "wire (ConnectRequest a b s) = ([a, wide32 b], s)"
| "wire (CloseSessionRequest a) = ([a], [])"
| "wire (StartRecordingRequest a b c l s) = ([a, b, wide32 c, loc_code l], s)"
| "wire (StopRecordingRequest a b c s) = ([a, b, wide32 c], s)"
| "wire (StopRecordingSubscriptionRequest a b c) = ([a, b, c], [])"
| "wire (ReplayRequest a b c d e f s) = ([a, b, c, d, e, wide32 f], s)"
| "wire (StopReplayRequest a b c) = ([a, b, c], [])"
| "wire (ListRecordingsRequest a b c d) = ([a, b, c, wide32 d], [])"
| "wire (ListRecordingsForUriRequest a b c d e s) = ([a, b, c, wide32 d, wide32 e], s)"
| "wire (ListRecordingRequest a b c) = ([a, b, c], [])"
| "wire (ExtendRecordingRequest a b c d l s) = ([a, b, c, wide32 d, loc_code l], s)"
| "wire (RecordingPositionRequest a b c) = ([a, b, c], [])"
| "wire (TruncateRecordingRequest a b c d) = ([a, b, c, d], [])"
| "wire (StopPositionRequest a b c) = ([a, b, c], [])"
| "wire (FindLastMatchingRecordingRequest a b c d e s) = ([a, b, c, wide32 d, wide32 e], s)"

definition unwire :: "byte \<Rightarrow> int64 list \<Rightarrow> string \<Rightarrow> request" where
  "unwire t ws s =
     (if t = 3 then ConnectRequest (ws ! 0) (cut32 (ws ! 1)) s
      else if t = 4 then CloseSessionRequest (ws ! 0)
      else if t = 5 then StartRecordingRequest (ws ! 0) (ws ! 1) (cut32 (ws ! 2)) (loc_of (ws ! 3)) s
      else if t = 6 then StopRecordingRequest (ws ! 0) (ws ! 1) (cut32 (ws ! 2)) s
      else if t = 7 then ReplayRequest (ws ! 0) (ws ! 1) (ws ! 2) (ws ! 3) (ws ! 4) (cut32 (ws ! 5)) s
      else if t = 8 then StopReplayRequest (ws ! 0) (ws ! 1) (ws ! 2)
      else if t = 9 then ListRecordingsRequest (ws ! 0) (ws ! 1) (ws ! 2) (cut32 (ws ! 3))
      else if t = 10 then
        ListRecordingsForUriRequest (ws ! 0) (ws ! 1) (ws ! 2) (cut32 (ws ! 3)) (cut32 (ws ! 4)) s
      else if t = 11 then ListRecordingRequest (ws ! 0) (ws ! 1) (ws ! 2)
      else if t = 12 then
        ExtendRecordingRequest (ws ! 0) (ws ! 1) (ws ! 2) (cut32 (ws ! 3)) (loc_of (ws ! 4)) s
      else if t = 13 then RecordingPositionRequest (ws ! 0) (ws ! 1) (ws ! 2)
      else if t = 14 then TruncateRecordingRequest (ws ! 0) (ws ! 1) (ws ! 2) (ws ! 3)
      else if t = 15 then StopRecordingSubscriptionRequest (ws ! 0) (ws ! 1) (ws ! 2)
      else if t = 16 then StopPositionRequest (ws ! 0) (ws ! 1) (ws ! 2)
      else FindLastMatchingRecordingRequest (ws ! 0) (ws ! 1) (ws ! 2) (cut32 (ws ! 3)) (cut32 (ws ! 4)) s)"

lemma unwire_wire: "unwire (type_tag (type_of_request r)) (fst (wire r)) (snd (wire r)) = r"
  by (cases r) (simp_all add: unwire_def)

definition put_bytes :: "byte list \<Rightarrow> byte list \<Rightarrow> nat \<Rightarrow> nat result \<times> byte list" where
  "put_bytes bs buf off =
     (if off + length bs \<le> length buf
      then (Inr (length bs), take off buf @ bs @ drop (off + length bs) buf)
      else (Inl CodecException, buf))"

definition body_bytes :: "request \<Rightarrow> byte list" where
  "body_bytes r = of_nat (length (fst (wire r))) # map narrow (fst (wire r)) @ map (\<lambda>c. word_of_nat (of_char c)) (snd (wire r))"

definition sample_write :: "request \<Rightarrow> byte list \<Rightarrow> nat \<Rightarrow> nat result \<times> byte list" where
  "sample_write r buf off =
     (if list_all (\<lambda>w. widen (narrow w) = w) (fst (wire r)) then put_bytes (body_bytes r) buf off
      else (Inl CodecException, buf))"

definition sample_writeHeader :: "header \<Rightarrow> byte list \<Rightarrow> nat \<Rightarrow> unit result \<times> byte list" where
  "sample_writeHeader h buf off =
     (case put_bytes [ucast (templateId h)] buf off of (r, b) \<Rightarrow> (map_sum id (\<lambda>_. ()) r, b))"

definition byte_at :: "byte list \<Rightarrow> nat \<Rightarrow> byte" where
  "byte_at buf i = (if i < length buf then buf ! i else 0)"

definition sample_readHeader :: "byte list \<Rightarrow> nat \<Rightarrow> header result" where
  "sample_readHeader buf off =
     (if off < length buf
      then Inr \<lparr>blockLength = 0, templateId = ucast (buf ! off), schemaId = 0, version = 0\<rparr>
      else Inl CodecException)"

definition sample_readControlResponse ::
  "byte list \<Rightarrow> nat \<Rightarrow> uint16 \<Rightarrow> uint16 \<Rightarrow> control_response result" where
  "sample_readControlResponse buf off bl ver =
     Inr \<lparr>cr_controlSessionId = widen (byte_at buf off), cr_correlationId = widen (byte_at buf (off + 1)),
          cr_relevantId = widen (byte_at buf (off + 2)), cr_code = Inr (ucast (byte_at buf (off + 3))),
          cr_errorMessage = Inr (map (\<lambda>b. char_of (unat b)) (drop (off + 4) buf))\<rparr>"

definition sample_descriptor :: "int64 \<Rightarrow> descriptor_body" where
  "sample_descriptor rid =
     \<lparr>d_recordingId = rid, d_startTimestamp = 0, d_stopTimestamp = 0, d_startPosition = 0,
      d_stopPosition = 0, d_initialTermId = 0, d_segmentFileLength = 0, d_termBufferLength = 65536,
      d_mtuLength = 1408, d_sessionId = 0, d_streamId = 10, d_strippedChannel = [],
      d_originalChannel = [], d_sourceIdentity = []\<rparr>"

definition sample_readRecordingDescriptor ::
  "byte list \<Rightarrow> nat \<Rightarrow> uint16 \<Rightarrow> uint16 \<Rightarrow> recording_descriptor result" where
  "sample_readRecordingDescriptor buf off bl ver =
     Inr \<lparr>rd_controlSessionId = widen (byte_at buf off), rd_correlationId = widen (byte_at buf (off + 1)),
          rd_body = Inr (sample_descriptor (widen (byte_at buf (off + 2))))\<rparr>"

definition sample_sbe :: sbe where
  "sample_sbe =
     \<lparr>sbe_headerLength = 1, sbe_blockLength = (\<lambda>_. 0), sbe_templateId = (\<lambda>t. ucast (type_tag t)),
      sbe_schemaId = (\<lambda>_. 0), sbe_schemaVersion = (\<lambda>_. 0),
      sbe_writeHeader = sample_writeHeader, sbe_write = sample_write,
      sbe_readHeader = sample_readHeader,
      sbe_ControlResponse = 1, sbe_RecordingDescriptor = 22,
      sbe_RecordingStarted = 101, sbe_RecordingProgress = 102, sbe_RecordingStopped = 103,
      sbe_readControlResponse = sample_readControlResponse,
      sbe_readRecordingDescriptor = sample_readRecordingDescriptor,
      sbe_readRecordingStarted = (\<lambda>_ _ _ _. Inl CodecException),
      sbe_readRecordingProgress = (\<lambda>buf off _ _. Inr \<lparr>rp_recordingId = widen (byte_at buf off),
         rp_startPosition = widen (byte_at buf (off + 1)), rp_position = widen (byte_at buf (off + 2))\<rparr>),
      sbe_readRecordingStopped = (\<lambda>_ _ _ _. Inl CodecException),
      code_OK = 0, code_ERROR = 1, code_RECORDING_UNKNOWN = 2\<rparr>"

text \<open>The decoder that inverts it.\<close>

definition sample_decode :: "byte list \<Rightarrow> (header \<times> request) option" where
  "sample_decode bs =
     (case bs of
        t # n # rest \<Rightarrow>
          Some (\<lparr>blockLength = 0, templateId = ucast t, schemaId = 0, version = 0\<rparr>,
                unwire t (map widen (take (unat n) rest)) (map (\<lambda>b. char_of (unat b)) (drop (unat n) rest)))
      | _ \<Rightarrow> None)"

lemma length_wire: "unat (of_nat (length (fst (wire r))) :: byte) = length (fst (wire r))"
  by (cases r) (simp_all add: unat_of_nat)

lemma char_of_word: "char_of (unat (word_of_nat (of_char c) :: byte)) = c"
  by (simp add: unsigned_of_nat take_bit_nat_eq_self)

lemma sample_decodes: "sbe_decodes sample_sbe sample_decode"
  unfolding sbe_decodes_def
proof (intro allI impI)
  fix req buf buf1 n buf2
  assume h: "sbe_writeHeader sample_sbe (request_header sample_sbe (type_of_request req)) buf 0 = (Inr (), buf1)"
    and w: "sbe_write sample_sbe req buf1 (sbe_headerLength sample_sbe) = (Inr n, buf2)"
  have tag: "ucast (ucast (type_tag t) :: uint16) = type_tag t" for t
    by (cases t) simp_all
  have b1: "buf1 = type_tag (type_of_request req) # drop 1 buf"
    using h by (auto simp: sample_sbe_def sample_writeHeader_def put_bytes_def request_header_def tag
        split: if_splits)
  have fit: "map widen (map narrow (fst (wire req))) = fst (wire req)"
    and "buf2 = take 1 buf1 @ body_bytes req @ drop (1 + n) buf1" and n: "n = length (body_bytes req)"
    using w by (auto simp: sample_sbe_def sample_write_def put_bytes_def list_all_iff map_idI
        split: if_splits)
  then have "take (1 + n) buf2 = type_tag (type_of_request req) # body_bytes req"
    by (simp add: b1)
  moreover have "sample_decode (type_tag (type_of_request req) # body_bytes req) =
      Some (request_header sample_sbe (type_of_request req), req)"
    using fit unwire_wire [of req]
    by (simp add: sample_decode_def body_bytes_def length_wire request_header_def sample_sbe_def
        char_of_word map_idI)
  ultimately show "sample_decode (take (sbe_headerLength sample_sbe + n) buf2) =
      Some (request_header sample_sbe (type_of_request req), req)"
    by (simp add: sample_sbe_def)
qed

lemma sample_ids_distinct: "sbe_ids_distinct sample_sbe"
  by (simp add: sbe_ids_distinct_def sample_sbe_def)

section \<open>An environment\<close>

text \<open>Every poll delivers \<open>reply\<close> (if there is one) in its first round, and then no more.\<close>

definition sample_env :: "fragment option \<Rightarrow> env" where
  "sample_env reply =
     \<lparr>env_offer = (\<lambda>_ _. 1), env_now = (\<lambda>tr. word_of_nat (min (length tr) 1000000)),
      env_isConnected = (\<lambda>_. True), env_nextCorrelationId = (\<lambda>_. 7),
      env_nextFragment = (\<lambda>tr. case tr of PollStarted _ # _ \<Rightarrow> reply | _ \<Rightarrow> None),
      env_pollResult = (\<lambda>tr. case tr of PollStarted _ # _ \<Rightarrow> 0 | _ \<Rightarrow> if reply = None then 0 else 1),
      env_rethrows = (\<lambda>_. True), env_callback = (\<lambda>_. None),
      env_connect = (\<lambda>_ _. Inr 0), env_add = (\<lambda>_ _ _ _. Inr 1), env_find = (\<lambda>_ _ _. Inr True),
      env_sessionId = (\<lambda>_. 5), env_isOriginal = (\<lambda>_. True),
      env_defaultAeronPath = ''/dev/shm/aeron'',
      env_PUBLICATION_CLOSED = - 4, env_NOT_CONNECTED = - 1, env_MAX_POSITION_EXCEEDED = - 5\<rparr>"

lemma sample_clock:
  assumes "sint d < 1000000" and "nat (sint d) < N"
  shows "clock_passes (sample_env reply) d N"
proof -
  have "sint (word_of_nat (min k 1000000) :: int64) = int (min k 1000000)" for k
    by (simp add: signed_of_nat signed_take_bit_int_eq_self)
  then show ?thesis
    using assms by (auto simp: clock_passes_def sample_env_def word_sless_alt)
qed

lemma sample_quiet: "quiet_after (sample_env None) M"
  by (auto simp: quiet_after_def sample_env_def word_sle_eq split: list.splits event.splits)

lemma sample_break_stops: "break_stops (sample_env reply)"
  by (simp add: break_stops_def sample_env_def)

text \<open>What evaluates a computation in the sample world.\<close>

lemmas sample_defs =
  sample_sbe_def sample_env_def request_header_def sample_writeHeader_def sample_write_def
  put_bytes_def body_bytes_def narrow_def widen_def wide32_def sample_readHeader_def
  sample_readControlResponse_def sample_readRecordingDescriptor_def byte_at_def
  word_sless_alt

end
