(* ===== verification/ArchiveProxy.thy ===== *)
theory ArchiveProxy
  imports SampleWorld
begin

text \<open>
  The proxy that encodes requests and offers them to the archive's publication
  (\<^verbatim>\<open>src/ArchiveProxy.cpp\<close>, \<^verbatim>\<open>.h\<close>). The retry loop of \<open>offer\<close> always ends; the loop of
  \<open>offerWithTimeout\<close> is bounded only by the clock, so it is a \<open>loop\<close>, whose \<open>None\<close>
  means that it does not return. The locale \<open>proxy_operation\<close> is what the client of the proxy
  relies on for every request.
\<close>

section \<open>The model\<close>

record archive_proxy =
  px_buffer :: "byte list"
  px_connectTimeoutNs :: int64
  px_retryAttempts :: int32

definition mk_ArchiveProxy :: "int64 \<Rightarrow> int32 \<Rightarrow> archive_proxy" where
  "mk_ArchiveProxy connectTimeoutNs retryAttempts =
     \<lparr>px_buffer = replicate 4096 0, px_connectTimeoutNs = connectTimeoutNs,
      px_retryAttempts = retryAttempts\<rparr>"

text \<open>\<^verbatim>\<open>wrapAndApplyHeader\<close> writes the header at the start and the message right behind it.\<close>

definition wrapAndApplyHeader ::
  "sbe \<Rightarrow> request \<Rightarrow> archive_proxy \<Rightarrow> nat result \<times> archive_proxy" where
  "wrapAndApplyHeader S msg p =
     (case sbe_writeHeader S (request_header S (type_of_request msg)) (px_buffer p) 0 of
        (Inl e, buf) \<Rightarrow> (Inl e, p\<lparr>px_buffer := buf\<rparr>)
      | (Inr _, buf) \<Rightarrow>
          (case sbe_write S msg buf (0 + sbe_headerLength S) of
             (r, buf') \<Rightarrow> (r, p\<lparr>px_buffer := buf'\<rparr>)))"

text \<open>The bytes that are handed to the publication for a message of the given length.\<close>

definition payload :: "sbe \<Rightarrow> nat \<Rightarrow> archive_proxy \<Rightarrow> byte list" where
  "payload S len p = take (sbe_headerLength S + len) (px_buffer p)"

function offer_loop :: "env \<Rightarrow> byte list \<Rightarrow> int32 \<Rightarrow> trace \<Rightarrow> bool result \<times> trace" where
  "offer_loop E bytes attempts tr =
     (case call_offer E bytes tr of (r, tr1) \<Rightarrow>
        if 0 <s r then (Inr True, tr1)
        else if r = env_PUBLICATION_CLOSED E then
          (Inl (ArchiveException ''connection to the archive has been closed''), tr1)
        else if r = env_NOT_CONNECTED E then
          (Inl (ArchiveException ''connection to the archive is no longer available''), tr1)
        else if r = env_MAX_POSITION_EXCEEDED E then
          (Inl (ArchiveException ''offer failed due to max position being reached''), tr1)
        else
          (let attempts' = attempts - 1
           in if attempts' \<le>s 0 then (Inr False, tr1)
              else offer_loop E bytes attempts' (call_idle tr1)))"
  by pat_completeness auto
termination
  by (relation "measure (\<lambda>(_, _, attempts, _). unat attempts)") (auto simp: pred_positive_unat)

declare offer_loop.simps [simp del]

definition offer :: "sbe \<Rightarrow> env \<Rightarrow> nat \<Rightarrow> archive_proxy \<Rightarrow> trace \<Rightarrow> bool result \<times> trace" where
  "offer S E len p tr = offer_loop E (payload S len p) (px_retryAttempts p) tr"

text \<open>One pass of the loop of \<open>offerWithTimeout\<close>, and the loop.\<close>

definition timeout_step ::
  "env \<Rightarrow> byte list \<Rightarrow> int64 \<Rightarrow> bool \<Rightarrow> trace \<Rightarrow> (trace + bool result \<times> trace) option" where
  "timeout_step E bytes deadline invoker tr =
     (case call_offer E bytes tr of (r, tr1) \<Rightarrow>
        Some (if 0 <s r then Inr (Inr True, tr1)
              else if r = env_PUBLICATION_CLOSED E then
                Inr (Inl (ArchiveException ''connection to the archive has been closed''), tr1)
              else if r = env_MAX_POSITION_EXCEEDED E then
                Inr (Inl (ArchiveException ''offer failed due to max position being reached''), tr1)
              else
                (case call_now E tr1 of (now, tr2) \<Rightarrow>
                   if deadline <s now then Inr (Inr False, tr2)
                   else Inl (call_idle (if invoker then call_invoke tr2 else tr2)))))"

definition timeout_loop ::
  "env \<Rightarrow> byte list \<Rightarrow> int64 \<Rightarrow> bool \<Rightarrow> trace \<Rightarrow> (bool result \<times> trace) option" where
  "timeout_loop E bytes deadline invoker tr = loop (timeout_step E bytes deadline invoker) tr"

definition offerWithTimeout ::
  "sbe \<Rightarrow> env \<Rightarrow> nat \<Rightarrow> bool \<Rightarrow> archive_proxy \<Rightarrow> trace \<Rightarrow> (bool result \<times> trace) option" where
  "offerWithTimeout S E len invoker p tr =
     (case call_now E tr of (now, tr1) \<Rightarrow>
        timeout_loop E (payload S len p) (now + px_connectTimeoutNs p) invoker tr1)"

text \<open>Encode a message, then offer it: the common shape of the requests.\<close>

definition send_request ::
  "sbe \<Rightarrow> env \<Rightarrow> request \<Rightarrow> archive_proxy \<Rightarrow> trace \<Rightarrow> bool result \<times> archive_proxy \<times> trace" where
  "send_request S E msg p tr =
     (case wrapAndApplyHeader S msg p of
        (Inl e, p') \<Rightarrow> (Inl e, p', tr)
      | (Inr len, p') \<Rightarrow> (case offer S E len p' tr of (r, tr') \<Rightarrow> (r, p', tr')))"

definition proxy_connect_with ::
  "sbe \<Rightarrow> env \<Rightarrow> bool \<Rightarrow> string \<Rightarrow> int32 \<Rightarrow> int64 \<Rightarrow> archive_proxy \<Rightarrow> trace \<Rightarrow>
     (bool result \<times> archive_proxy \<times> trace) option" where
  "proxy_connect_with S E invoker responseChannel responseStreamId correlationId p tr =
     (case wrapAndApplyHeader S (ConnectRequest correlationId responseStreamId responseChannel) p of
        (Inl e, p') \<Rightarrow> Some (Inl e, p', tr)
      | (Inr len, p') \<Rightarrow>
          (case offerWithTimeout S E len invoker p' tr of
             None \<Rightarrow> None
           | Some (r, tr') \<Rightarrow> Some (r, p', tr')))"

text \<open>The overload without an invoker, and the one with the conductor's invoker.\<close>

definition proxy_connect where
  "proxy_connect S E = proxy_connect_with S E False"

definition proxy_connect_invoking where
  "proxy_connect_invoking S E = proxy_connect_with S E True"

definition proxy_tryConnect ::
  "sbe \<Rightarrow> env \<Rightarrow> string \<Rightarrow> int32 \<Rightarrow> int64 \<Rightarrow> archive_proxy \<Rightarrow> trace \<Rightarrow>
     bool result \<times> archive_proxy \<times> trace" where
  "proxy_tryConnect S E responseChannel responseStreamId correlationId p tr =
     (case wrapAndApplyHeader S (ConnectRequest correlationId responseStreamId responseChannel) p of
        (Inl e, p') \<Rightarrow> (Inl e, p', tr)
      | (Inr len, p') \<Rightarrow>
          (case call_offer E (payload S len p') tr of (r, tr') \<Rightarrow> (Inr (0 <s r), p', tr')))"

definition proxy_closeSession where
  [request_defs]: "proxy_closeSession S E controlSessionId =
     send_request S E (CloseSessionRequest controlSessionId)"

definition proxy_startRecording where
  [request_defs]: "proxy_startRecording S E channel streamId sourceLocation correlationId controlSessionId =
     send_request S E
       (StartRecordingRequest controlSessionId correlationId streamId sourceLocation channel)"

definition proxy_stopRecording where
  [request_defs]: "proxy_stopRecording S E channel streamId correlationId controlSessionId =
     send_request S E (StopRecordingRequest controlSessionId correlationId streamId channel)"

definition proxy_stopRecording_subscription where
  [request_defs]: "proxy_stopRecording_subscription S E subscriptionId correlationId controlSessionId =
     send_request S E (StopRecordingSubscriptionRequest controlSessionId correlationId subscriptionId)"

definition proxy_replay where
  [request_defs]: "proxy_replay S E recordingId position length' replayChannel replayStreamId
       correlationId controlSessionId =
     send_request S E
       (ReplayRequest controlSessionId correlationId recordingId position length' replayStreamId
          replayChannel)"

definition proxy_stopReplay where
  [request_defs]: "proxy_stopReplay S E replaySessionId correlationId controlSessionId =
     send_request S E (StopReplayRequest controlSessionId correlationId replaySessionId)"

definition proxy_listRecordings where
  [request_defs]: "proxy_listRecordings S E fromRecordingId recordCount correlationId controlSessionId =
     send_request S E (ListRecordingsRequest controlSessionId correlationId fromRecordingId recordCount)"

definition proxy_listRecordingsForUri where
  [request_defs]: "proxy_listRecordingsForUri S E fromRecordingId recordCount channelFragment streamId
       correlationId controlSessionId =
     send_request S E
       (ListRecordingsForUriRequest controlSessionId correlationId fromRecordingId recordCount
          streamId channelFragment)"

definition proxy_listRecording where
  [request_defs]: "proxy_listRecording S E recordingId correlationId controlSessionId =
     send_request S E (ListRecordingRequest controlSessionId correlationId recordingId)"

definition proxy_extendRecording where
  [request_defs]: "proxy_extendRecording S E channel streamId sourceLocation recordingId correlationId
       controlSessionId =
     send_request S E
       (ExtendRecordingRequest controlSessionId correlationId recordingId streamId sourceLocation
          channel)"

definition proxy_getRecordingPosition where
  [request_defs]: "proxy_getRecordingPosition S E recordingId correlationId controlSessionId =
     send_request S E (RecordingPositionRequest controlSessionId correlationId recordingId)"

definition proxy_truncateRecording where
  [request_defs]: "proxy_truncateRecording S E recordingId position correlationId controlSessionId =
     send_request S E (TruncateRecordingRequest controlSessionId correlationId recordingId position)"

definition proxy_getStopPosition where
  [request_defs]: "proxy_getStopPosition S E recordingId correlationId controlSessionId =
     send_request S E (StopPositionRequest controlSessionId correlationId recordingId)"

definition proxy_findLastMatchingRecording where
  [request_defs]: "proxy_findLastMatchingRecording S E minRecordingId channelFragment streamId sessionId
       correlationId controlSessionId =
     send_request S E
       (FindLastMatchingRecordingRequest controlSessionId correlationId minRecordingId sessionId
          streamId channelFragment)"

section \<open>The retry loop\<close>

text \<open>What one result of the publication means to \<open>offer\<close>; \<open>Inr False\<close> is "try again".\<close>

definition verdict :: "env \<Rightarrow> int64 \<Rightarrow> bool result" where
  "verdict E r =
     (if 0 <s r then Inr True
      else if r = env_PUBLICATION_CLOSED E then
        Inl (ArchiveException ''connection to the archive has been closed'')
      else if r = env_NOT_CONNECTED E then
        Inl (ArchiveException ''connection to the archive is no longer available'')
      else if r = env_MAX_POSITION_EXCEEDED E then
        Inl (ArchiveException ''offer failed due to max position being reached'')
      else Inr False)"

text \<open>The history of offers with the given results (first one first), idling in between.\<close>

fun offer_events :: "byte list \<Rightarrow> int64 list \<Rightarrow> trace" where
  "offer_events bytes [] = []"
| "offer_events bytes [r] = [Offered bytes r]"
| "offer_events bytes (r # rs) = offer_events bytes rs @ [Idled, Offered bytes r]"

lemma offer_events_Cons:
  "rs \<noteq> [] \<Longrightarrow> offer_events bytes (r # rs) = offer_events bytes rs @ [Idled, Offered bytes r]"
  by (cases rs) simp_all

lemma offer_loop_step:
  "offer_loop E bytes attempts tr =
     (let r = env_offer E tr bytes
      in if verdict E r = Inr False \<and> \<not> attempts - 1 \<le>s 0
         then offer_loop E bytes (attempts - 1) (Idled # Offered bytes r # tr)
         else (verdict E r, Offered bytes r # tr))"
  by (subst offer_loop.simps) (simp add: call_defs verdict_def Let_def)

lemma offer_loop_spec:
  assumes "- (2 ^ 31) < sint attempts" and "offer_loop E bytes attempts tr = (res, tr')"
  shows "\<exists>rs. tr' = offer_events bytes rs @ tr \<and> rs \<noteq> [] \<and>
           length rs \<le> nat (max 1 (sint attempts)) \<and>
           (\<forall>r \<in> set (butlast rs). verdict E r = Inr False) \<and> res = verdict E (last rs) \<and>
           (res = Inr False \<longrightarrow> length rs = nat (max 1 (sint attempts)))"
  using assms
proof (induction E bytes attempts tr rule: offer_loop.induct)
  case (1 E bytes attempts tr)
  define r where "r = env_offer E tr bytes"
  show ?case
  proof (cases "verdict E r = Inr False \<and> \<not> attempts - 1 \<le>s 0")
    case False
    then have "tr' = offer_events bytes [r] @ tr" "res = verdict E r"
      using "1.prems"(2) offer_loop_step [of E bytes attempts tr]
      by (auto simp: r_def Let_def split: if_splits)
    moreover have "res = Inr False \<Longrightarrow> sint attempts \<le> 1"
      using False \<open>res = verdict E r\<close> sint_pred [OF "1.prems"(1)] by (simp add: word_sle_eq)
    ultimately show ?thesis
      by (intro exI [of _ "[r]"]) auto
  next
    case True
    have more: "1 < sint attempts" and pred: "sint (attempts - 1) = sint attempts - 1"
      using True sint_pred [OF "1.prems"(1)] by (simp_all add: word_sle_eq)
    have step: "offer_loop E bytes (attempts - 1) (Idled # Offered bytes r # tr) = (res, tr')"
      using True "1.prems"(2) offer_loop_step [of E bytes attempts tr] by (simp add: r_def)
    have conds: "\<not> 0 <s r" "r \<noteq> env_PUBLICATION_CLOSED E" "r \<noteq> env_NOT_CONNECTED E"
        "r \<noteq> env_MAX_POSITION_EXCEEDED E" "\<not> attempts - 1 \<le>s 0"
      using True by (auto simp: verdict_def split: if_splits)
    have "- (2 ^ 31) < sint (attempts - 1)" using more pred by simp
    then have "\<exists>rs. tr' = offer_events bytes rs @ Idled # Offered bytes r # tr \<and> rs \<noteq> [] \<and>
        length rs \<le> nat (max 1 (sint attempts - 1)) \<and>
        (\<forall>r \<in> set (butlast rs). verdict E r = Inr False) \<and> res = verdict E (last rs) \<and>
        (res = Inr False \<longrightarrow> length rs = nat (max 1 (sint attempts - 1)))"
      using "1.IH" [of r "Offered bytes r # tr" "attempts - 1"] conds step pred
      by (simp add: call_defs r_def [symmetric])
    then obtain rs where rs: "tr' = offer_events bytes rs @ Idled # Offered bytes r # tr" "rs \<noteq> []"
        "length rs \<le> nat (max 1 (sint attempts - 1))"
        "\<forall>r \<in> set (butlast rs). verdict E r = Inr False" "res = verdict E (last rs)"
        "res = Inr False \<longrightarrow> length rs = nat (max 1 (sint attempts - 1))"
      by blast
    show ?thesis
      using rs more True by (intro exI [of _ "r # rs"]) (auto simp: offer_events_Cons)
  qed
qed

section \<open>What a request operation does\<close>

fun is_offer :: "event \<Rightarrow> bool" where
  "is_offer (Offered _ _) = True"
| "is_offer _ = False"

lemma count_offer_events: "count_events is_offer (offer_events bytes rs) = length rs"
  by (induction bytes rs rule: offer_events.induct) simp_all

lemma length_offer_events: "length (offer_events bytes rs) \<le> 2 * length rs"
  by (induction bytes rs rule: offer_events.induct) simp_all

lemma set_offer_events:
  "e \<in> set (offer_events bytes rs) \<Longrightarrow> e = Idled \<or> (\<exists>r. e = Offered bytes r)"
  by (induction bytes rs rule: offer_events.induct) auto

lemma hd_offer_events: "rs \<noteq> [] \<Longrightarrow> \<exists>es. offer_events bytes rs = Offered bytes (last rs) # es"
  by (induction bytes rs rule: offer_events.induct) auto

text \<open>
  Either the codec threw and nothing was sent, or the same bytes were offered a bounded number
  of times, every offer but the last was refused in a retryable way, the last one decides the
  result, and the bytes decode to the request.
\<close>

definition sends_request ::
  "sbe \<Rightarrow> env \<Rightarrow> request \<Rightarrow> int32 \<Rightarrow> trace \<Rightarrow> bool result \<Rightarrow> trace \<Rightarrow> bool" where
  "sends_request S E req attempts tr res tr' \<longleftrightarrow>
     ((\<exists>e. res = Inl e) \<and> tr' = tr) \<or>
     (\<exists>bytes rs. tr' = offer_events bytes rs @ tr \<and> rs \<noteq> [] \<and>
        length rs \<le> nat (max 1 (sint attempts)) \<and>
        (\<forall>r \<in> set (butlast rs). verdict E r = Inr False) \<and> res = verdict E (last rs) \<and>
        (res = Inr False \<longrightarrow> length rs = nat (max 1 (sint attempts))) \<and>
        (\<forall>D. sbe_decodes S D \<longrightarrow> D bytes = Some (request_header S (type_of_request req), req)))"

text \<open>A request that was sent: the last offer was accepted.\<close>

fun sending_event :: "event \<Rightarrow> bool" where
  "sending_event (Offered _ _) = True"
| "sending_event Idled = True"
| "sending_event _ = False"

lemma sends_request_True:
  assumes "sends_request S E req attempts tr (Inr True) tr'"
  shows "\<exists>bytes r es. tr' = Offered bytes r # es @ tr \<and> 0 <s r \<and> list_all sending_event es \<and>
     (\<forall>D. sbe_decodes S D \<longrightarrow> D bytes = Some (request_header S (type_of_request req), req))"
proof -
  obtain bytes rs where rs: "tr' = offer_events bytes rs @ tr" "rs \<noteq> []" "Inr True = verdict E (last rs)"
      and D: "\<forall>D. sbe_decodes S D \<longrightarrow> D bytes = Some (request_header S (type_of_request req), req)"
    using assms unfolding sends_request_def by blast
  moreover have "0 <s last rs"
    using rs(3) by (auto simp: verdict_def split: if_splits)
  moreover obtain es where "offer_events bytes rs = Offered bytes (last rs) # es"
    using hd_offer_events [OF rs(2)] by blast
  moreover from this have "list_all sending_event es"
    using set_offer_events [of _ bytes rs] by (fastforce simp: list_all_iff)
  ultimately show ?thesis by auto
qed

lemma wrap_frame:
  assumes "wrapAndApplyHeader S msg p = (x, p')"
  shows "px_retryAttempts p' = px_retryAttempts p" and "px_connectTimeoutNs p' = px_connectTimeoutNs p"
  using assms by (auto simp: wrapAndApplyHeader_def split: prod.splits sum.splits)

lemma wrap_decodes:
  assumes "wrapAndApplyHeader S msg p = (Inr len, p')" and "sbe_decodes S D"
  shows "D (payload S len p') = Some (request_header S (type_of_request msg), msg)"
  using assms
  by (auto simp: wrapAndApplyHeader_def sbe_decodes_def payload_def split: prod.splits sum.splits)

lemma send_request_frame:
  assumes "send_request S E msg p tr = (res, p', tr')"
  shows "px_retryAttempts p' = px_retryAttempts p \<and> px_connectTimeoutNs p' = px_connectTimeoutNs p"
  using assms wrap_frame by (fastforce simp: send_request_def split: prod.splits sum.splits)

lemma send_request_sends:
  assumes "- (2 ^ 31) < sint (px_retryAttempts p)" and "send_request S E msg p tr = (res, p', tr')"
  shows "sends_request S E msg (px_retryAttempts p) tr res tr'"
proof (cases "wrapAndApplyHeader S msg p")
  case (Pair x p1)
  show ?thesis
  proof (cases x)
    case (Inl e)
    then show ?thesis using assms(2) Pair by (auto simp: send_request_def sends_request_def)
  next
    case (Inr len)
    let ?bytes = "payload S len p1"
    have "offer_loop E ?bytes (px_retryAttempts p) tr = (res, tr')"
      using assms(2) wrap_frame [OF Pair]
      by (auto simp: send_request_def Pair Inr offer_def split: prod.splits)
    from offer_loop_spec [OF assms(1) this]
    have "\<exists>rs. tr' = offer_events ?bytes rs @ tr \<and> rs \<noteq> [] \<and>
        length rs \<le> nat (max 1 (sint (px_retryAttempts p))) \<and>
        (\<forall>r \<in> set (butlast rs). verdict E r = Inr False) \<and> res = verdict E (last rs) \<and>
        (res = Inr False \<longrightarrow> length rs = nat (max 1 (sint (px_retryAttempts p)))) \<and>
        (\<forall>D. sbe_decodes S D \<longrightarrow> D ?bytes = Some (request_header S (type_of_request msg), msg))"
      using wrap_decodes [OF Pair [unfolded Inr]] by blast
    then show ?thesis unfolding sends_request_def by blast
  qed
qed

text \<open>
  The interface of the proxy towards the client: an operation that sends one request. The
  client's lemmas about it are proved once, from these two laws.
\<close>

locale proxy_operation =
  fixes op :: "sbe \<Rightarrow> env \<Rightarrow> archive_proxy \<Rightarrow> trace \<Rightarrow> bool result \<times> archive_proxy \<times> trace"
    and req :: request
  assumes frame: "op S E p tr = (res, p', tr') \<Longrightarrow>
      px_retryAttempts p' = px_retryAttempts p \<and> px_connectTimeoutNs p' = px_connectTimeoutNs p"
    and sends: "- (2 ^ 31) < sint (px_retryAttempts p) \<Longrightarrow> op S E p tr = (res, p', tr') \<Longrightarrow>
      sends_request S E req (px_retryAttempts p) tr res tr'"
begin

lemma only_offers:
  assumes "- (2 ^ 31) < sint (px_retryAttempts p)" and "op S E p tr = (res, p', tr')"
  shows "\<exists>bytes rs. tr' = offer_events bytes rs @ tr \<and>
           length rs \<le> nat (max 1 (sint (px_retryAttempts p)))"
proof -
  from sends [OF assms] show ?thesis
    unfolding sends_request_def
  proof (elim disjE exE conjE)
    fix e assume "tr' = tr"
    then show ?thesis by (intro exI [of _ "[]"]) simp
  qed blast
qed

lemma extends_op:
  assumes "- (2 ^ 31) < sint (px_retryAttempts p)" and "op S E p tr = (res, p', tr')"
  shows "extends tr tr'"
  using only_offers [OF assms] by (auto simp: extends_def)

lemma offers_bounded:
  assumes "- (2 ^ 31) < sint (px_retryAttempts p)" and "op S E p tr = (res, p', tr')"
  shows "count_events is_offer tr' \<le>
           count_events is_offer tr + nat (max 1 (sint (px_retryAttempts p)))"
  using only_offers [OF assms] by (auto simp: count_offer_events)

lemma sent:
  assumes "- (2 ^ 31) < sint (px_retryAttempts p)" and "op S E p tr = (Inr True, p', tr')"
  shows "\<exists>bytes r es. tr' = Offered bytes r # es @ tr \<and> 0 <s r \<and> list_all sending_event es \<and>
           (\<forall>D. sbe_decodes S D \<longrightarrow> D bytes = Some (request_header S (type_of_request req), req))"
  by (rule sends_request_True [OF sends [OF assms]])

end

lemma send_request_operation: "proxy_operation (\<lambda>S E. send_request S E req) req"
  by unfold_locales (use send_request_frame send_request_sends in blast)+

interpretation closeSession_op: proxy_operation "\<lambda>S E. proxy_closeSession S E cs" "CloseSessionRequest cs"
  for cs
  by (simp add: request_defs send_request_operation)

interpretation startRecording_op: proxy_operation
  "\<lambda>S E. proxy_startRecording S E ch sid loc c cs" "StartRecordingRequest cs c sid loc ch" for ch sid loc c cs
  by (simp add: request_defs send_request_operation)

interpretation stopRecording_op: proxy_operation
  "\<lambda>S E. proxy_stopRecording S E ch sid c cs" "StopRecordingRequest cs c sid ch" for ch sid c cs
  by (simp add: request_defs send_request_operation)

interpretation stopRecording_subscription_op: proxy_operation
  "\<lambda>S E. proxy_stopRecording_subscription S E sub c cs" "StopRecordingSubscriptionRequest cs c sub"
  for sub c cs
  by (simp add: request_defs send_request_operation)

interpretation replay_op: proxy_operation
  "\<lambda>S E. proxy_replay S E rid pos len ch sid c cs" "ReplayRequest cs c rid pos len sid ch"
  for rid pos len ch sid c cs
  by (simp add: request_defs send_request_operation)

interpretation stopReplay_op: proxy_operation
  "\<lambda>S E. proxy_stopReplay S E rs c cs" "StopReplayRequest cs c rs" for rs c cs
  by (simp add: request_defs send_request_operation)

interpretation listRecordings_op: proxy_operation
  "\<lambda>S E. proxy_listRecordings S E rid n c cs" "ListRecordingsRequest cs c rid n" for rid n c cs
  by (simp add: request_defs send_request_operation)

interpretation listRecordingsForUri_op: proxy_operation
  "\<lambda>S E. proxy_listRecordingsForUri S E rid n ch sid c cs" "ListRecordingsForUriRequest cs c rid n sid ch"
  for rid n ch sid c cs
  by (simp add: request_defs send_request_operation)

interpretation listRecording_op: proxy_operation
  "\<lambda>S E. proxy_listRecording S E rid c cs" "ListRecordingRequest cs c rid" for rid c cs
  by (simp add: request_defs send_request_operation)

interpretation extendRecording_op: proxy_operation
  "\<lambda>S E. proxy_extendRecording S E ch sid loc rid c cs" "ExtendRecordingRequest cs c rid sid loc ch"
  for ch sid loc rid c cs
  by (simp add: request_defs send_request_operation)

interpretation getRecordingPosition_op: proxy_operation
  "\<lambda>S E. proxy_getRecordingPosition S E rid c cs" "RecordingPositionRequest cs c rid" for rid c cs
  by (simp add: request_defs send_request_operation)

interpretation truncateRecording_op: proxy_operation
  "\<lambda>S E. proxy_truncateRecording S E rid pos c cs" "TruncateRecordingRequest cs c rid pos"
  for rid pos c cs
  by (simp add: request_defs send_request_operation)

interpretation getStopPosition_op: proxy_operation
  "\<lambda>S E. proxy_getStopPosition S E rid c cs" "StopPositionRequest cs c rid" for rid c cs
  by (simp add: request_defs send_request_operation)

interpretation findLastMatchingRecording_op: proxy_operation
  "\<lambda>S E. proxy_findLastMatchingRecording S E rid ch sid ses c cs"
  "FindLastMatchingRecordingRequest cs c rid ses sid ch" for rid ch sid ses c cs
  by (simp add: request_defs send_request_operation)

section \<open>The connect loop\<close>

text \<open>
  How the connect loop ends: with a successful offer of the bytes, by a timeout that a clock
  reading past the deadline shows, or with an exception for an offer that can never succeed.
\<close>

definition timeout_outcome ::
  "env \<Rightarrow> byte list \<Rightarrow> int64 \<Rightarrow> trace \<Rightarrow> bool result \<Rightarrow> trace \<Rightarrow> bool" where
  "timeout_outcome E bytes deadline tr res tr' \<longleftrightarrow>
     extends tr tr' \<and>
     (case res of
        Inr True \<Rightarrow> \<exists>r es. tr' = Offered bytes r # es \<and> 0 <s r
      | Inr False \<Rightarrow> \<exists>t r es. tr' = ClockRead t # Offered bytes r # es \<and> deadline <s t \<and> \<not> 0 <s r
      | Inl e \<Rightarrow> \<exists>r es. tr' = Offered bytes r # es \<and>
          (r = env_PUBLICATION_CLOSED E \<and>
             e = ArchiveException ''connection to the archive has been closed'' \<or>
           r = env_MAX_POSITION_EXCEEDED E \<and>
             e = ArchiveException ''offer failed due to max position being reached''))"

lemma timeout_step_outcome:
  assumes "timeout_step E bytes deadline invoker tr1 = Some x" and "extends tr tr1"
  shows "case x of Inl tr2 \<Rightarrow> extends tr tr2 \<and> length tr1 < length tr2
         | Inr (res, tr') \<Rightarrow> timeout_outcome E bytes deadline tr res tr'"
  using assms
  by (auto simp: timeout_step_def call_defs timeout_outcome_def Let_def
      split: if_splits)

lemma timeout_loop_outcome:
  assumes "timeout_loop E bytes deadline invoker tr = Some (res, tr')"
  shows "timeout_outcome E bytes deadline tr res tr'"
proof -
  have "case (res, tr') of (res, tr') \<Rightarrow> timeout_outcome E bytes deadline tr res tr'"
    using assms unfolding timeout_loop_def
    by (rule loop_invariant [where I = "extends tr"])
      (auto dest: timeout_step_outcome)
  then show ?thesis by simp
qed

lemma timeout_loop_returns:
  assumes "clock_passes E deadline N"
  shows "\<exists>r. timeout_loop E bytes deadline invoker tr = Some r"
proof -
  have "\<exists>r. loop (timeout_step E bytes deadline invoker) tr = Some r \<and> True"
  proof (rule loop_total [where I = "\<lambda>_. True" and m = "\<lambda>tr. N - length tr"])
    fix tr1
    have "deadline <s env_now E (Offered bytes (env_offer E tr1 bytes) # tr1)" if "N \<le> length tr1"
      using assms that by (auto simp: clock_passes_def)
    then show "(\<exists>tr2. timeout_step E bytes deadline invoker tr1 = Some (Inl tr2) \<and> True \<and>
          N - length tr2 < N - length tr1) \<or>
        (\<exists>r. timeout_step E bytes deadline invoker tr1 = Some (Inr r) \<and> True)"
      by (cases "N \<le> length tr1") (auto simp: timeout_step_def call_defs Let_def)
  qed simp
  then show ?thesis by (simp add: timeout_loop_def)
qed

text \<open>The request methods of the class, by the request each of them is there to send.\<close>

fun proxy_perform ::
  "sbe \<Rightarrow> env \<Rightarrow> request \<Rightarrow> (archive_proxy \<Rightarrow> trace \<Rightarrow> bool result \<times> archive_proxy \<times> trace) option"
where
  "proxy_perform S E (ConnectRequest c sid ch) = None"
| "proxy_perform S E (CloseSessionRequest cs) = Some (proxy_closeSession S E cs)"
| "proxy_perform S E (StartRecordingRequest cs c sid loc ch) =
     Some (proxy_startRecording S E ch sid loc c cs)"
| "proxy_perform S E (StopRecordingRequest cs c sid ch) = Some (proxy_stopRecording S E ch sid c cs)"
| "proxy_perform S E (StopRecordingSubscriptionRequest cs c sub) =
     Some (proxy_stopRecording_subscription S E sub c cs)"
| "proxy_perform S E (ReplayRequest cs c rid pos len sid ch) =
     Some (proxy_replay S E rid pos len ch sid c cs)"
| "proxy_perform S E (StopReplayRequest cs c rs) = Some (proxy_stopReplay S E rs c cs)"
| "proxy_perform S E (ListRecordingsRequest cs c rid n) = Some (proxy_listRecordings S E rid n c cs)"
| "proxy_perform S E (ListRecordingsForUriRequest cs c rid n sid ch) =
     Some (proxy_listRecordingsForUri S E rid n ch sid c cs)"
| "proxy_perform S E (ListRecordingRequest cs c rid) = Some (proxy_listRecording S E rid c cs)"
| "proxy_perform S E (ExtendRecordingRequest cs c rid sid loc ch) =
     Some (proxy_extendRecording S E ch sid loc rid c cs)"
| "proxy_perform S E (RecordingPositionRequest cs c rid) = Some (proxy_getRecordingPosition S E rid c cs)"
| "proxy_perform S E (TruncateRecordingRequest cs c rid pos) =
     Some (proxy_truncateRecording S E rid pos c cs)"
| "proxy_perform S E (StopPositionRequest cs c rid) = Some (proxy_getStopPosition S E rid c cs)"
| "proxy_perform S E (FindLastMatchingRecordingRequest cs c rid ses sid ch) =
     Some (proxy_findLastMatchingRecording S E rid ch sid ses c cs)"

lemma proxy_perform_sends:
  assumes "- (2 ^ 31) < sint (px_retryAttempts p)"
    and "proxy_perform S E req = Some op" and "op p tr = (res, p', tr')"
  shows "sends_request S E req (px_retryAttempts p) tr res tr'"
  using assms(2,3)
  by (cases req) (auto simp: request_defs intro: send_request_sends [OF assms(1)])

lemma offer_events_single [simp]:
  "offer_events bytes rs = [e] \<longleftrightarrow> (\<exists>r. rs = [r] \<and> e = Offered bytes r)"
  by (induction bytes rs rule: offer_events.induct) auto

section \<open>Correctness\<close>

text \<open>
  C6: Every request method of the proxy that goes through \<^verbatim>\<open>offer\<close> sends the request it stands for (\<^verbatim>\<open>connect\<close> and
  \<^verbatim>\<open>tryConnect\<close> have a loop of their own). It either lets a codec
  exception through, with nothing offered; or it offers the same bytes, which decode to the
  request with every argument in its field behind the right header, at most
  \<open>max 1 retryAttempts\<close> times, idling in between. All offers but the last were refused for back
  pressure or an administrative action; the last one decides between true, an exception for
  a publication that is closed, not connected or at its end, and false, which is returned
  only when all attempts were used up.
\<close>

theorem requests_are_sent:
  assumes "- (2 ^ 31) < sint (px_retryAttempts p)"
    and "proxy_perform S E req = Some op" and "op p tr = (res, p', tr')"
  shows "((\<exists>e. res = Inl e) \<and> tr' = tr) \<or>
     (\<exists>bytes rs. tr' = offer_events bytes rs @ tr \<and> rs \<noteq> [] \<and>
        length rs \<le> nat (max 1 (sint (px_retryAttempts p))) \<and>
        (\<forall>r \<in> set (butlast rs). verdict E r = Inr False) \<and> res = verdict E (last rs) \<and>
        (res = Inr False \<longrightarrow> length rs = nat (max 1 (sint (px_retryAttempts p)))) \<and>
        (\<forall>D. sbe_decodes S D \<longrightarrow> D bytes = Some (request_header S (type_of_request req), req)))"
  using proxy_perform_sends [OF assms] by (simp add: sends_request_def)

definition sample_proxy :: archive_proxy where
  "sample_proxy = \<lparr>px_buffer = [0, 0, 0, 0, 0, 0, 0, 0], px_connectTimeoutNs = 100, px_retryAttempts = 3\<rparr>"

lemma requests_are_sent_witness:
  "\<exists>bytes. sample_decode bytes =
      Some (request_header sample_sbe T_StopReplay, StopReplayRequest 5 7 9) \<and>
    proxy_stopReplay sample_sbe (sample_env None) 9 7 5 sample_proxy [] =
      (Inr True, sample_proxy\<lparr>px_buffer := [8, 3, 5, 7, 9, 0, 0, 0]\<rparr>, [Offered bytes 1])"
proof -
  have run: "proxy_stopReplay sample_sbe (sample_env None) 9 7 5 sample_proxy [] =
      (Inr True, sample_proxy\<lparr>px_buffer := [8, 3, 5, 7, 9, 0, 0, 0]\<rparr>, [Offered [8, 3, 5, 7, 9] 1])"
    by (simp add: proxy_stopReplay_def send_request_def sample_proxy_def wrapAndApplyHeader_def
        offer_def payload_def offer_loop.simps call_defs sample_defs)
  have "sample_decode [8, 3, 5, 7, 9] =
      Some (request_header sample_sbe T_StopReplay, StopReplayRequest 5 7 9)"
    using requests_are_sent [of sample_proxy sample_sbe "sample_env None" "StopReplayRequest 5 7 9"
        "proxy_stopReplay sample_sbe (sample_env None) 9 7 5", OF _ _ run] sample_decodes
    by (auto simp: sample_proxy_def dest!: sym [of "[_]"])
  with run show ?thesis by blast
qed

text \<open>
  Connecting ends. Once the clock passes the deadline, which is the time of the call plus
  the connect timeout, the call returns: true when the connect request, with the response
  channel, its stream and the correlation id in their fields, was accepted by the publication;
  false only when the clock was read past the deadline after a refused offer; an exception only
  from the codec, or for a closed publication or one at its end. That nobody is connected yet
  is not an error here but a reason to try again.
\<close>

theorem connect_ends:
  assumes "clock_passes E (env_now E tr + px_connectTimeoutNs p) N"
  shows "\<exists>res p' tr'. proxy_connect_with S E invoker channel streamId correlationId p tr = Some (res, p', tr') \<and>
     ((\<exists>e. res = Inl e) \<and> tr' = tr \<or>
      (\<exists>bytes. timeout_outcome E bytes (env_now E tr + px_connectTimeoutNs p)
           (ClockRead (env_now E tr) # tr) res tr' \<and>
         (\<forall>D. sbe_decodes S D \<longrightarrow> D bytes =
            Some (request_header S T_Connect, ConnectRequest correlationId streamId channel))))"
proof -
  let ?req = "ConnectRequest correlationId streamId channel"
  obtain x p' where wrap: "wrapAndApplyHeader S ?req p = (x, p')" by fastforce
  show ?thesis
  proof (cases x)
    case (Inl e)
    then show ?thesis by (simp add: proxy_connect_with_def wrap)
  next
    case (Inr len)
    let ?deadline = "env_now E tr + px_connectTimeoutNs p"
    let ?tr = "ClockRead (env_now E tr) # tr"
    obtain res tr' where loop: "timeout_loop E (payload S len p') ?deadline invoker ?tr = Some (res, tr')"
      using timeout_loop_returns [OF assms] by fastforce
    have "proxy_connect_with S E invoker channel streamId correlationId p tr = Some (res, p', tr')"
      by (simp add: proxy_connect_with_def wrap Inr offerWithTimeout_def call_defs Let_def
          wrap_frame [OF wrap] loop)
    then show ?thesis
      using timeout_loop_outcome [OF loop] wrap_decodes [OF wrap [unfolded Inr]] by auto
  qed
qed

lemma connect_ends_witness:
  "\<exists>res p' tr'. proxy_connect_with sample_sbe (sample_env None) True ''aeron:udp'' 20 7 sample_proxy [] =
     Some (res, p', tr')"
proof -
  have "clock_passes (sample_env None) (env_now (sample_env None) [] + px_connectTimeoutNs sample_proxy) 101"
    by (rule sample_clock) (simp_all add: sample_env_def sample_proxy_def)
  from connect_ends [OF this, of sample_sbe True "''aeron:udp''" 20 7] show ?thesis by blast
qed

end
