(* ===== verification/PropertiesReader.thy ===== *)
theory PropertiesReader
  imports Prelude
begin

text \<open>
  Property files (\<^verbatim>\<open>src/util/PropertiesReader.cpp\<close>, \<^verbatim>\<open>.h\<close>): the line parser with its index
  arithmetic as written, the loop over the lines of the file with the first binding of a key
  winning, and the typed lookups. \<^verbatim>\<open>boost::lexical_cast\<close> is a parameter: a function from
  the text to \<open>None\<close> where the cast throws.
\<close>

section \<open>The model\<close>

definition ltrim :: "string \<Rightarrow> string" where
  "ltrim s = dropWhile isspace s"

definition rtrim :: "string \<Rightarrow> string" where
  "rtrim s = rev (dropWhile isspace (rev s))"

definition trim :: "string \<Rightarrow> string" where
  "trim s = rtrim (ltrim s)"

datatype line_state = START | KEY | VALUE

text \<open>How the loop over the characters ends: by \<^verbatim>\<open>return\<close>, or by leaving the loop.\<close>

datatype line_exit = Returned "string \<times> string" | Left line_state nat nat string

fun parseLine_loop ::
  "string \<Rightarrow> string \<Rightarrow> line_state \<Rightarrow> nat \<Rightarrow> nat \<Rightarrow> string \<Rightarrow> line_exit result" where
  "parseLine_loop line [] state i pos first = Inr (Left state i pos first)"
| "parseLine_loop line (c # cs) state i pos first =
     (case state of
        START \<Rightarrow>
          if \<not> isspace c then
            if c = CHR ''#'' then Inr (Returned (first, []))
            else parseLine_loop line cs KEY (i + 1) i first
          else parseLine_loop line cs START (i + 1) pos first
      | KEY \<Rightarrow>
          if c = CHR ''='' then
            (case substr line pos i of
               Inl e \<Rightarrow> Inl e
             | Inr f \<Rightarrow> parseLine_loop line cs VALUE (i + 1) (i + 1) (rtrim f))
          else if c = CHR ''#'' then Inr (Left KEY i pos first)
          else parseLine_loop line cs KEY (i + 1) pos first
      | VALUE \<Rightarrow>
          if c = CHR ''#'' then Inr (Left VALUE i pos first)
          else parseLine_loop line cs VALUE (i + 1) pos first)"

definition parseLine :: "string \<Rightarrow> (string \<times> string) result" where
  "parseLine line =
     (case parseLine_loop line line START 0 0 [] of
        Inl e \<Rightarrow> Inl e
      | Inr (Returned r) \<Rightarrow> Inr r
      | Inr (Left KEY i pos first) \<Rightarrow> Inl (RuntimeError (''no value: '' @ line))
      | Inr (Left VALUE i pos first) \<Rightarrow>
          bind_result (substr line pos i) (\<lambda>s. Inr (first, trim s))
      | Inr (Left START i pos first) \<Rightarrow> Inr (first, []))"

type_synonym properties = "string \<Rightarrow> string option"

definition emplace :: "properties \<Rightarrow> string \<times> string \<Rightarrow> properties" where
  "emplace m kv = (if m (fst kv) = None then m(fst kv \<mapsto> snd kv) else m)"

text \<open>\<^verbatim>\<open>std::getline\<close> until the end of the stream.\<close>

function getlines :: "string \<Rightarrow> string list" where
  "getlines s =
     (if s = [] then []
      else let l = takeWhile (\<lambda>c. c \<noteq> CHR 0x0A) s
           in case dropWhile (\<lambda>c. c \<noteq> CHR 0x0A) s of
                [] \<Rightarrow> [l]
              | _ # r \<Rightarrow> l # getlines r)"
  by pat_completeness auto
termination
  by (relation "measure length") (auto dest!: dropWhile_Cons_shorter)

declare getlines.simps [simp del]

text \<open>The \<^verbatim>\<open>catch\<close> rethrows by value, which leaves a bare \<^verbatim>\<open>std::exception\<close>.\<close>

fun load_lines :: "bool \<Rightarrow> properties \<Rightarrow> string list \<Rightarrow> properties result" where
  "load_lines skipErrors m [] = Inr m"
| "load_lines skipErrors m (l # ls) =
     (case parseLine l of
        Inl e \<Rightarrow> if \<not> skipErrors then Inl StdException else load_lines skipErrors m ls
      | Inr kv \<Rightarrow> load_lines skipErrors (emplace m kv) ls)"

text \<open>The constructor: \<open>content\<close> is \<open>None\<close> when the file cannot be opened.\<close>

definition mk_PropertiesReader :: "string \<Rightarrow> string option \<Rightarrow> bool \<Rightarrow> properties result" where
  "mk_PropertiesReader filename content skipErrors =
     (case content of
        None \<Rightarrow> Inl (RuntimeError (''can't open property file: '' @ filename))
      | Some text \<Rightarrow> load_lines skipErrors Map.empty (getlines text))"

text \<open>The generic \<^verbatim>\<open>parse_value\<close>, and its overload for \<^verbatim>\<open>bool\<close>.\<close>

definition parse_value :: "(string \<Rightarrow> 'a option) \<Rightarrow> string \<Rightarrow> 'a result" where
  "parse_value cast v = (case cast v of None \<Rightarrow> Inl BadLexicalCast | Some x \<Rightarrow> Inr x)"

definition parse_value_bool :: "string \<Rightarrow> bool result" where
  "parse_value_bool v =
     (let vu = map toupper v in Inr (vu = ''TRUE'' \<or> vu = ''1'' \<or> vu = ''Y''))"

definition get_property :: "(string \<Rightarrow> 'a result) \<Rightarrow> properties \<Rightarrow> string \<Rightarrow> 'a result" where
  "get_property parse m key =
     (case m key of None \<Rightarrow> Inl (RuntimeError (''key not found: '' @ key)) | Some v \<Rightarrow> parse v)"

definition get_property_or :: "(string \<Rightarrow> 'a result) \<Rightarrow> properties \<Rightarrow> string \<Rightarrow> 'a \<Rightarrow> 'a result" where
  "get_property_or parse m key def = (case m key of None \<Rightarrow> Inr def | Some v \<Rightarrow> parse v)"

section \<open>The line parser\<close>

lemma loop_start_blank:
  assumes "\<forall>c \<in> set ws. isspace c"
  shows "parseLine_loop line (ws @ cs) START i pos first =
         parseLine_loop line cs START (i + length ws) pos first"
  using assms by (induction ws arbitrary: i) (auto simp: add.assoc)

lemma loop_key_text:
  assumes "CHR ''='' \<notin> set k" and "CHR ''#'' \<notin> set k"
  shows "parseLine_loop line (k @ cs) KEY i pos first =
         parseLine_loop line cs KEY (i + length k) pos first"
  using assms by (induction k arbitrary: i) auto

lemma loop_value_text:
  assumes "CHR ''#'' \<notin> set v"
  shows "parseLine_loop line (v @ cs) VALUE i pos first =
         parseLine_loop line cs VALUE (i + length v) pos first"
  using assms by (induction v arbitrary: i) auto

text \<open>
  A key as the parser accepts it. Its first character is not looked at again, so it may be
  an equals sign.
\<close>

definition key_ok :: "string \<Rightarrow> bool" where
  "key_ok k \<longleftrightarrow> k \<noteq> [] \<and> \<not> isspace (hd k) \<and> hd k \<noteq> CHR ''#'' \<and>
     CHR ''#'' \<notin> set (tl k) \<and> CHR ''='' \<notin> set (tl k)"

lemma loop_key_start:
  assumes "key_ok k"
  shows "parseLine_loop line (k @ cs) START i pos first =
         parseLine_loop line cs KEY (i + length k) i first"
proof -
  obtain c k' where k: "k = c # k'" using assms by (cases k) (auto simp: key_ok_def)
  then show ?thesis
    using assms loop_key_text [of k' line cs "i + 1" i first] by (auto simp: key_ok_def)
qed

text \<open>
  What the parser does with a line \<open>ws key=value rest\<close> where \<open>rest\<close> is empty or a
  comment. The count given to \<^verbatim>\<open>std::string\<close> is an end position, not a length, so both
  substrings run past the field by as much as it is indented.
\<close>

lemma parseLine_shape:
  assumes "\<forall>c \<in> set ws. isspace c" and "key_ok k" and "CHR ''#'' \<notin> set v"
    and "rest = [] \<or> hd rest = CHR ''#''"
  shows "parseLine (ws @ k @ CHR ''='' # v @ rest) =
    Inr (rtrim (take (length ws + length k) (k @ CHR ''='' # v @ rest)),
         trim (take (length ws + length k + 1 + length v) (v @ rest)))"
    (is "parseLine ?line = _")
proof -
  let ?n = "length ws + length k"
  let ?key = "rtrim (take ?n (k @ CHR ''='' # v @ rest))"
  have "parseLine_loop ?line ?line START 0 0 [] =
        parseLine_loop ?line (v @ rest) VALUE (?n + 1) (?n + 1) ?key"
    using assms(1) by (simp add: loop_start_blank loop_key_start [OF assms(2)] substr_def)
  also have "\<dots> = parseLine_loop ?line rest VALUE (?n + 1 + length v) (?n + 1) ?key"
    by (simp add: loop_value_text [OF assms(3)])
  also have "\<dots> = Inr (Left VALUE (?n + 1 + length v) (?n + 1) ?key)"
    using assms(4) by (cases rest) auto
  finally show ?thesis
    by (simp add: parseLine_def substr_def)
qed

lemma parseLine_plain:
  assumes "key_ok k" and "CHR ''#'' \<notin> set v"
  shows "parseLine (k @ CHR ''='' # v) = Inr (rtrim k, trim v)"
  using parseLine_shape [of "[]" k v "[]"] assms by simp

text \<open>The positions stay inside the line, so the substrings never throw.\<close>

lemma parseLine_loop_in_range:
  assumes "i + length cs = length line" and "pos \<le> i"
  shows "case parseLine_loop line cs state i pos first of
           Inl e \<Rightarrow> False
         | Inr (Left st j p f) \<Rightarrow> p \<le> length line
         | Inr (Returned r) \<Rightarrow> True"
  using assms
proof (induction cs arbitrary: state i pos first)
  case Nil
  then show ?case by simp
next
  case (Cons c cs)
  show ?case
  proof (cases state)
    case START
    then show ?thesis
      using Cons.IH [of "i + 1" i KEY first] Cons.IH [of "i + 1" pos START first] Cons.prems by simp
  next
    case KEY
    then show ?thesis
      using Cons.IH [of "i + 1" "i + 1" VALUE] Cons.IH [of "i + 1" pos KEY first] Cons.prems
      by (simp add: substr_def)
  next
    case VALUE
    then show ?thesis
      using Cons.IH [of "i + 1" pos VALUE first] Cons.prems by simp
  qed
qed

lemma loop_key_stops:
  assumes "CHR ''='' \<notin> set k" and "CHR ''#'' \<notin> set k" and "rest = [] \<or> hd rest = CHR ''#''"
  shows "parseLine_loop line (k @ rest) KEY i pos first = Inr (Left KEY (i + length k) pos first)"
  using assms loop_key_text [of k line rest i pos first] by (cases rest) auto

lemma dropWhile_stop: "dropWhile P s = [] \<or> \<not> P (hd (dropWhile P s))"
  by (induction s) auto

lemma ltrim_split:
  obtains ws where "line = ws @ ltrim line" and "\<forall>c \<in> set ws. isspace c"
proof (rule that [of "takeWhile isspace line"])
  show "line = takeWhile isspace line @ ltrim line" by (simp add: ltrim_def)
  show "\<forall>c \<in> set (takeWhile isspace line). isspace c" by (auto dest: set_takeWhileD)
qed

lemma ltrim_hd: "ltrim line \<noteq> [] \<Longrightarrow> \<not> isspace (hd (ltrim line))"
  using dropWhile_stop [of isspace line] unfolding ltrim_def by blast

definition no_equals :: "string \<Rightarrow> bool" where
  "no_equals t \<longleftrightarrow> CHR ''='' \<notin> set (takeWhile (\<lambda>c. c \<noteq> CHR ''#'') (tl t))"

lemma parseLine_no_value:
  assumes "ltrim line \<noteq> []" and "hd (ltrim line) \<noteq> CHR ''#''" and "no_equals (ltrim line)"
  shows "parseLine line = Inl (RuntimeError (''no value: '' @ line))"
proof -
  obtain ws where line: "line = ws @ ltrim line" and ws: "\<forall>c \<in> set ws. isspace c"
    by (rule ltrim_split)
  obtain c t where t: "ltrim line = c # t" using assms(1) by (cases "ltrim line") auto
  have "parseLine_loop line (ws @ ltrim line) START 0 0 [] =
        parseLine_loop line t KEY (length ws + 1) (length ws) []"
    using assms(2) ltrim_hd [OF assms(1)] by (simp add: loop_start_blank [OF ws] t)
  moreover have "parseLine_loop line t KEY (length ws + 1) (length ws) [] =
      Inr (Left KEY (length ws + 1 + length (takeWhile (\<lambda>c. c \<noteq> CHR ''#'') t)) (length ws) [])"
    using loop_key_stops [of "takeWhile (\<lambda>c. c \<noteq> CHR ''#'') t" "dropWhile (\<lambda>c. c \<noteq> CHR ''#'') t"]
      assms(3) dropWhile_stop [of "\<lambda>c. c \<noteq> CHR ''#''" t]
    by (simp add: no_equals_def t not_in_takeWhile)
  ultimately show ?thesis
    using line by (simp add: parseLine_def)
qed

lemma parseLine_blank: "ltrim line = [] \<Longrightarrow> parseLine line = Inr ([], [])"
  using loop_start_blank [of line line "[]" 0 0 "[]"]
  by (simp add: ltrim_def parseLine_def)

lemma parseLine_comment:
  assumes "ltrim line \<noteq> []" and "hd (ltrim line) = CHR ''#''"
  shows "parseLine line = Inr ([], [])"
proof -
  obtain ws where line: "line = ws @ ltrim line" and ws: "\<forall>c \<in> set ws. isspace c"
    by (rule ltrim_split)
  obtain t where "ltrim line = CHR ''#'' # t" using assms by (cases "ltrim line") auto
  then have "parseLine_loop line (ws @ ltrim line) START 0 0 [] = Inr (Returned ([], []))"
    using ltrim_hd [OF assms(1)] by (simp add: loop_start_blank [OF ws])
  then show ?thesis
    using line by (simp add: parseLine_def)
qed

text \<open>Every line with an equals sign before any comment has the shape of \<open>parseLine_shape\<close>.\<close>

lemma line_shape:
  assumes "ltrim line \<noteq> []" and "hd (ltrim line) \<noteq> CHR ''#''" and "\<not> no_equals (ltrim line)"
  obtains ws k v rest where "line = ws @ k @ CHR ''='' # v @ rest" and "\<forall>c \<in> set ws. isspace c"
    and "key_ok k" and "CHR ''#'' \<notin> set v" and "rest = [] \<or> hd rest = CHR ''#''"
proof -
  obtain ws where line: "line = ws @ ltrim line" and ws: "\<forall>c \<in> set ws. isspace c"
    by (rule ltrim_split)
  obtain c u where t: "ltrim line = c # u" using assms(1) by (cases "ltrim line") auto
  define rest where "rest = dropWhile (\<lambda>c. c \<noteq> CHR ''#'') u"
  obtain k v where u: "takeWhile (\<lambda>c. c \<noteq> CHR ''#'') u = k @ CHR ''='' # v"
      and k: "CHR ''='' \<notin> set k"
    using assms(3) by (auto simp: no_equals_def t dest: split_list_first)
  have free: "CHR ''#'' \<notin> set k" "CHR ''#'' \<notin> set v"
    using not_in_takeWhile [of "CHR ''#''" u] u by auto
  have key: "key_ok (c # k)"
    using k free assms(2) ltrim_hd [OF assms(1)] by (simp add: key_ok_def t)
  have "u = k @ CHR ''='' # v @ rest"
    using takeWhile_dropWhile_id [of "\<lambda>c. c \<noteq> CHR ''#''" u]
    by (simp add: u rest_def [symmetric])
  then have shape: "line = ws @ (c # k) @ CHR ''='' # v @ rest"
    using line [unfolded t] by simp
  have "rest = [] \<or> hd rest = CHR ''#''"
    using dropWhile_stop [of "\<lambda>c. c \<noteq> CHR ''#''" u] by (simp add: rest_def)
  then show ?thesis
    by (rule that [OF shape ws key free(2)])
qed

text \<open>
  The binding of a line, cut out of it at the equals sign and the comment sign. The key begins at
  the first character that is not white space, the value behind the equals sign; \<open>excess\<close> says by how
  many characters the text of each is too long, from the position at which it starts.
\<close>

definition line_binding :: "(nat \<Rightarrow> nat) \<Rightarrow> string \<Rightarrow> (string \<times> string) result" where
  "line_binding excess line =
     (let t = ltrim line; start = length line - length t;
          k = hd t # takeWhile (\<lambda>c. c \<noteq> CHR ''='') (tl t); u = drop (length k + 1) t;
          v = takeWhile (\<lambda>c. c \<noteq> CHR ''#'') u
      in if t = [] \<or> hd t = CHR ''#'' then Inr ([], [])
         else if no_equals t then Inl (RuntimeError (''no value: '' @ line))
         else Inr (rtrim (take (length k + excess start) t),
                   trim (take (length v + excess (start + length k + 1)) u)))"

lemma line_binding_shape:
  assumes "\<forall>c \<in> set ws. isspace c" and "key_ok k" and "CHR ''#'' \<notin> set v"
    and "rest = [] \<or> hd rest = CHR ''#''"
  shows "line_binding excess (ws @ k @ CHR ''='' # v @ rest) =
     Inr (rtrim (take (length k + excess (length ws)) (k @ CHR ''='' # v @ rest)),
          trim (take (length v + excess (length ws + length k + 1)) (v @ rest)))"
proof -
  obtain c cs where k: "k = c # cs" "\<not> isspace c" "c \<noteq> CHR ''#''" "CHR ''='' \<notin> set cs" "CHR ''#'' \<notin> set cs"
    using assms(2) by (cases k) (auto simp: key_ok_def)
  have t: "ltrim (ws @ k @ CHR ''='' # v @ rest) = k @ CHR ''='' # v @ rest"
    using assms(1) by (simp add: ltrim_def k(1,2) dropWhile_append)
  have v: "takeWhile (\<lambda>c. c \<noteq> CHR ''#'') (v @ rest) = v"
    using assms(3,4) by (cases rest) (auto simp: takeWhile_append)
  have "\<not> no_equals (k @ CHR ''='' # v @ rest)"
    using k by (auto simp: no_equals_def takeWhile_append)
  moreover have "takeWhile (\<lambda>c. c \<noteq> CHR ''='') (cs @ CHR ''='' # v @ rest) = cs"
    using k(4) by (auto simp: takeWhile_append)
  ultimately show ?thesis
    unfolding line_binding_def t using k v by (simp add: Let_def)
qed

lemma parseLine_binding: "parseLine line = line_binding (\<lambda>start. start) line"
proof (cases "ltrim line = [] \<or> hd (ltrim line) = CHR ''#''")
  case True
  then show ?thesis using parseLine_blank parseLine_comment by (auto simp: line_binding_def)
next
  case False
  show ?thesis
  proof (cases "no_equals (ltrim line)")
    case True
    then show ?thesis using False parseLine_no_value by (simp add: line_binding_def Let_def)
  next
    case some: False
    obtain ws k v rest where "line = ws @ k @ CHR ''='' # v @ rest" "\<forall>c \<in> set ws. isspace c"
        "key_ok k" "CHR ''#'' \<notin> set v" "rest = [] \<or> hd rest = CHR ''#''"
      using False some line_shape [of line] by blast
    then show ?thesis
      using parseLine_shape line_binding_shape by (simp add: ac_simps)
  qed
qed

lemma line_binding_plain:
  assumes "ltrim line = line" and "CHR ''#'' \<notin> set line"
  shows "line_binding (\<lambda>start. start) line = line_binding (\<lambda>_. 0) line"
proof -
  define u where "u = drop (Suc (Suc (length (takeWhile (\<lambda>c. c \<noteq> CHR ''='') (tl line))))) line"
  have "CHR ''#'' \<notin> set u" using assms(2) unfolding u_def by (meson in_set_dropD)
  then have "takeWhile (\<lambda>c. c \<noteq> CHR ''#'') u = u" by (rule takeWhile_all)
  then show ?thesis
    using assms(1) by (simp add: line_binding_def Let_def u_def [symmetric] del: takeWhile_eq_all_conv)
qed

section \<open>The lines of a file\<close>

lemma getlines_Cons:
  assumes "CHR 0x0A \<notin> set l"
  shows "getlines (l @ CHR 0x0A # s) = l # getlines s"
  using assms by (subst getlines.simps) (simp add: takeWhile_free dropWhile_free)

lemma getlines_lines:
  assumes "\<forall>l \<in> set ls. CHR 0x0A \<notin> set l"
  shows "getlines (concat (map (\<lambda>l. l @ [CHR 0x0A]) ls)) = ls"
  using assms
proof (induction ls)
  case Nil
  then show ?case by (simp add: getlines.simps)
next
  case (Cons l ls)
  then show ?case by (simp add: getlines_Cons)
qed

text \<open>Loading never forgets or changes a binding: the first one for a key wins.\<close>

lemma emplace_keeps: "m k = Some v \<Longrightarrow> emplace m kv k = Some v"
  by (auto simp: emplace_def)

lemma load_lines_keeps:
  "load_lines skip m ls = Inr m' \<Longrightarrow> m k = Some v \<Longrightarrow> m' k = Some v"
  by (induction ls arbitrary: m) (auto simp: emplace_keeps split: sum.splits if_splits)

lemma load_lines_append:
  "load_lines skip m (xs @ ys) = bind_result (load_lines skip m xs) (\<lambda>m'. load_lines skip m' ys)"
  by (induction xs arbitrary: m) (auto split: sum.splits)

lemma load_lines_skip_total: "\<exists>m'. load_lines True m ls = Inr m'"
  by (induction ls arbitrary: m) (auto split: sum.splits)

lemma load_lines_first:
  assumes "load_lines skip m xs = Inr m1" and "m1 k = None" and "parseLine l = Inr (k, v)"
    and "load_lines skip m (xs @ l # ys) = Inr m'"
  shows "m' k = Some v"
proof -
  have "load_lines skip (emplace m1 (k, v)) ys = Inr m'"
    using assms by (simp add: load_lines_append)
  then show ?thesis
    by (rule load_lines_keeps) (simp add: emplace_def assms(2))
qed

lemma foldl_emplace: "foldl emplace m kvs = map_of kvs ++ m"
proof (induction kvs arbitrary: m)
  case Nil
  then show ?case by simp
next
  case (Cons kv kvs)
  then show ?case
    by (cases kv) (auto simp: emplace_def fun_eq_iff map_add_def split: option.split)
qed

text \<open>A list of plain bindings, written one per line, is loaded as written.\<close>

definition binding_line :: "string \<times> string \<Rightarrow> string" where
  "binding_line kv = fst kv @ ''='' @ snd kv"

definition plain_binding :: "string \<times> string \<Rightarrow> bool" where
  "plain_binding kv \<longleftrightarrow> key_ok (fst kv) \<and> rtrim (fst kv) = fst kv \<and> CHR 0x0A \<notin> set (fst kv) \<and>
     CHR ''#'' \<notin> set (snd kv) \<and> trim (snd kv) = snd kv \<and> CHR 0x0A \<notin> set (snd kv)"

lemma load_plain:
  assumes "list_all plain_binding kvs"
  shows "load_lines skip m (map binding_line kvs) = Inr (map_of kvs ++ m)"
  unfolding foldl_emplace [symmetric] using assms
proof (induction kvs arbitrary: m)
  case Nil
  then show ?case by simp
next
  case (Cons kv kvs)
  moreover from Cons.prems have "parseLine (binding_line kv) = Inr kv"
    using parseLine_plain [of "fst kv" "snd kv"] by (simp add: plain_binding_def binding_line_def)
  ultimately show ?case by simp
qed

lemma read_plain_file:
  assumes "list_all plain_binding kvs"
  shows "mk_PropertiesReader filename
           (Some (concat (map (\<lambda>l. l @ [CHR 0x0A]) (map binding_line kvs)))) True = Inr (map_of kvs)"
proof -
  have "\<forall>l \<in> set (map binding_line kvs). CHR 0x0A \<notin> set l"
    using assms by (auto simp: list_all_iff plain_binding_def binding_line_def)
  then show ?thesis
    using load_plain [OF assms, of True Map.empty]
    by (simp add: mk_PropertiesReader_def getlines_lines del: map_map)
qed

lemma trim_no_space:
  assumes "\<forall>c \<in> set s. \<not> isspace c"
  shows "trim s = s" and "rtrim s = s"
proof -
  have "dropWhile isspace t = t" if "\<forall>c \<in> set t. \<not> isspace c" for t
    using that by (cases t) auto
  from this [of s] this [of "rev s"] have "dropWhile isspace s = s" "dropWhile isspace (rev s) = rev s"
    using assms by simp_all
  then show "trim s = s" "rtrim s = s"
    by (simp_all add: trim_def ltrim_def rtrim_def)
qed

section \<open>Properties\<close>

text \<open>
  a line \<^verbatim>\<open>key=value\<close> that is not indented and has no comment is read as written, with the
  white space around the value and after the key removed.
\<close>

theorem parseLine_reads_binding:
  assumes "key_ok k" and "CHR ''#'' \<notin> set v"
  shows "parseLine (k @ ''='' @ v) = Inr (rtrim k, trim v)"
  using parseLine_plain [OF assms] by simp

theorem parseLine_reads_binding_witness:
  "parseLine ''aeron.archive.control.stream.id = 42 '' = Inr (''aeron.archive.control.stream.id'', ''42'')"
proof -
  have "key_ok ''aeron.archive.control.stream.id ''" "CHR ''#'' \<notin> set '' 42 ''"
    by (simp_all add: key_ok_def isspace_def)
  from parseLine_reads_binding [OF this] show ?thesis
    by (simp add: rtrim_def trim_def ltrim_def isspace_def)
qed

text \<open>
  C39: The line parser is a reference definition on every line. A line that is blank or a comment is an
  empty binding; one without an equals sign before its comment throws \<^verbatim>\<open>no value\<close>; every other line is
  cut at the equals sign and at the comment sign, but as the parser gives \<^verbatim>\<open>std::string\<close> an end
  position for a length, the key and the value each run on by as many characters as the position
  at which they start. What is meant, no excess, is what a line gives that is neither indented
  nor commented.
\<close>

theorem parseLine_equals_reference:
  "parseLine line = line_binding (\<lambda>start. start) line \<and>
   (ltrim line = line \<and> CHR ''#'' \<notin> set line \<longrightarrow> parseLine line = line_binding (\<lambda>_. 0) line)"
  using parseLine_binding line_binding_plain by simp

theorem parseLine_equals_reference_witness:
  "parseLine ''mtu=1408'' = line_binding (\<lambda>_. 0) ''mtu=1408'' \<and> parseLine '' mtu=1408'' \<noteq> line_binding (\<lambda>_. 0) '' mtu=1408''"
proof
  have "ltrim ''mtu=1408'' = ''mtu=1408'' \<and> CHR ''#'' \<notin> set ''mtu=1408''" by code_simp
  then show "parseLine ''mtu=1408'' = line_binding (\<lambda>_. 0) ''mtu=1408''"
    using parseLine_equals_reference [of "''mtu=1408''"] by (metis (no_types))
  show "parseLine '' mtu=1408'' \<noteq> line_binding (\<lambda>_. 0) '' mtu=1408''" by code_simp
qed

text \<open>
  a comment after a value is not removed: since the parser passes an end position where
  \<^verbatim>\<open>std::string\<close> takes a length, the value also gets the first characters of the comment, as
  many as the key is long plus one.
\<close>

theorem parseLine_keeps_comment:
  assumes "key_ok k" and "CHR ''#'' \<notin> set v"
  shows "parseLine (k @ ''='' @ v @ ''#'' @ c) =
           Inr (rtrim k, trim (v @ CHR ''#'' # take (length k) c))"
  using parseLine_shape [of "[]" k v "CHR ''#'' # c"] assms by simp

theorem parseLine_keeps_comment_witness:
  "parseLine ''mtu=1408 # bytes'' = Inr (''mtu'', ''1408 # by'')"
proof -
  have "key_ok ''mtu''" "CHR ''#'' \<notin> set ''1408 ''"
    by (simp_all add: key_ok_def isspace_def)
  from parseLine_keeps_comment [OF this, of "'' bytes''"] show ?thesis
    by (simp add: rtrim_def trim_def ltrim_def isspace_def)
qed

text \<open>
  an indented line is bound to a key that contains the equals sign, again because of the
  end position used as a length; so the setting is not found under its name.
\<close>

theorem parseLine_indented_key:
  assumes "ws \<noteq> []" and "\<forall>c \<in> set ws. isspace c" and "key_ok k" and "CHR ''#'' \<notin> set v"
  shows "\<exists>key val. parseLine (ws @ k @ ''='' @ v) = Inr (key, val) \<and>
           key = k @ CHR ''='' # drop (length k + 1) key \<and> key \<noteq> k"
proof -
  let ?s = "take (length ws + length k) (k @ CHR ''='' # v)"
  obtain n where n: "length ws = Suc n" using assms(1) by (cases ws) auto
  have s: "?s = k @ CHR ''='' # take n v"
    by (simp add: n)
  have "rtrim ?s = k @ CHR ''='' # rtrim (take n v)"
    unfolding s rtrim_def by (simp add: dropWhile_append isspace_def)
  then show ?thesis
    using parseLine_shape [of ws k v "[]"] assms by simp
qed

theorem parseLine_indented_key_witness:
  "\<exists>key val. parseLine ''  mtu=1408'' = Inr (key, val) \<and> key \<noteq> ''mtu''"
proof -
  have "''  '' \<noteq> []" "\<forall>c \<in> set ''  ''. isspace c" "key_ok ''mtu''" "CHR ''#'' \<notin> set ''1408''"
    by (simp_all add: key_ok_def isspace_def)
  from parseLine_indented_key [OF this] show ?thesis by auto
qed

text \<open>
  when a key is bound on several lines of the file, the first binding wins, whatever the
  other lines are.
\<close>

theorem load_lines_first_wins:
  assumes "load_lines skip m xs = Inr m1" and "m1 k = None" and "parseLine l = Inr (k, v)"
    and "load_lines skip m (xs @ l # ys) = Inr m'"
  shows "m' k = Some v"
  by (rule load_lines_first [OF assms])

theorem load_lines_first_wins_witness:
  "\<exists>m'. load_lines True Map.empty [''x'', ''a=1'', ''a=2''] = Inr m' \<and> m' ''a'' = Some ''1''"
proof -
  have p: "parseLine ''x'' = Inl (RuntimeError ''no value: x'')" "parseLine ''a=1'' = Inr (''a'', ''1'')"
    by code_simp+
  have first: "load_lines True Map.empty [''x''] = Inr Map.empty"
    by (simp add: p)
  obtain m' where m': "load_lines True Map.empty ([''x''] @ ''a=1'' # [''a=2'']) = Inr m'"
    using load_lines_skip_total by blast
  show ?thesis
    using load_lines_first_wins [OF first _ p(2) m'] m' by simp
qed

end
