(* ===== verification/Configuration.thy ===== *)
theory Configuration
  imports PropertiesReader
begin

text \<open>
  The configuration (\<^verbatim>\<open>src/Configuration.cpp\<close>, \<^verbatim>\<open>.h\<close>): the twelve declared properties with their
  environment variables, property-file keys and defaults, and the two constructors. The
  casts of \<^verbatim>\<open>boost::lexical_cast\<close> are the record \<open>lexical\<close>, a parameter; what the code relies on
  of them is \<open>lexical_ok\<close>. The environment is a map from variable names to texts.
\<close>

section \<open>The model\<close>

text \<open>\<^verbatim>\<open>boost::lexical_cast\<close> at the four types the code uses it at; \<open>None\<close> is a throw.\<close>

record lexical =
  lc_int64 :: "string \<Rightarrow> int64 option"
  lc_int32 :: "string \<Rightarrow> int32 option"
  lc_string :: "string \<Rightarrow> string option"
  lc_bool :: "string \<Rightarrow> bool option"

text \<open>What \<^verbatim>\<open>DECLARE_PROPERTY\<close> declares.\<close>

record 'a property =
  env_name :: string
  key :: string
  defaultValue :: 'a

definition declare_property :: "string \<Rightarrow> string \<Rightarrow> 'a \<Rightarrow> 'a property" where
  "declare_property cap_name key_name val =
     \<lparr>env_name = ''AERON_ARCHIVE_'' @ cap_name, key = key_name, defaultValue = val\<rparr>"

definition getEnvVarOrDefault ::
  "(string \<Rightarrow> 'a option) \<Rightarrow> (string \<Rightarrow> string option) \<Rightarrow> 'a property \<Rightarrow> 'a result" where
  "getEnvVarOrDefault cast getenv p =
     (case getenv (env_name p) of
        None \<Rightarrow> Inr (defaultValue p)
      | Some evv \<Rightarrow> (case cast evv of None \<Rightarrow> Inl BadLexicalCast | Some x \<Rightarrow> Inr x))"

definition MessageTimeout :: "int64 property" where
  "MessageTimeout = declare_property ''MESSAGE_TIMEOUT'' ''aeron.archive.message.timeout'' (5 * 1000000000)"
definition ControlChannel :: "string property" where
  "ControlChannel = declare_property ''CONTROL_CHANNEL'' ''aeron.archive.control.channel''
     ''aeron:udp?endpoint=localhost:8010''"
definition ControlStreamId :: "int32 property" where
  "ControlStreamId = declare_property ''CONTROL_STREAM_ID'' ''aeron.archive.control.stream.id'' 10"
definition LocalControlChannel :: "string property" where
  "LocalControlChannel = declare_property ''LOCAL_CONTROL_CHANNEL''
     ''aeron.archive.local.control.channel'' ''aeron:ipc''"
definition LocalControlStreamId :: "int32 property" where
  "LocalControlStreamId = declare_property ''LOCAL_CONTROL_STREAM_ID''
     ''aeron.archive.local.control.stream.id'' 11"
definition ControlResponseChannel :: "string property" where
  "ControlResponseChannel = declare_property ''CONTROL_RESPONSE_CHANNEL''
     ''aeron.archive.control.response.channel'' ''aeron:udp?endpoint=localhost:8020''"
definition ControlResponseStreamId :: "int32 property" where
  "ControlResponseStreamId = declare_property ''CONTROL_RESPONSE_STREAM_ID''
     ''aeron.archive.control.response.stream.id'' 20"
definition RecordingEventsChannel :: "string property" where
  "RecordingEventsChannel = declare_property ''RECORDING_EVENTS_CHANNEL''
     ''aeron.archive.recording.events.channel'' ''aeron:udp?endpoint=localhost:8030''"
definition RecordingEventsStreamId :: "int32 property" where
  "RecordingEventsStreamId = declare_property ''RECORDING_EVENTS_STREAM_ID''
     ''aeron.archive.recording.events.stream.id'' 30"
definition ControlTermBufferSparse :: "bool property" where
  "ControlTermBufferSparse = declare_property ''CONTROL_TERM_BUFFER_SPARSE''
     ''aeron.archive.control.term.buffer.sparse'' True"
definition ControlTermBufferLength :: "int32 property" where
  "ControlTermBufferLength = declare_property ''CONTROL_TERM_BUFFER_LENGTH''
     ''aeron.archive.control.term.buffer.length'' (64 * 1024)"
definition ControlMtuLength :: "int32 property" where
  "ControlMtuLength = declare_property ''CONTROL_MTU_LENGTH'' ''aeron.archive.control.mtu.length'' 1408"

lemmas property_defs = declare_property_def MessageTimeout_def ControlChannel_def ControlStreamId_def
  LocalControlChannel_def LocalControlStreamId_def ControlResponseChannel_def
  ControlResponseStreamId_def RecordingEventsChannel_def RecordingEventsStreamId_def
  ControlTermBufferSparse_def ControlTermBufferLength_def ControlMtuLength_def

record configuration =
  messageTimeoutNs :: int64
  controlChannel :: string
  controlStreamId :: int32
  localControlChannel :: string
  localControlStreamId :: int32
  controlResponseChannel :: string
  controlResponseStreamId :: int32
  recordingEventsChannel :: string
  recordingEventsStreamId :: int32
  controlTermBufferSparse :: bool
  controlTermBufferLength :: int32
  controlMtuLength :: int32

text \<open>\<^verbatim>\<open>Configuration()\<close>: every field from its environment variable or its default.\<close>

definition Configuration_env :: "lexical \<Rightarrow> (string \<Rightarrow> string option) \<Rightarrow> configuration result" where
  "Configuration_env L getenv =
     bind_result (getEnvVarOrDefault (lc_int64 L) getenv MessageTimeout) (\<lambda>a.
     bind_result (getEnvVarOrDefault (lc_string L) getenv ControlChannel) (\<lambda>b.
     bind_result (getEnvVarOrDefault (lc_int32 L) getenv ControlStreamId) (\<lambda>c.
     bind_result (getEnvVarOrDefault (lc_string L) getenv LocalControlChannel) (\<lambda>d.
     bind_result (getEnvVarOrDefault (lc_int32 L) getenv LocalControlStreamId) (\<lambda>e.
     bind_result (getEnvVarOrDefault (lc_string L) getenv ControlResponseChannel) (\<lambda>f.
     bind_result (getEnvVarOrDefault (lc_int32 L) getenv ControlResponseStreamId) (\<lambda>g.
     bind_result (getEnvVarOrDefault (lc_string L) getenv RecordingEventsChannel) (\<lambda>h.
     bind_result (getEnvVarOrDefault (lc_int32 L) getenv RecordingEventsStreamId) (\<lambda>i.
     bind_result (getEnvVarOrDefault (lc_bool L) getenv ControlTermBufferSparse) (\<lambda>j.
     bind_result (getEnvVarOrDefault (lc_int32 L) getenv ControlTermBufferLength) (\<lambda>k.
     bind_result (getEnvVarOrDefault (lc_int32 L) getenv ControlMtuLength) (\<lambda>l.
       Inr \<lparr>messageTimeoutNs = a, controlChannel = b, controlStreamId = c,
            localControlChannel = d, localControlStreamId = e,
            controlResponseChannel = f, controlResponseStreamId = g,
            recordingEventsChannel = h, recordingEventsStreamId = i,
            controlTermBufferSparse = j, controlTermBufferLength = k,
            controlMtuLength = l\<rparr>))))))))))))"

text \<open>\<^verbatim>\<open>Configuration(filename)\<close>: every field from the property file or its default.\<close>

definition get_or_default :: "(string \<Rightarrow> 'a result) \<Rightarrow> properties \<Rightarrow> 'a property \<Rightarrow> 'a result" where
  "get_or_default parse pr p = get_property_or parse pr (key p) (defaultValue p)"

definition Configuration_of_properties :: "lexical \<Rightarrow> properties \<Rightarrow> configuration result" where
  "Configuration_of_properties L pr =
     bind_result (get_or_default (parse_value (lc_int64 L)) pr MessageTimeout) (\<lambda>a.
     bind_result (get_or_default (parse_value (lc_string L)) pr ControlChannel) (\<lambda>b.
     bind_result (get_or_default (parse_value (lc_int32 L)) pr ControlStreamId) (\<lambda>c.
     bind_result (get_or_default (parse_value (lc_string L)) pr LocalControlChannel) (\<lambda>d.
     bind_result (get_or_default (parse_value (lc_int32 L)) pr LocalControlStreamId) (\<lambda>e.
     bind_result (get_or_default (parse_value (lc_string L)) pr ControlResponseChannel) (\<lambda>f.
     bind_result (get_or_default (parse_value (lc_int32 L)) pr ControlResponseStreamId) (\<lambda>g.
     bind_result (get_or_default (parse_value (lc_string L)) pr RecordingEventsChannel) (\<lambda>h.
     bind_result (get_or_default (parse_value (lc_int32 L)) pr RecordingEventsStreamId) (\<lambda>i.
     bind_result (get_or_default parse_value_bool pr ControlTermBufferSparse) (\<lambda>j.
     bind_result (get_or_default (parse_value (lc_int32 L)) pr ControlTermBufferLength) (\<lambda>k.
     bind_result (get_or_default (parse_value (lc_int32 L)) pr ControlMtuLength) (\<lambda>l.
       Inr \<lparr>messageTimeoutNs = a, controlChannel = b, controlStreamId = c,
            localControlChannel = d, localControlStreamId = e,
            controlResponseChannel = f, controlResponseStreamId = g,
            recordingEventsChannel = h, recordingEventsStreamId = i,
            controlTermBufferSparse = j, controlTermBufferLength = k,
            controlMtuLength = l\<rparr>))))))))))))"

definition Configuration_file :: "lexical \<Rightarrow> string \<Rightarrow> string option \<Rightarrow> configuration result" where
  "Configuration_file L filename content =
     bind_result (mk_PropertiesReader filename content True) (Configuration_of_properties L)"

section \<open>What the code relies on of the casts\<close>

text \<open>
  The documented behaviour of \<^verbatim>\<open>lexical_cast\<close>: the decimal text of a value casts to that
  value, a string casts to itself, and \<^verbatim>\<open>0\<close> and \<^verbatim>\<open>1\<close> are the booleans.
\<close>

definition lexical_ok :: "lexical \<Rightarrow> bool" where
  "lexical_ok L \<longleftrightarrow>
     (\<forall>n. lc_int64 L (to_string (sint n)) = Some n) \<and>
     (\<forall>n. lc_int32 L (to_string (sint n)) = Some n) \<and>
     (\<forall>s. lc_string L s = Some s) \<and>
     lc_bool L ''0'' = Some False \<and> lc_bool L ''1'' = Some True"

text \<open>One concrete cast: signed decimal numbers in range, and the two boolean digits.\<close>

definition read_signed :: "string \<Rightarrow> int option" where
  "read_signed s =
     (let neg = (take 1 s = ''-''); ds = (if neg then drop 1 s else s)
      in if ds = [] \<or> \<not> list_all is_digit ds then None
         else Some (if neg then - int (read_decimal ds) else int (read_decimal ds)))"

definition read_word :: "nat \<Rightarrow> string \<Rightarrow> 'a::len word option" where
  "read_word n s =
     (case read_signed s of
        None \<Rightarrow> None
      | Some i \<Rightarrow> if - (2 ^ n) \<le> i \<and> i < 2 ^ n then Some (word_of_int i) else None)"

definition decimal_casts :: lexical where
  "decimal_casts =
     \<lparr>lc_int64 = read_word 63, lc_int32 = read_word 31, lc_string = Some,
      lc_bool = (\<lambda>s. if s = ''0'' then Some False else if s = ''1'' then Some True else None)\<rparr>"

lemma read_signed_to_string: "read_signed (to_string i) = Some i"
proof (cases "i < 0")
  case True
  then show ?thesis
    using decimal_digits
    by (simp add: read_signed_def to_string_def list_all_iff read_decimal_decimal)
next
  case False
  obtain c s where d: "decimal (nat i) = c # s"
    by (cases "decimal (nat i)") auto
  moreover have "c \<noteq> CHR ''-''"
    using decimal_neq_minus d by metis
  ultimately show ?thesis
    using False decimal_digits [of _ "nat i"] read_decimal_decimal [of "nat i"]
    by (simp add: read_signed_def to_string_def list_all_iff)
qed

lemma decimal_casts_ok: "lexical_ok decimal_casts"
  by (simp add: lexical_ok_def decimal_casts_def read_word_def read_signed_to_string
      sint_greater_eq sint_less
      sint_greater_eq [where 'a = 64, simplified] sint_less [where 'a = 64, simplified]
      sint_greater_eq [where 'a = 32, simplified] sint_less [where 'a = 32, simplified])

section \<open>Configurations as property files and as environments\<close>

text \<open>The property file that sets every property to the value it has in \<open>c\<close>.\<close>

definition config_bindings :: "configuration \<Rightarrow> (string \<times> string) list" where
  "config_bindings c =
     [(key MessageTimeout, to_string (sint (messageTimeoutNs c))),
      (key ControlChannel, controlChannel c),
      (key ControlStreamId, to_string (sint (controlStreamId c))),
      (key LocalControlChannel, localControlChannel c),
      (key LocalControlStreamId, to_string (sint (localControlStreamId c))),
      (key ControlResponseChannel, controlResponseChannel c),
      (key ControlResponseStreamId, to_string (sint (controlResponseStreamId c))),
      (key RecordingEventsChannel, recordingEventsChannel c),
      (key RecordingEventsStreamId, to_string (sint (recordingEventsStreamId c))),
      (key ControlTermBufferSparse, if controlTermBufferSparse c then ''true'' else ''false''),
      (key ControlTermBufferLength, to_string (sint (controlTermBufferLength c))),
      (key ControlMtuLength, to_string (sint (controlMtuLength c)))]"

definition config_text :: "configuration \<Rightarrow> string" where
  "config_text c = concat (map (\<lambda>l. l @ [CHR 0x0A]) (map binding_line (config_bindings c)))"

text \<open>A text that survives a property file: one line, no comment sign, no outer white space.\<close>

definition value_ok :: "string \<Rightarrow> bool" where
  "value_ok s \<longleftrightarrow> CHR ''#'' \<notin> set s \<and> trim s = s \<and> CHR 0x0A \<notin> set s"

lemma value_ok_to_string [simp]: "value_ok (to_string i)"
proof -
  have "\<forall>c \<in> set (to_string i). \<not> isspace c"
    by (auto simp: isspace_def is_digit_def dest!: to_string_chars)
  then show ?thesis
    unfolding value_ok_def by (simp add: trim_no_space to_string_free is_digit_def)
qed

lemma value_ok_bools [simp]: "value_ok ''true''" "value_ok ''false''"
  by (simp_all add: value_ok_def trim_def ltrim_def rtrim_def isspace_def)

text \<open>Every key in the list is made of letters and dots, so it is a plain key.\<close>

definition key_text :: "string \<Rightarrow> bool" where
  "key_text k \<longleftrightarrow> k \<noteq> [] \<and>
     list_all (\<lambda>c. c \<noteq> CHR ''#'' \<and> c \<noteq> CHR ''='' \<and> c \<noteq> CHR 0x0A \<and> \<not> isspace c) k"

lemma plain_bindingI:
  assumes "key_text (fst kv)" and "value_ok (snd kv)"
  shows "plain_binding kv"
proof -
  have "rtrim (fst kv) = fst kv"
    using assms(1) by (intro trim_no_space) (simp add: key_text_def list_all_iff)
  moreover have "key_ok (fst kv) \<and> CHR 0x0A \<notin> set (fst kv)"
    using assms(1) unfolding key_text_def key_ok_def list_all_iff
    by (cases "fst kv") auto
  ultimately show ?thesis
    using assms(2) by (simp add: plain_binding_def value_ok_def)
qed

lemma config_bindings_plain:
  assumes "value_ok (controlChannel c)" and "value_ok (localControlChannel c)"
    and "value_ok (controlResponseChannel c)" and "value_ok (recordingEventsChannel c)"
  shows "list_all plain_binding (config_bindings c)"
proof -
  have "list_all key_text (map fst (config_bindings c))"
    by (simp add: config_bindings_def property_defs key_text_def isspace_def)
  moreover have "list_all value_ok (map snd (config_bindings c))"
    using assms by (simp add: config_bindings_def)
  ultimately show ?thesis
    by (simp add: list_all_iff plain_bindingI)
qed

lemma config_lookups:
  "map_of (config_bindings c) (key MessageTimeout) = Some (to_string (sint (messageTimeoutNs c)))"
  "map_of (config_bindings c) (key ControlChannel) = Some (controlChannel c)"
  "map_of (config_bindings c) (key ControlStreamId) = Some (to_string (sint (controlStreamId c)))"
  "map_of (config_bindings c) (key LocalControlChannel) = Some (localControlChannel c)"
  "map_of (config_bindings c) (key LocalControlStreamId) = Some (to_string (sint (localControlStreamId c)))"
  "map_of (config_bindings c) (key ControlResponseChannel) = Some (controlResponseChannel c)"
  "map_of (config_bindings c) (key ControlResponseStreamId) =
     Some (to_string (sint (controlResponseStreamId c)))"
  "map_of (config_bindings c) (key RecordingEventsChannel) = Some (recordingEventsChannel c)"
  "map_of (config_bindings c) (key RecordingEventsStreamId) =
     Some (to_string (sint (recordingEventsStreamId c)))"
  "map_of (config_bindings c) (key ControlTermBufferSparse) =
     Some (if controlTermBufferSparse c then ''true'' else ''false'')"
  "map_of (config_bindings c) (key ControlTermBufferLength) =
     Some (to_string (sint (controlTermBufferLength c)))"
  "map_of (config_bindings c) (key ControlMtuLength) = Some (to_string (sint (controlMtuLength c)))"
  by (simp_all add: config_bindings_def property_defs)

lemma parse_value_bool_words: "parse_value_bool (if b then ''true'' else ''false'') = Inr b"
proof -
  have "map toupper ''true'' = ''TRUE''" "map toupper ''false'' = ''FALSE''"
    by code_simp+
  then show ?thesis by (auto simp: parse_value_bool_def Let_def)
qed

lemma Configuration_of_bindings:
  assumes "lexical_ok L"
  shows "Configuration_of_properties L (map_of (config_bindings c)) = Inr c"
  using assms
  by (simp add: Configuration_of_properties_def get_or_default_def get_property_or_def
      config_lookups parse_value_def parse_value_bool_words lexical_ok_def del: if_split)

text \<open>The environment that sets every variable; booleans are written as digits.\<close>

definition config_env :: "configuration \<Rightarrow> string \<Rightarrow> string option" where
  "config_env c = map_of
     [(env_name MessageTimeout, to_string (sint (messageTimeoutNs c))),
      (env_name ControlChannel, controlChannel c),
      (env_name ControlStreamId, to_string (sint (controlStreamId c))),
      (env_name LocalControlChannel, localControlChannel c),
      (env_name LocalControlStreamId, to_string (sint (localControlStreamId c))),
      (env_name ControlResponseChannel, controlResponseChannel c),
      (env_name ControlResponseStreamId, to_string (sint (controlResponseStreamId c))),
      (env_name RecordingEventsChannel, recordingEventsChannel c),
      (env_name RecordingEventsStreamId, to_string (sint (recordingEventsStreamId c))),
      (env_name ControlTermBufferSparse, if controlTermBufferSparse c then ''1'' else ''0''),
      (env_name ControlTermBufferLength, to_string (sint (controlTermBufferLength c))),
      (env_name ControlMtuLength, to_string (sint (controlMtuLength c)))]"

definition default_configuration :: configuration where
  "default_configuration =
     \<lparr>messageTimeoutNs = 5000000000, controlChannel = ''aeron:udp?endpoint=localhost:8010'',
      controlStreamId = 10, localControlChannel = ''aeron:ipc'', localControlStreamId = 11,
      controlResponseChannel = ''aeron:udp?endpoint=localhost:8020'', controlResponseStreamId = 20,
      recordingEventsChannel = ''aeron:udp?endpoint=localhost:8030'', recordingEventsStreamId = 30,
      controlTermBufferSparse = True, controlTermBufferLength = 65536, controlMtuLength = 1408\<rparr>"

section \<open>Properties\<close>

text \<open>
  C38: a configuration written out as a property file, one \<^verbatim>\<open>key=value\<close> line for each of the
  twelve properties, is read back unchanged by the file constructor, for every value of the
  integers and the boolean and every channel text that a property file can hold.
\<close>

theorem configuration_file_roundtrip:
  assumes "lexical_ok L"
    and "value_ok (controlChannel c)" and "value_ok (localControlChannel c)"
    and "value_ok (controlResponseChannel c)" and "value_ok (recordingEventsChannel c)"
  shows "Configuration_file L filename (Some (config_text c)) = Inr c"
  using read_plain_file [OF config_bindings_plain [OF assms(2-5)], of filename]
    Configuration_of_bindings [OF assms(1)]
  by (simp add: Configuration_file_def config_text_def)

theorem configuration_file_roundtrip_witness:
  "Configuration_file decimal_casts ''archive.properties''
     (Some (config_text (default_configuration\<lparr>messageTimeoutNs := 2000000000\<rparr>))) =
   Inr (default_configuration\<lparr>messageTimeoutNs := 2000000000\<rparr>)"
proof (rule configuration_file_roundtrip)
  show "lexical_ok decimal_casts" by (rule decimal_casts_ok)
qed (simp_all add: default_configuration_def value_ok_def trim_def ltrim_def rtrim_def isspace_def)

text \<open>
  the default constructor takes each field from its own environment variable: setting all
  twelve variables gives exactly those values, and with none set the fields are the documented
  defaults.
\<close>

theorem configuration_env_reads:
  "(lexical_ok L \<longrightarrow> Configuration_env L (config_env c) = Inr c) \<and>
   Configuration_env L (\<lambda>_. None) = Inr default_configuration"
proof
  show "lexical_ok L \<longrightarrow> Configuration_env L (config_env c) = Inr c"
    by (cases "controlTermBufferSparse c")
      (simp_all add: Configuration_env_def config_env_def getEnvVarOrDefault_def property_defs
        lexical_ok_def)
  show "Configuration_env L (\<lambda>_. None) = Inr default_configuration"
    by (simp add: Configuration_env_def getEnvVarOrDefault_def property_defs
        default_configuration_def)
qed

theorem configuration_env_reads_witness:
  "Configuration_env decimal_casts (config_env (default_configuration\<lparr>controlMtuLength := - 1\<rparr>)) =
   Inr (default_configuration\<lparr>controlMtuLength := - 1\<rparr>)"
  using configuration_env_reads decimal_casts_ok by blast

text \<open>
  the two sources of the boolean disagree. The text \<^verbatim>\<open>true\<close>, the documented default, is
  accepted in a property file, but in the environment variable it makes the constructor throw
  whenever \<^verbatim>\<open>lexical_cast\<close> rejects the word, as it is documented to.
\<close>

theorem sparse_word_rejected_in_environment:
  assumes "lc_bool L ''true'' = None"
  shows "Configuration_env L [''AERON_ARCHIVE_CONTROL_TERM_BUFFER_SPARSE'' \<mapsto> ''true''] = Inl BadLexicalCast
       \<and> (\<exists>c. Configuration_file L f (Some ''aeron.archive.control.term.buffer.sparse=true'') = Inr c
              \<and> controlTermBufferSparse c)"
proof
  show "Configuration_env L [''AERON_ARCHIVE_CONTROL_TERM_BUFFER_SPARSE'' \<mapsto> ''true''] = Inl BadLexicalCast"
    using assms by (simp add: Configuration_env_def getEnvVarOrDefault_def property_defs)
  have "mk_PropertiesReader f (Some ''aeron.archive.control.term.buffer.sparse=true'') True =
      Inr (emplace Map.empty (''aeron.archive.control.term.buffer.sparse'', ''true''))"
  proof -
    have "getlines ''aeron.archive.control.term.buffer.sparse=true'' =
        [''aeron.archive.control.term.buffer.sparse=true'']"
      by (simp add: getlines.simps)
    moreover have "parseLine ''aeron.archive.control.term.buffer.sparse=true'' =
        Inr (''aeron.archive.control.term.buffer.sparse'', ''true'')"
      by code_simp
    ultimately show ?thesis by (simp add: mk_PropertiesReader_def)
  qed
  then show "\<exists>c. Configuration_file L f (Some ''aeron.archive.control.term.buffer.sparse=true'') = Inr c
       \<and> controlTermBufferSparse c"
    using parse_value_bool_words [of True]
    by (simp add: Configuration_file_def Configuration_of_properties_def get_or_default_def
        get_property_or_def property_defs emplace_def)
qed

theorem sparse_word_rejected_in_environment_witness:
  "lc_bool decimal_casts ''true'' = None \<and>
   Configuration_env decimal_casts [''AERON_ARCHIVE_CONTROL_TERM_BUFFER_SPARSE'' \<mapsto> ''true''] =
     Inl BadLexicalCast"
proof -
  have "lc_bool decimal_casts ''true'' = None" by (simp add: decimal_casts_def)
  then show ?thesis using sparse_word_rejected_in_environment by blast
qed

end
