(* ===== verification/UnorderedMap.thy ===== *)
theory UnorderedMap
  imports Prelude
begin

text \<open>
  \<^verbatim>\<open>std::unordered_map\<close> with string keys, as far as the code uses it: \<open>find\<close>,
  assignment through \<open>operator[]\<close>, and iteration. A map is the list of its entries in
  iteration order. The standard leaves that order open and lets an insertion rehash, so an
  insertion puts the entries in an order chosen by an arbitrary function, the
  \<open>layout\<close>, from the old contents and the new key; every theorem holds for every
  layout. The locale \<open>dictionary\<close> is the interface the clients rely on.
\<close>

section \<open>The container\<close>

fun insert_at :: "nat \<Rightarrow> 'a \<Rightarrow> 'a list \<Rightarrow> 'a list" where
  "insert_at 0 x xs = x # xs"
| "insert_at (Suc n) x [] = [x]"
| "insert_at (Suc n) x (y # ys) = y # insert_at n x ys"

text \<open>Every order of the entries is \<open>arrange f\<close> for some choice of positions \<open>f\<close>.\<close>

fun arrange :: "(nat \<Rightarrow> nat) \<Rightarrow> 'a list \<Rightarrow> 'a list" where
  "arrange f [] = []"
| "arrange f (x # xs) = insert_at (f (length xs)) x (arrange f xs)"

type_synonym params_map = "(string \<times> string) list"
type_synonym layout = "params_map \<Rightarrow> string \<Rightarrow> nat \<Rightarrow> nat"

definition umap_find :: "params_map \<Rightarrow> string \<Rightarrow> string option" where
  "umap_find m k = map_of m k"

definition umap_assign :: "layout \<Rightarrow> params_map \<Rightarrow> string \<Rightarrow> string \<Rightarrow> params_map" where
  "umap_assign lay m k v =
     (if k \<in> fst ` set m then map (\<lambda>(k', v'). (k', if k' = k then v else v')) m
      else arrange (lay m k) ((k, v) # m))"

definition umap_ok :: "params_map \<Rightarrow> bool" where
  "umap_ok m \<longleftrightarrow> distinct (map fst m)"

lemma set_insert_at [simp]: "set (insert_at n x xs) = insert x (set xs)"
  by (induction n x xs rule: insert_at.induct) auto

lemma set_arrange [simp]: "set (arrange f xs) = set xs"
  by (induction xs) auto

lemma length_insert_at [simp]: "length (insert_at n x xs) = Suc (length xs)"
  by (induction n x xs rule: insert_at.induct) auto

lemma length_arrange [simp]: "length (arrange f xs) = length xs"
  by (induction xs) auto

lemma map_insert_at: "map g (insert_at n x xs) = insert_at n (g x) (map g xs)"
  by (induction n x xs rule: insert_at.induct) auto

lemma distinct_insert_at [simp]: "distinct (insert_at n x xs) \<longleftrightarrow> x \<notin> set xs \<and> distinct xs"
  by (induction n x xs rule: insert_at.induct) auto

lemma distinct_fst_arrange: "distinct (map fst (arrange f xs)) \<longleftrightarrow> distinct (map fst xs)"
  by (induction xs) (auto simp: map_insert_at)

lemma map_of_arrange:
  assumes "distinct (map fst xs)"
  shows "map_of (arrange f xs) = map_of xs"
  using assms by (simp add: map_of_inject_set distinct_fst_arrange)

lemma umap_ok_Nil [simp]: "umap_ok []"
  by (simp add: umap_ok_def)

lemma keys_overwrite: "map fst (map (\<lambda>(k', v'). (k', if k' = k then v else v')) m) = map fst m"
  by (induction m) auto

lemma map_of_overwrite:
  "map_of (map (\<lambda>(k', v'). (k', if k' = k then v else v')) m) x =
     (if x = k then map_option (\<lambda>_. v) (map_of m k) else map_of m x)"
  by (induction m) auto

lemma umap_ok_assign: "umap_ok m \<Longrightarrow> umap_ok (umap_assign lay m k v)"
  unfolding umap_ok_def umap_assign_def
  by (auto simp only: keys_overwrite distinct_fst_arrange list.map distinct.simps fst_conv
      list.set_map split: if_splits)

lemma umap_find_assign:
  assumes "umap_ok m"
  shows "umap_find (umap_assign lay m k v) = (umap_find m)(k \<mapsto> v)"
proof (cases "k \<in> fst ` set m")
  case True
  then obtain w where "map_of m k = Some w"
    by (metis map_of_eq_None_iff not_None_eq)
  with True show ?thesis
    by (simp add: umap_assign_def umap_find_def [abs_def] map_of_overwrite fun_eq_iff)
next
  case False
  then show ?thesis
    using assms map_of_arrange [of "(k, v) # m" "lay m k"]
    by (simp add: umap_assign_def umap_find_def [abs_def] umap_ok_def fun_eq_iff)
qed

lemma set_umap_assign:
  "set (umap_assign lay m k v) \<subseteq> insert (k, v) (set m)"
  by (auto simp: umap_assign_def split: if_splits)

section \<open>The interface of a dictionary\<close>

text \<open>
  What the URI code relies on: a lookup after an assignment, the invariant, and that
  iteration visits exactly the bindings, each key once.
\<close>

locale dictionary =
  fixes find :: "'m \<Rightarrow> 'k \<Rightarrow> 'v option"
    and assign :: "'m \<Rightarrow> 'k \<Rightarrow> 'v \<Rightarrow> 'm"
    and entries :: "'m \<Rightarrow> ('k \<times> 'v) list"
    and invar :: "'m \<Rightarrow> bool"
  assumes find_assign: "invar m \<Longrightarrow> find (assign m k v) = (find m)(k \<mapsto> v)"
    and invar_assign: "invar m \<Longrightarrow> invar (assign m k v)"
    and find_entries: "invar m \<Longrightarrow> find m = map_of (entries m)"
    and distinct_entries: "invar m \<Longrightarrow> distinct (map fst (entries m))"
begin

lemma invar_assign_all: "invar m \<Longrightarrow> invar (foldl (\<lambda>d (k, v). assign d k v) m kvs)"
  by (induction kvs arbitrary: m) (auto simp: invar_assign)

lemma find_assign_all:
  "invar m \<Longrightarrow> find (foldl (\<lambda>d (k, v). assign d k v) m kvs) = find m ++ map_of (rev kvs)"
proof (induction kvs arbitrary: m)
  case Nil
  then show ?case by simp
next
  case (Cons kv kvs)
  obtain k v where kv: "kv = (k, v)" by (cases kv)
  from Cons show ?case
    by (simp add: kv find_assign invar_assign map_add_upd_left [symmetric] fun_eq_iff
        map_add_def split: option.split)
qed

text \<open>Assigning the entries of one map to an empty one rebuilds its bindings.\<close>

lemma find_reload:
  assumes "invar m" and "invar e" and "find e = Map.empty"
  shows "find (foldl (\<lambda>d (k, v). assign d k v) e (entries m)) = find m"
proof -
  have "map_of (rev (entries m)) = map_of (entries m)"
    by (rule map_of_inject_set [THEN iffD2])
      (simp_all add: distinct_entries [OF assms(1)] rev_map [symmetric] del: rev_map)
  then show ?thesis
    using assms by (simp add: find_assign_all find_entries [of m])
qed

end

interpretation umap: dictionary umap_find "umap_assign lay" "\<lambda>m. m" umap_ok for lay
  by unfold_locales
    (auto simp: umap_find_assign umap_ok_assign fun_eq_iff umap_find_def
      intro: umap_ok_def [THEN iffD1])

end
