(* ===== verification/ChannelUri.thy ===== *)
theory ChannelUri
  imports UnorderedMap
begin

text \<open>
  Channel URIs (\<^verbatim>\<open>src/ChannelUri.cpp\<close>): the parser as the character-by-character
  state machine of the source, the printer, the accessors and \<open>addSessionId\<close>. The
  parser is proved equal to a grammar that splits the text at its separators, printing and
  parsing are inverse up to the order of the parameters, and \<open>put\<close> refines the update
  of a finite map.
\<close>

section \<open>The model\<close>

definition SPY_PREFIX :: string where "SPY_PREFIX = ''aeron-spy:''"
definition SPY_QUALIFIER :: string where "SPY_QUALIFIER = ''aeron-spy''"
definition AERON_SCHEME :: string where "AERON_SCHEME = ''aeron''"
definition AERON_PREFIX :: string where "AERON_PREFIX = AERON_SCHEME @ '':''"
definition SESSION_ID_PARAM_NAME :: string where "SESSION_ID_PARAM_NAME = ''session-id''"

text \<open>The static member of the class hides the constant of the same name in its methods.\<close>

definition ChannelUri_AERON_SCHEME :: string where "ChannelUri_AERON_SCHEME = ''aeron''"

lemmas uri_constants = SPY_PREFIX_def SPY_QUALIFIER_def AERON_SCHEME_def AERON_PREFIX_def
  SESSION_ID_PARAM_NAME_def

datatype State = MEDIA | PARAMS_KEY | PARAMS_VALUE

fun state_int :: "State \<Rightarrow> int" where
  "state_int MEDIA = 0"
| "state_int PARAMS_KEY = 1"
| "state_int PARAMS_VALUE = 2"

definition startsWith :: "string \<Rightarrow> nat \<Rightarrow> string \<Rightarrow> bool" where
  "startsWith input position pre =
     (if length input < position + length pre then False
      else pre = take (length pre) (drop position input))"

record channel_uri =
  uri_prefix :: string
  uri_media :: string
  uri_params :: params_map
  uri_tags :: "string list"

definition mk_uri :: "string \<Rightarrow> string \<Rightarrow> params_map \<Rightarrow> channel_uri" where
  "mk_uri pre med ps = \<lparr>uri_prefix = pre, uri_media = med, uri_params = ps, uri_tags = []\<rparr>"

definition scheme :: "channel_uri \<Rightarrow> string" where
  "scheme u = ChannelUri_AERON_SCHEME"

definition get_prefix :: "channel_uri \<Rightarrow> string" where
  "get_prefix u = uri_prefix u"

definition get_media :: "channel_uri \<Rightarrow> string" where
  "get_media u = uri_media u"

definition put :: "layout \<Rightarrow> channel_uri \<Rightarrow> string \<Rightarrow> string \<Rightarrow> channel_uri" where
  "put lay u key val = u\<lparr>uri_params := umap_assign lay (uri_params u) key val\<rparr>"

definition get :: "channel_uri \<Rightarrow> string \<Rightarrow> string option" where
  "get u key = (case umap_find (uri_params u) key of None \<Rightarrow> None | Some v \<Rightarrow> Some v)"

definition get_default :: "channel_uri \<Rightarrow> string \<Rightarrow> string \<Rightarrow> string option" where
  "get_default u key defaultValue =
     (case umap_find (uri_params u) key of None \<Rightarrow> Some defaultValue | Some v \<Rightarrow> Some v)"

text \<open>The loop over the parameters; \<open>ps\<close> counts down to know which one is the last.\<close>

fun print_params :: "nat \<Rightarrow> params_map \<Rightarrow> string" where
  "print_params ps [] = []"
| "print_params ps ((k, v) # m) =
     k @ ''='' @ v @ (if ps - 1 \<noteq> 0 then ''|'' else '''') @ print_params (ps - 1) m"

definition toString :: "channel_uri \<Rightarrow> string" where
  "toString u =
     (if uri_prefix u \<noteq> [] then
        uri_prefix u @ (if last (uri_prefix u) \<noteq> CHR '':'' then '':'' else '''')
      else [])
     @ AERON_PREFIX @ uri_media u
     @ (if uri_params u \<noteq> [] then ''?'' @ print_params (length (uri_params u)) (uri_params u)
        else [])"

text \<open>The local variables of \<open>parse\<close> and one iteration of its loop.\<close>

record parse_state =
  ps_state :: State
  ps_buffer :: string
  ps_media :: string
  ps_key :: string
  ps_params :: params_map

definition parse_step :: "layout \<Rightarrow> parse_state \<Rightarrow> char \<Rightarrow> parse_state result" where
  "parse_step lay s c =
     (case ps_state s of
        MEDIA \<Rightarrow>
          if c = CHR ''?'' then
            Inr (s\<lparr>ps_media := ps_buffer s, ps_buffer := [], ps_state := PARAMS_KEY\<rparr>)
          else if c = CHR '':'' then
            Inl (IllegalArgumentException ''encountered ':' within media definition'')
          else Inr (s\<lparr>ps_buffer := ps_buffer s @ [c]\<rparr>)
      | PARAMS_KEY \<Rightarrow>
          if c = CHR ''='' then
            Inr (s\<lparr>ps_key := ps_buffer s, ps_buffer := [], ps_state := PARAMS_VALUE\<rparr>)
          else Inr (s\<lparr>ps_buffer := ps_buffer s @ [c]\<rparr>)
      | PARAMS_VALUE \<Rightarrow>
          if c = CHR ''|'' then
            Inr (s\<lparr>ps_params := umap_assign lay (ps_params s) (ps_key s) (ps_buffer s),
                   ps_buffer := [], ps_state := PARAMS_KEY\<rparr>)
          else Inr (s\<lparr>ps_buffer := ps_buffer s @ [c]\<rparr>))"

fun parse_loop :: "layout \<Rightarrow> parse_state \<Rightarrow> string \<Rightarrow> parse_state result" where
  "parse_loop lay s [] = Inr s"
| "parse_loop lay s (c # cs) =
     (case parse_step lay s c of Inl e \<Rightarrow> Inl e | Inr s' \<Rightarrow> parse_loop lay s' cs)"

text \<open>The switch after the loop.\<close>

definition parse_finish :: "layout \<Rightarrow> parse_state \<Rightarrow> (string \<times> params_map) result" where
  "parse_finish lay s =
     (case ps_state s of
        MEDIA \<Rightarrow> Inr (ps_buffer s, ps_params s)
      | PARAMS_VALUE \<Rightarrow>
          Inr (ps_media s, umap_assign lay (ps_params s) (ps_key s) (ps_buffer s))
      | PARAMS_KEY \<Rightarrow>
          Inl (IllegalArgumentException
                 (''no more input found, state='' @ to_string (state_int (ps_state s)))))"

definition parse_init :: parse_state where
  "parse_init = \<lparr>ps_state = MEDIA, ps_buffer = [], ps_media = [], ps_key = [], ps_params = []\<rparr>"

definition parse :: "layout \<Rightarrow> string \<Rightarrow> channel_uri result" where
  "parse lay str =
     (let spy = startsWith str 0 SPY_PREFIX;
          pre = (if spy then SPY_QUALIFIER else []);
          position = (if spy then length SPY_PREFIX else 0)
      in if \<not> startsWith str position AERON_PREFIX then
           Inl (IllegalArgumentException
                  (''Aeron URIs must start with 'aeron:', found: '' @ [CHR 0x27] @ str @ [CHR 0x27]))
         else
           case parse_loop lay parse_init (drop (position + length AERON_PREFIX) str) of
             Inl e \<Rightarrow> Inl e
           | Inr s \<Rightarrow>
               (case parse_finish lay s of
                  Inl e \<Rightarrow> Inl e
                | Inr (med, ps) \<Rightarrow> Inr (mk_uri pre med ps)))"

definition addSessionId :: "layout \<Rightarrow> string \<Rightarrow> int32 \<Rightarrow> string result" where
  "addSessionId lay channel sessionId =
     (case parse lay channel of
        Inl e \<Rightarrow> Inl e
      | Inr u \<Rightarrow> Inr (toString (put lay u SESSION_ID_PARAM_NAME (to_string (sint sessionId)))))"

section \<open>Well-formed URIs, and the grammar\<close>

text \<open>What a printed URI must satisfy to be read back: the separators do not occur inside.\<close>

definition uri_ok :: "channel_uri \<Rightarrow> bool" where
  "uri_ok u \<longleftrightarrow>
     uri_prefix u \<in> {[], SPY_QUALIFIER} \<and>
     CHR ''?'' \<notin> set (uri_media u) \<and> CHR '':'' \<notin> set (uri_media u) \<and>
     umap_ok (uri_params u) \<and>
     (\<forall>(k, v) \<in> set (uri_params u). CHR ''='' \<notin> set k \<and> CHR ''|'' \<notin> set v)"

text \<open>The bindings of a URI: what it means, apart from the order of its parameters.\<close>

definition uri_equiv :: "channel_uri \<Rightarrow> channel_uri \<Rightarrow> bool" where
  "uri_equiv u w \<longleftrightarrow>
     uri_prefix u = uri_prefix w \<and> uri_media u = uri_media w \<and>
     umap_find (uri_params u) = umap_find (uri_params w)"

text \<open>
  The grammar, with no state machine: the media ends at the first \<open>?\<close>, a key at the next
  \<open>=\<close>, a value at the next \<open>|\<close> after that.
\<close>

function split_params :: "string \<Rightarrow> (string \<times> string) list option" where
  "split_params t =
     (let k = takeWhile (\<lambda>c. c \<noteq> CHR ''='') t;
          r = dropWhile (\<lambda>c. c \<noteq> CHR ''='') t
      in case r of
           [] \<Rightarrow> None
         | _ # r' \<Rightarrow>
             (let v = takeWhile (\<lambda>c. c \<noteq> CHR ''|'') r';
                  q = dropWhile (\<lambda>c. c \<noteq> CHR ''|'') r'
              in case q of
                   [] \<Rightarrow> Some [(k, v)]
                 | _ # q' \<Rightarrow> map_option ((#) (k, v)) (split_params q')))"
  by pat_completeness auto
termination
  by (relation "measure length") (auto dest!: dropWhile_Cons_shorter [OF sym])

declare split_params.simps [simp del]

definition grammar_body :: "string \<Rightarrow> (string \<times> (string \<times> string) list) option" where
  "grammar_body body =
     (let med = takeWhile (\<lambda>c. c \<noteq> CHR ''?'') body
      in if CHR '':'' \<in> set med then None
         else case dropWhile (\<lambda>c. c \<noteq> CHR ''?'') body of
                [] \<Rightarrow> Some (med, [])
              | _ # q \<Rightarrow> map_option (Pair med) (split_params q))"

definition grammar :: "string \<Rightarrow> (string \<times> string \<times> (string \<times> string) list) option" where
  "grammar str =
     (let spy = (take (length SPY_PREFIX) str = SPY_PREFIX);
          pre = (if spy then SPY_QUALIFIER else []);
          rest = (if spy then drop (length SPY_PREFIX) str else str)
      in if take (length AERON_PREFIX) rest \<noteq> AERON_PREFIX then None
         else map_option (Pair pre) (grammar_body (drop (length AERON_PREFIX) rest)))"

text \<open>Assigning a list of bindings in order: the last one for a key wins.\<close>

abbreviation assign_all :: "layout \<Rightarrow> params_map \<Rightarrow> (string \<times> string) list \<Rightarrow> params_map" where
  "assign_all lay \<equiv> foldl (\<lambda>m (k, v). umap_assign lay m k v)"

section \<open>The state machine runs over whole fields\<close>

lemma parse_loop_append:
  "parse_loop lay s (xs @ ys) =
     (case parse_loop lay s xs of Inl e \<Rightarrow> Inl e | Inr s' \<Rightarrow> parse_loop lay s' ys)"
  by (induction xs arbitrary: s) (auto split: sum.splits)

lemma loop_media:
  assumes "ps_state s = MEDIA" and "CHR ''?'' \<notin> set t"
  shows "parse_loop lay s t =
     (if CHR '':'' \<in> set t then
        Inl (IllegalArgumentException ''encountered ':' within media definition'')
      else Inr (s\<lparr>ps_buffer := ps_buffer s @ t\<rparr>))"
  using assms by (induction t arbitrary: s) (auto simp: parse_step_def)

lemma loop_key:
  assumes "ps_state s = PARAMS_KEY" and "CHR ''='' \<notin> set t"
  shows "parse_loop lay s t = Inr (s\<lparr>ps_buffer := ps_buffer s @ t\<rparr>)"
  using assms by (induction t arbitrary: s) (auto simp: parse_step_def)

lemma loop_value:
  assumes "ps_state s = PARAMS_VALUE" and "CHR ''|'' \<notin> set t"
  shows "parse_loop lay s t = Inr (s\<lparr>ps_buffer := ps_buffer s @ t\<rparr>)"
  using assms by (induction t arbitrary: s) (auto simp: parse_step_def)

text \<open>The loop and the switch after it, from a given state.\<close>

definition run :: "layout \<Rightarrow> parse_state \<Rightarrow> string \<Rightarrow> (string \<times> params_map) result" where
  "run lay s t = (case parse_loop lay s t of Inl e \<Rightarrow> Inl e | Inr s' \<Rightarrow> parse_finish lay s')"

lemma run_append:
  "run lay s (xs @ ys) =
     (case parse_loop lay s xs of Inl e \<Rightarrow> Inl e | Inr s' \<Rightarrow> run lay s' ys)"
  by (simp add: run_def parse_loop_append split: sum.split)

lemma run_Cons:
  "run lay s (c # cs) =
     (case parse_step lay s c of Inl e \<Rightarrow> Inl e | Inr s' \<Rightarrow> run lay s' cs)"
  by (simp add: run_def split: sum.split)

lemma run_Nil: "run lay s [] = parse_finish lay s"
  by (simp add: run_def)

lemma drop_while_split:
  assumes "dropWhile (\<lambda>c. c \<noteq> x) t = y # q"
  shows "y = x" and "t = takeWhile (\<lambda>c. c \<noteq> x) t @ x # q"
proof -
  show y: "y = x" using hd_dropWhile [of "\<lambda>c. c \<noteq> x" t] assms by simp
  show "t = takeWhile (\<lambda>c. c \<noteq> x) t @ x # q"
    using takeWhile_dropWhile_id [of "\<lambda>c. c \<noteq> x" t] assms y by simp
qed

lemma drop_while_none:
  assumes "dropWhile (\<lambda>c. c \<noteq> x) t = []"
  shows "takeWhile (\<lambda>c. c \<noteq> x) t = t" and "x \<notin> set t"
  using assms by (auto simp: dropWhile_eq_Nil_conv takeWhile_eq_all_conv)

text \<open>From the start of a key, the machine reads the parameters the grammar reads.\<close>

lemma run_params:
  assumes "ps_state s = PARAMS_KEY" and "ps_buffer s = []"
  shows "case split_params t of
           Some kvs \<Rightarrow> run lay s t = Inr (ps_media s, assign_all lay (ps_params s) kvs)
         | None \<Rightarrow> run lay s t = Inl (IllegalArgumentException ''no more input found, state=1'')"
  using assms
proof (induction t arbitrary: s rule: split_params.induct)
  case (1 t)
  let ?k = "takeWhile (\<lambda>c. c \<noteq> CHR ''='') t"
  show ?case
  proof (cases "dropWhile (\<lambda>c. c \<noteq> CHR ''='') t")
    case Nil
    have "split_params t = None"
      by (subst split_params.simps) (simp add: Nil)
    moreover have "run lay s t = Inl (IllegalArgumentException ''no more input found, state=1'')"
      using "1.prems" drop_while_none [OF Nil]
      by (simp add: run_def loop_key parse_finish_def)
    ultimately show ?thesis by simp
  next
    case at: (Cons y r')
    let ?v = "takeWhile (\<lambda>c. c \<noteq> CHR ''|'') r'"
    let ?s1 = "s\<lparr>ps_key := ?k, ps_buffer := [], ps_state := PARAMS_VALUE\<rparr>"
    note t = drop_while_split [OF at]
    have run: "run lay s t = run lay ?s1 r'"
      using "1.prems"
      by (subst t(2)) (simp add: run_append run_Cons loop_key not_in_takeWhile parse_step_def)
    show ?thesis
    proof (cases "dropWhile (\<lambda>c. c \<noteq> CHR ''|'') r'")
      case Nil
      have "split_params t = Some [(?k, r')]"
        by (subst split_params.simps) (simp add: at Nil drop_while_none(1) [OF Nil])
      moreover have "run lay ?s1 r' = Inr (ps_media s, umap_assign lay (ps_params s) ?k r')"
        using "1.prems" drop_while_none [OF Nil] by (simp add: run_def loop_value parse_finish_def)
      ultimately show ?thesis by (simp add: run)
    next
      case (Cons z q')
      note r = drop_while_split [OF Cons]
      let ?s2 = "s\<lparr>ps_key := ?k, ps_params := umap_assign lay (ps_params s) ?k ?v,
               ps_buffer := [], ps_state := PARAMS_KEY\<rparr>"
      have "split_params t = map_option ((#) (?k, ?v)) (split_params q')"
        by (subst split_params.simps) (simp add: Cons at)
      moreover have "run lay ?s1 r' = run lay ?s2 q'"
        using "1.prems"
        by (subst r(2)) (simp add: run_append run_Cons loop_value not_in_takeWhile parse_step_def)
      moreover have "case split_params q' of
           Some kvs \<Rightarrow> run lay ?s2 q' = Inr (ps_media ?s2, assign_all lay (ps_params ?s2) kvs)
         | None \<Rightarrow> run lay ?s2 q' = Inl (IllegalArgumentException ''no more input found, state=1'')"
        using "1.IH" [OF refl refl at refl refl Cons, of ?s2] "1.prems" by simp
      ultimately show ?thesis by (auto simp: run split: option.splits)
    qed
  qed
qed

text \<open>From the start, the machine reads what the grammar reads.\<close>

lemma run_init:
  "case dropWhile (\<lambda>c. c \<noteq> CHR ''?'') t of
     [] \<Rightarrow> run lay parse_init t =
       (if CHR '':'' \<in> set t then
          Inl (IllegalArgumentException ''encountered ':' within media definition'')
        else Inr (t, []))
   | _ # q \<Rightarrow> run lay parse_init t =
       (if CHR '':'' \<in> set (takeWhile (\<lambda>c. c \<noteq> CHR ''?'') t) then
          Inl (IllegalArgumentException ''encountered ':' within media definition'')
        else run lay (parse_init\<lparr>ps_media := takeWhile (\<lambda>c. c \<noteq> CHR ''?'') t,
                                ps_state := PARAMS_KEY\<rparr>) q)"
proof (cases "dropWhile (\<lambda>c. c \<noteq> CHR ''?'') t")
  case at: Nil
  show ?thesis
    using drop_while_none(2) [OF at]
    by (simp add: at run_def loop_media parse_finish_def parse_init_def)
next
  case at: (Cons y q)
  note t = drop_while_split [OF at]
  have "run lay parse_init (takeWhile (\<lambda>c. c \<noteq> CHR ''?'') t @ CHR ''?'' # q) =
     (if CHR '':'' \<in> set (takeWhile (\<lambda>c. c \<noteq> CHR ''?'') t) then
          Inl (IllegalArgumentException ''encountered ':' within media definition'')
        else run lay (parse_init\<lparr>ps_media := takeWhile (\<lambda>c. c \<noteq> CHR ''?'') t,
                                ps_state := PARAMS_KEY\<rparr>) q)"
    by (simp add: run_append run_Cons loop_media not_in_takeWhile parse_step_def parse_init_def)
  then show ?thesis
    by (simp add: at t(2) [symmetric])
qed

lemma startsWith_take:
  assumes "pre \<noteq> []"
  shows "startsWith input position pre \<longleftrightarrow> take (length pre) (drop position input) = pre"
proof
  assume "startsWith input position pre"
  then show "take (length pre) (drop position input) = pre"
    by (auto simp: startsWith_def split: if_splits)
next
  assume eq: "take (length pre) (drop position input) = pre"
  then have "length pre \<le> length input - position"
    by (metis length_drop length_take min.cobounded1 min.commute)
  moreover have "0 < length pre"
    using assms by simp
  ultimately have "position + length pre \<le> length input"
    by linarith
  then show "startsWith input position pre"
    using eq by (simp add: startsWith_def)
qed

lemma parse_run:
  "parse lay str =
     (let spy = (take (length SPY_PREFIX) str = SPY_PREFIX);
          pre = (if spy then SPY_QUALIFIER else []);
          rest = (if spy then drop (length SPY_PREFIX) str else str)
      in if take (length AERON_PREFIX) rest \<noteq> AERON_PREFIX then
           Inl (IllegalArgumentException
                  (''Aeron URIs must start with 'aeron:', found: '' @ [CHR 0x27] @ str @ [CHR 0x27]))
         else map_sum id (\<lambda>(med, ps). mk_uri pre med ps)
                (run lay parse_init (drop (length AERON_PREFIX) rest)))"
proof -
  have "SPY_PREFIX \<noteq> []" "AERON_PREFIX \<noteq> []" by (simp_all add: uri_constants)
  then show ?thesis
    unfolding parse_def Let_def run_def
    by (auto simp: startsWith_take add.commute split: sum.splits)
qed

lemma run_grammar:
  "case grammar_body body of
     Some (med, kvs) \<Rightarrow> run lay parse_init body = Inr (med, assign_all lay [] kvs)
   | None \<Rightarrow> (\<exists>msg. run lay parse_init body = Inl (IllegalArgumentException msg))"
proof (cases "dropWhile (\<lambda>c. c \<noteq> CHR ''?'') body")
  case at: Nil
  show ?thesis
    using run_init [where lay = lay and t = body]
    by (simp add: at drop_while_none(1) [OF at] grammar_body_def Let_def)
next
  case at: (Cons y q)
  let ?s = "parse_init\<lparr>ps_media := takeWhile (\<lambda>c. c \<noteq> CHR ''?'') body, ps_state := PARAMS_KEY\<rparr>"
  have "ps_state ?s = PARAMS_KEY" "ps_buffer ?s = []" by (simp_all add: parse_init_def)
  from run_params [OF this, where lay = lay and t = q] show ?thesis
    using run_init [where lay = lay and t = body]
    by (cases "split_params q") (auto simp: grammar_body_def Let_def at parse_init_def)
qed

text \<open>The parser decides the grammar: it accepts what the grammar accepts, and rejects the rest.\<close>

lemma parse_grammar:
  "case grammar str of
     Some (pre, med, kvs) \<Rightarrow> parse lay str = Inr (mk_uri pre med (assign_all lay [] kvs))
   | None \<Rightarrow> (\<exists>msg. parse lay str = Inl (IllegalArgumentException msg))"
proof -
  define rest where
    "rest = (if take (length SPY_PREFIX) str = SPY_PREFIX then drop (length SPY_PREFIX) str else str)"
  show ?thesis
    using run_grammar [where lay = lay and body = "drop (length AERON_PREFIX) rest"]
    unfolding parse_run grammar_def Let_def rest_def [symmetric]
    by (cases "grammar_body (drop (length AERON_PREFIX) rest)") auto
qed

section \<open>Printing\<close>

lemma split_params_print:
  assumes "m \<noteq> []" and "\<forall>(k, v) \<in> set m. CHR ''='' \<notin> set k \<and> CHR ''|'' \<notin> set v"
  shows "split_params (print_params (length m) m) = Some m"
  using assms
proof (induction m)
  case Nil
  then show ?case by simp
next
  case (Cons kv m)
  obtain k v where kv: "kv = (k, v)" by (cases kv)
  show ?case
  proof (cases "m = []")
    case True
    then show ?thesis
      using Cons.prems
      by (subst split_params.simps)
        (simp add: kv takeWhile_free dropWhile_free takeWhile_all dropWhile_all Let_def)
  next
    case False
    then show ?thesis
      using Cons
      by (subst split_params.simps)
        (simp add: kv takeWhile_free dropWhile_free Let_def)
  qed
qed

lemma grammar_body_print:
  assumes "uri_ok u"
  shows "grammar_body (uri_media u @ (if uri_params u \<noteq> [] then
      ''?'' @ print_params (length (uri_params u)) (uri_params u) else [])) =
    Some (uri_media u, uri_params u)"
  using assms
  by (simp add: uri_ok_def grammar_body_def Let_def takeWhile_free dropWhile_free takeWhile_all
      dropWhile_all split_params_print)

lemma grammar_toString:
  assumes "uri_ok u"
  shows "grammar (toString u) = Some (uri_prefix u, uri_media u, uri_params u)"
proof -
  define body where "body = uri_media u @ (if uri_params u \<noteq> [] then
      ''?'' @ print_params (length (uri_params u)) (uri_params u) else [])"
  have b: "grammar_body body = Some (uri_media u, uri_params u)"
    unfolding body_def by (rule grammar_body_print [OF assms])
  have t: "toString u = (if uri_prefix u \<noteq> [] then SPY_PREFIX else []) @ AERON_PREFIX @ body"
    using assms by (auto simp: toString_def uri_ok_def body_def uri_constants)
  show ?thesis
    using assms b unfolding t
    by (auto simp: grammar_def Let_def uri_ok_def uri_constants)
qed

lemma parse_toString:
  assumes "uri_ok u"
  shows "parse lay (toString u) =
    Inr (mk_uri (uri_prefix u) (uri_media u) (assign_all lay [] (uri_params u)))"
  using parse_grammar [where lay = lay and str = "toString u"] grammar_toString [OF assms] by simp

lemma uri_equiv_reload:
  assumes "umap_ok (uri_params u)"
  shows "uri_equiv (mk_uri (uri_prefix u) (uri_media u) (assign_all lay [] (uri_params u))) u"
  using umap.find_reload [OF assms umap_ok_Nil] 
  by (simp add: uri_equiv_def mk_uri_def umap_find_def [abs_def])

section \<open>What the parser produces\<close>

lemma split_params_ok:
  "split_params t = Some kvs \<Longrightarrow> (k, v) \<in> set kvs \<Longrightarrow> CHR ''='' \<notin> set k \<and> CHR ''|'' \<notin> set v"
proof (induction t arbitrary: kvs rule: split_params.induct)
  case (1 t)
  show ?case
  proof (cases "dropWhile (\<lambda>c. c \<noteq> CHR ''='') t")
    case Nil
    then show ?thesis
      using "1.prems" by (subst (asm) split_params.simps) (simp add: Nil)
  next
    case at: (Cons y r')
    show ?thesis
    proof (cases "dropWhile (\<lambda>c. c \<noteq> CHR ''|'') r'")
      case Nil
      then show ?thesis
        using "1.prems"
        by (subst (asm) split_params.simps) (auto simp: at Nil not_in_takeWhile)
    next
      case ar: (Cons z q')
      obtain kvs' where q: "split_params q' = Some kvs'"
          and kvs: "kvs = (takeWhile (\<lambda>c. c \<noteq> CHR ''='') t, takeWhile (\<lambda>c. c \<noteq> CHR ''|'') r') # kvs'"
        using "1.prems"(1) by (subst (asm) split_params.simps) (auto simp: at ar)
      show ?thesis
        using "1.IH" [OF refl refl at refl refl ar q] "1.prems"(2)
        by (auto simp: kvs not_in_takeWhile)
    qed
  qed
qed

lemma assign_all_entries: "set (assign_all lay m kvs) \<subseteq> set m \<union> set kvs"
proof (induction kvs arbitrary: m)
  case Nil
  then show ?case by simp
next
  case (Cons kv kvs)
  then show ?case
    using Cons [of "umap_assign lay m (fst kv) (snd kv)"] set_umap_assign [of lay m "fst kv" "snd kv"]
    by (auto simp: case_prod_beta)
qed

lemma grammar_SomeE:
  assumes "grammar str = Some (pre, med, kvs)"
  obtains body where "pre \<in> {[], SPY_QUALIFIER}" and "grammar_body body = Some (med, kvs)"
  using assms unfolding grammar_def Let_def
  by (cases "take (length SPY_PREFIX) str = SPY_PREFIX") (fastforce split: if_splits)+

lemma grammar_body_ok:
  assumes "grammar_body body = Some (med, kvs)"
  shows "CHR '':'' \<notin> set med" and "CHR ''?'' \<notin> set med"
    and "(k, v) \<in> set kvs \<Longrightarrow> CHR ''='' \<notin> set k \<and> CHR ''|'' \<notin> set v"
  using assms split_params_ok
  by (auto simp: grammar_body_def Let_def not_in_takeWhile split: if_splits list.splits)

lemma uri_ok_parse:
  assumes "parse lay str = Inr u"
  shows "uri_ok u"
proof -
  obtain pre med kvs where g: "grammar str = Some (pre, med, kvs)"
      and u: "u = mk_uri pre med (assign_all lay [] kvs)"
    using assms parse_grammar [where lay = lay and str = str]
    by (cases "grammar str") auto
  from g obtain body where "pre \<in> {[], SPY_QUALIFIER}" and b: "grammar_body body = Some (med, kvs)"
    by (rule grammar_SomeE)
  moreover have "umap_ok (assign_all lay [] kvs)"
    by (rule umap.invar_assign_all) simp
  moreover have "\<forall>(k, v) \<in> set (assign_all lay [] kvs). CHR ''='' \<notin> set k \<and> CHR ''|'' \<notin> set v"
    using assign_all_entries [of lay "[]" kvs] grammar_body_ok(3) [OF b] by fastforce
  ultimately show ?thesis
    using grammar_body_ok(1,2) [OF b] by (simp add: u uri_ok_def mk_uri_def)
qed

lemma uri_ok_put:
  assumes "uri_ok u" and "CHR ''='' \<notin> set key" and "CHR ''|'' \<notin> set val"
  shows "uri_ok (put lay u key val)"
  using assms set_umap_assign [of lay "uri_params u" key val]
  by (auto simp: uri_ok_def put_def umap_ok_assign)

lemma get_find: "get u key = umap_find (uri_params u) key"
  by (simp add: get_def split: option.split)

lemma get_put:
  assumes "uri_ok u"
  shows "get (put lay u key val) = (get u)(key \<mapsto> val)"
  using assms by (simp add: fun_eq_iff get_find put_def uri_ok_def umap_find_assign)

lemma get_equiv: "uri_equiv u w \<Longrightarrow> get u = get w"
  by (simp add: uri_equiv_def fun_eq_iff get_find)

text \<open>A printed URI reads back as a URI with the same prefix, media and bindings.\<close>

lemma toString_reads_back:
  assumes "uri_ok u"
  shows "\<exists>w. parse lay (toString u) = Inr w \<and> uri_equiv w u \<and> uri_ok w"
proof -
  have "umap_ok (uri_params u)"
    using assms by (simp add: uri_ok_def)
  then show ?thesis
    using parse_toString [OF assms, of lay] uri_equiv_reload uri_ok_parse by blast
qed

text \<open>
  Two parameter insertions the client makes: the key is a fixed word, the value a decimal
  number, so that the result stays printable.
\<close>

lemma to_string_no_bar [simp]: "CHR ''|'' \<notin> set (to_string i)"
  by (rule to_string_free) (simp_all add: is_digit_def)

lemma addSessionId_parsed:
  assumes "parse lay channel = Inr u"
  shows "addSessionId lay channel sid =
           Inr (toString (put lay u SESSION_ID_PARAM_NAME (to_string (sint sid))))"
    and "uri_ok (put lay u SESSION_ID_PARAM_NAME (to_string (sint sid)))"
  using assms uri_ok_parse [OF assms]
  by (auto simp: addSessionId_def SESSION_ID_PARAM_NAME_def intro!: uri_ok_put)

lemma addSessionId_reads:
  assumes "parse lay channel = Inr u"
  shows "\<exists>text w. addSessionId lay channel sid = Inr text \<and> parse lay text = Inr w \<and>
           uri_prefix w = uri_prefix u \<and> uri_media w = uri_media u \<and>
           get w = (get u)(''session-id'' \<mapsto> to_string (sint sid))"
proof -
  let ?p = "put lay u SESSION_ID_PARAM_NAME (to_string (sint sid))"
  obtain w where "parse lay (toString ?p) = Inr w" "uri_equiv w ?p"
    using toString_reads_back [OF addSessionId_parsed(2) [OF assms]] by blast
  moreover have "get ?p = (get u)(''session-id'' \<mapsto> to_string (sint sid))"
    by (simp add: get_put [OF uri_ok_parse [OF assms]] SESSION_ID_PARAM_NAME_def)
  ultimately show ?thesis
    using addSessionId_parsed(1) [OF assms] get_equiv [of w ?p]
    by (simp add: uri_equiv_def put_def)
qed

lemma parse_by_grammar:
  "case grammar str of
     Some (pre, med, kvs) \<Rightarrow>
       (\<exists>u. parse lay str = Inr u \<and> uri_prefix u = pre \<and> uri_media u = med \<and>
            get u = map_of (rev kvs))
   | None \<Rightarrow> (\<exists>msg. parse lay str = Inl (IllegalArgumentException msg))"
proof (cases "grammar str")
  case None
  then show ?thesis using parse_grammar [where lay = lay and str = str] by simp
next
  case (Some x)
  obtain pre med kvs where x: "x = (pre, med, kvs)" by (cases x)
  have "umap_find (assign_all lay [] kvs) = map_of (rev kvs)"
    using umap.find_assign_all [OF umap_ok_Nil, of lay kvs] by (simp add: umap_find_def [abs_def])
  then show ?thesis
    using Some parse_grammar [where lay = lay and str = str]
    by (simp add: x mk_uri_def get_find [abs_def] fun_eq_iff)
qed

section \<open>Properties\<close>

text \<open>
  C32: the character-by-character parser is equivalent to the grammar: it accepts exactly the
  strings that are an optional \<^verbatim>\<open>aeron-spy:\<close>, then \<^verbatim>\<open>aeron:\<close>, a media without a colon, and
  (after a \<^verbatim>\<open>?\<close>) parameters \<^verbatim>\<open>key=value\<close> separated by bars, and on those it yields the prefix,
  the media and the bindings assigned from left to right; it throws an
  \<^verbatim>\<open>IllegalArgumentException\<close> on everything else, and no other exception.
\<close>

theorem parse_equals_grammar:
  "case grammar str of
     Some (pre, med, kvs) \<Rightarrow>
       (\<exists>u. parse lay str = Inr u \<and> uri_prefix u = pre \<and> uri_media u = med \<and>
            get u = map_of (rev kvs))
   | None \<Rightarrow> (\<exists>msg. parse lay str = Inl (IllegalArgumentException msg))"
  by (rule parse_by_grammar)

text \<open>
  C33: round trip. Whatever order the map iterates in, printing a well-formed URI and parsing
  the text gives a URI with the same prefix, the same media and the same value for every
  key.
\<close>

theorem toString_parse_roundtrip:
  assumes "uri_ok u"
  shows "\<exists>w. parse lay (toString u) = Inr w \<and> uri_prefix w = uri_prefix u \<and>
             uri_media w = uri_media u \<and> get w = get u"
proof -
  obtain w where "parse lay (toString u) = Inr w" "uri_equiv w u"
    using toString_reads_back [OF assms] by blast
  then show ?thesis
    using get_equiv [of w u] by (auto simp: uri_equiv_def)
qed

theorem toString_parse_roundtrip_witness:
  "\<exists>w. parse (\<lambda>_ _ _. 0) ''aeron-spy:aeron:udp?endpoint=224.10.9.8:777|a|b=c=d'' = Inr w \<and>
       uri_media w = ''udp'' \<and> get w ''a|b'' = Some ''c=d''"
proof -
  define u where "u = mk_uri SPY_QUALIFIER ''udp'' [(''endpoint'', ''224.10.9.8:777''), (''a|b'', ''c=d'')]"
  have "uri_ok u"
    by (simp add: u_def uri_ok_def mk_uri_def umap_ok_def)
  moreover have "toString u = ''aeron-spy:aeron:udp?endpoint=224.10.9.8:777|a|b=c=d''"
    unfolding u_def by code_simp
  moreover have "get u ''a|b'' = Some ''c=d''" "uri_media u = ''udp''"
    by (simp_all add: u_def mk_uri_def get_def umap_find_def)
  ultimately show ?thesis
    using toString_parse_roundtrip [of u "\<lambda>_ _ _. 0"] by metis
qed

text \<open>
  C34: everything the parser returns is well formed: no separator inside a field, one binding
  per key, and a prefix that is empty or \<^verbatim>\<open>aeron-spy\<close>. So the result of a parse can always be
  printed and parsed again.
\<close>

theorem parse_well_formed:
  assumes "parse lay str = Inr u"
  shows "uri_ok u"
  by (rule uri_ok_parse [OF assms])

theorem parse_well_formed_witness:
  "\<exists>u. parse (\<lambda>_ _ _. 0) ''aeron:ipc?a=1|a=2'' = Inr u \<and> uri_ok u \<and> uri_params u = [(''a'', ''2'')]"
proof -
  have p: "parse (\<lambda>_ _ _. 0) ''aeron:ipc?a=1|a=2'' = Inr (mk_uri [] ''ipc'' [(''a'', ''2'')])"
    by code_simp
  then show ?thesis
    using parse_well_formed [OF p] by (simp add: mk_uri_def)
qed

text \<open>
  \<^verbatim>\<open>addSessionId\<close> on a channel that parses succeeds, and its text parses to the same
  URI with the one parameter \<^verbatim>\<open>session-id\<close> bound to the decimal text of the signed session id;
  every other parameter, the prefix and the media are kept.
\<close>

theorem addSessionId_correct:
  assumes "parse lay channel = Inr u"
  shows "\<exists>text w. addSessionId lay channel sid = Inr text \<and> parse lay text = Inr w \<and>
           uri_prefix w = uri_prefix u \<and> uri_media w = uri_media u \<and>
           get w = (get u)(''session-id'' \<mapsto> to_string (sint sid))"
  using addSessionId_reads [OF assms] .

theorem addSessionId_correct_witness:
  "\<exists>text w. addSessionId (\<lambda>_ _ _. 0) ''aeron:udp?endpoint=localhost:40123'' (- 7) = Inr text \<and>
     parse (\<lambda>_ _ _. 0) text = Inr w \<and> get w ''session-id'' = Some ''-7'' \<and>
     get w ''endpoint'' = Some ''localhost:40123''"
proof -
  have p: "parse (\<lambda>_ _ _. 0) ''aeron:udp?endpoint=localhost:40123'' =
      Inr (mk_uri [] ''udp'' [(''endpoint'', ''localhost:40123'')])"
    by code_simp
  have "to_string (sint (- 7 :: int32)) = ''-7''"
    by code_simp
  moreover have "get (mk_uri [] ''udp'' [(''endpoint'', ''localhost:40123'')]) ''endpoint'' =
      Some ''localhost:40123''"
    by code_simp
  ultimately show ?thesis
    using addSessionId_correct [OF p, of "- 7"] by auto
qed

end
