(* ===== verification/Context.thy ===== *)
theory Context
  imports Configuration ChannelUri AeronEnv
begin

text \<open>
  The client's context (\<^verbatim>\<open>src/Context.cpp\<close>, \<^verbatim>\<open>.h\<close>): a configuration, the Aeron client and
  the request channel, which is computed from the configuration when it is set, not when it is
  read. The setters of the class are \<open>set_\<close>\<^verbatim>\<open>name\<close> here and its getters \<open>get_\<close>\<^verbatim>\<open>name\<close>; the
  handle of an Aeron client is a number.
\<close>

section \<open>The model\<close>

definition TERM_LENGTH_PARAM_NAME :: string where "TERM_LENGTH_PARAM_NAME = ''term-length''"
definition MTU_LENGTH_PARAM_NAME :: string where "MTU_LENGTH_PARAM_NAME = ''mtu''"
definition SPARSE_PARAM_NAME :: string where "SPARSE_PARAM_NAME = ''sparse''"

lemmas param_names = TERM_LENGTH_PARAM_NAME_def MTU_LENGTH_PARAM_NAME_def SPARSE_PARAM_NAME_def

record archive_context =
  ctx_cfg :: configuration
  ctx_aeronDirectoryName :: string
  ctx_aeronContext :: "string option"
  ctx_aeron :: "nat option"
  ctx_controlRequestChannel :: string

definition set_messageTimeoutNs :: "int64 \<Rightarrow> archive_context \<Rightarrow> archive_context" where
  "set_messageTimeoutNs v c = c\<lparr>ctx_cfg := (ctx_cfg c)\<lparr>messageTimeoutNs := v\<rparr>\<rparr>"

definition set_controlRequestStreamId :: "int32 \<Rightarrow> archive_context \<Rightarrow> archive_context" where
  "set_controlRequestStreamId v c = c\<lparr>ctx_cfg := (ctx_cfg c)\<lparr>controlStreamId := v\<rparr>\<rparr>"

definition set_localControlChannel :: "string \<Rightarrow> archive_context \<Rightarrow> archive_context" where
  "set_localControlChannel v c = c\<lparr>ctx_cfg := (ctx_cfg c)\<lparr>localControlChannel := v\<rparr>\<rparr>"

definition set_localControlStreamId :: "int32 \<Rightarrow> archive_context \<Rightarrow> archive_context" where
  "set_localControlStreamId v c = c\<lparr>ctx_cfg := (ctx_cfg c)\<lparr>localControlStreamId := v\<rparr>\<rparr>"

definition set_controlResponseChannel :: "string \<Rightarrow> archive_context \<Rightarrow> archive_context" where
  "set_controlResponseChannel v c = c\<lparr>ctx_cfg := (ctx_cfg c)\<lparr>controlResponseChannel := v\<rparr>\<rparr>"

definition set_controlResponseStreamId :: "int32 \<Rightarrow> archive_context \<Rightarrow> archive_context" where
  "set_controlResponseStreamId v c = c\<lparr>ctx_cfg := (ctx_cfg c)\<lparr>controlResponseStreamId := v\<rparr>\<rparr>"

definition set_recordingEventsChannel :: "string \<Rightarrow> archive_context \<Rightarrow> archive_context" where
  "set_recordingEventsChannel v c = c\<lparr>ctx_cfg := (ctx_cfg c)\<lparr>recordingEventsChannel := v\<rparr>\<rparr>"

definition set_recordingEventsStreamId :: "int32 \<Rightarrow> archive_context \<Rightarrow> archive_context" where
  "set_recordingEventsStreamId v c = c\<lparr>ctx_cfg := (ctx_cfg c)\<lparr>recordingEventsStreamId := v\<rparr>\<rparr>"

definition set_controlTermBufferSparse :: "bool \<Rightarrow> archive_context \<Rightarrow> archive_context" where
  "set_controlTermBufferSparse v c = c\<lparr>ctx_cfg := (ctx_cfg c)\<lparr>controlTermBufferSparse := v\<rparr>\<rparr>"

definition set_controlTermBufferLength :: "int32 \<Rightarrow> archive_context \<Rightarrow> archive_context" where
  "set_controlTermBufferLength v c = c\<lparr>ctx_cfg := (ctx_cfg c)\<lparr>controlTermBufferLength := v\<rparr>\<rparr>"

definition set_controlMtuLength :: "int32 \<Rightarrow> archive_context \<Rightarrow> archive_context" where
  "set_controlMtuLength v c = c\<lparr>ctx_cfg := (ctx_cfg c)\<lparr>controlMtuLength := v\<rparr>\<rparr>"

definition set_aeronDirectoryName :: "string \<Rightarrow> archive_context \<Rightarrow> archive_context" where
  "set_aeronDirectoryName v c = c\<lparr>ctx_aeronDirectoryName := v\<rparr>"

definition set_aeron :: "nat option \<Rightarrow> archive_context \<Rightarrow> archive_context" where
  "set_aeron v c = c\<lparr>ctx_aeron := v\<rparr>"

definition get_messageTimeoutNs :: "archive_context \<Rightarrow> int64" where
  "get_messageTimeoutNs c = messageTimeoutNs (ctx_cfg c)"

definition get_controlRequestStreamId :: "archive_context \<Rightarrow> int32" where
  "get_controlRequestStreamId c = controlStreamId (ctx_cfg c)"

definition get_localControlChannel :: "archive_context \<Rightarrow> string" where
  "get_localControlChannel c = localControlChannel (ctx_cfg c)"

definition get_localControlStreamId :: "archive_context \<Rightarrow> int32" where
  "get_localControlStreamId c = localControlStreamId (ctx_cfg c)"

definition get_controlResponseChannel :: "archive_context \<Rightarrow> string" where
  "get_controlResponseChannel c = controlResponseChannel (ctx_cfg c)"

definition get_controlResponseStreamId :: "archive_context \<Rightarrow> int32" where
  "get_controlResponseStreamId c = controlResponseStreamId (ctx_cfg c)"

definition get_recordingEventsChannel :: "archive_context \<Rightarrow> string" where
  "get_recordingEventsChannel c = recordingEventsChannel (ctx_cfg c)"

definition get_recordingEventsStreamId :: "archive_context \<Rightarrow> int32" where
  "get_recordingEventsStreamId c = recordingEventsStreamId (ctx_cfg c)"

definition get_controlTermBufferSparse :: "archive_context \<Rightarrow> bool" where
  "get_controlTermBufferSparse c = controlTermBufferSparse (ctx_cfg c)"

definition get_controlTermBufferLength :: "archive_context \<Rightarrow> int32" where
  "get_controlTermBufferLength c = controlTermBufferLength (ctx_cfg c)"

definition get_controlMtuLength :: "archive_context \<Rightarrow> int32" where
  "get_controlMtuLength c = controlMtuLength (ctx_cfg c)"

definition get_aeronDirectoryName :: "archive_context \<Rightarrow> string" where
  "get_aeronDirectoryName c = ctx_aeronDirectoryName c"

definition get_aeron :: "archive_context \<Rightarrow> nat option" where
  "get_aeron c = ctx_aeron c"

definition get_controlRequestChannel :: "archive_context \<Rightarrow> string" where
  "get_controlRequestChannel c = ctx_controlRequestChannel c"

lemmas context_defs =
  set_messageTimeoutNs_def set_controlRequestStreamId_def set_localControlChannel_def
  set_localControlStreamId_def set_controlResponseChannel_def set_controlResponseStreamId_def
  set_recordingEventsChannel_def set_recordingEventsStreamId_def set_controlTermBufferSparse_def
  set_controlTermBufferLength_def set_controlMtuLength_def set_aeronDirectoryName_def
  set_aeron_def get_messageTimeoutNs_def get_controlRequestStreamId_def
  get_localControlChannel_def get_localControlStreamId_def get_controlResponseChannel_def
  get_controlResponseStreamId_def get_recordingEventsChannel_def get_recordingEventsStreamId_def
  get_controlTermBufferSparse_def get_controlTermBufferLength_def get_controlMtuLength_def
  get_aeronDirectoryName_def get_aeron_def get_controlRequestChannel_def

text \<open>
  Setting the request channel adds the three term buffer settings to it. \<^verbatim>\<open>std::to_string\<close> of a
  \<^verbatim>\<open>bool\<close> is the overload for integers.
\<close>

definition set_controlRequestChannel :: "layout \<Rightarrow> string \<Rightarrow> archive_context \<Rightarrow> archive_context result" where
  "set_controlRequestChannel lay v c =
     bind_result (parse lay v) (\<lambda>uri.
       let uri1 = put lay uri TERM_LENGTH_PARAM_NAME (to_string (sint (controlTermBufferLength (ctx_cfg c))));
           uri2 = put lay uri1 MTU_LENGTH_PARAM_NAME (to_string (sint (controlMtuLength (ctx_cfg c))));
           uri3 = put lay uri2 SPARSE_PARAM_NAME
                    (to_string (if controlTermBufferSparse (ctx_cfg c) then 1 else 0))
       in Inr (c\<lparr>ctx_controlRequestChannel := toString uri3\<rparr>))"

definition mk_Context :: "layout \<Rightarrow> configuration \<Rightarrow> archive_context result" where
  "mk_Context lay cfg =
     set_controlRequestChannel lay (controlChannel cfg)
       \<lparr>ctx_cfg = cfg, ctx_aeronDirectoryName = [], ctx_aeronContext = None, ctx_aeron = None,
        ctx_controlRequestChannel = []\<rparr>"

definition mk_Context_default :: "lexical \<Rightarrow> (string \<Rightarrow> string option) \<Rightarrow> layout \<Rightarrow> archive_context result" where
  "mk_Context_default L getenv lay = bind_result (Configuration_env L getenv) (mk_Context lay)"

definition conclude :: "env \<Rightarrow> archive_context \<Rightarrow> trace \<Rightarrow> unit result \<times> archive_context \<times> trace" where
  "conclude E c tr =
     (let c1 = (if ctx_aeronDirectoryName c = []
                then c\<lparr>ctx_aeronDirectoryName := env_defaultAeronPath E\<rparr> else c)
      in case ctx_aeron c1 of
           Some _ \<Rightarrow> (Inr (), c1, tr)
         | None \<Rightarrow>
             (let dir = ctx_aeronDirectoryName c1;
                  c2 = c1\<lparr>ctx_aeronContext := Some dir\<rparr>
              in case call_connect E dir tr of
                   (Inl e, tr1) \<Rightarrow> (Inl e, c2, tr1)
                 | (Inr a, tr1) \<Rightarrow> (Inr (), c2\<lparr>ctx_aeron := Some a\<rparr>, tr1)))"

section \<open>Correctness\<close>

text \<open>
  C36: Setting the request channel (as both constructors do with the configured control channel)
  fails exactly as the parser fails on it, and otherwise stores a text that parses to the same
  URI with \<^verbatim>\<open>term-length\<close> and \<^verbatim>\<open>mtu\<close> bound to the decimal text of the configured lengths and
  \<^verbatim>\<open>sparse\<close> bound to \<^verbatim>\<open>1\<close> or \<^verbatim>\<open>0\<close>; nothing else of the context changes.
\<close>

theorem request_channel_carries_settings:
  "case parse lay v of
     Inl e \<Rightarrow> set_controlRequestChannel lay v c = Inl e
   | Inr u \<Rightarrow> \<exists>text w. set_controlRequestChannel lay v c = Inr (c\<lparr>ctx_controlRequestChannel := text\<rparr>) \<and>
       parse lay text = Inr w \<and> uri_prefix w = uri_prefix u \<and> uri_media w = uri_media u \<and>
       get w = (get u)(''term-length'' \<mapsto> to_string (sint (get_controlTermBufferLength c)),
                       ''mtu'' \<mapsto> to_string (sint (get_controlMtuLength c)),
                       ''sparse'' \<mapsto> (if get_controlTermBufferSparse c then ''1'' else ''0''))"
proof (cases "parse lay v")
  case (Inl e)
  then show ?thesis by (simp add: set_controlRequestChannel_def)
next
  case (Inr u)
  have u: "uri_ok u" by (rule uri_ok_parse [OF Inr])
  define p1 where "p1 = put lay u TERM_LENGTH_PARAM_NAME (to_string (sint (get_controlTermBufferLength c)))"
  define p2 where "p2 = put lay p1 MTU_LENGTH_PARAM_NAME (to_string (sint (get_controlMtuLength c)))"
  define p3 where "p3 = put lay p2 SPARSE_PARAM_NAME (to_string (if get_controlTermBufferSparse c then 1 else 0))"
  have p1: "uri_ok p1"
    unfolding p1_def using u by (intro uri_ok_put) (simp_all add: param_names)
  have p2: "uri_ok p2"
    unfolding p2_def using p1 by (intro uri_ok_put) (simp_all add: param_names)
  have p3: "uri_ok p3"
    unfolding p3_def using p2 by (intro uri_ok_put) (simp_all add: param_names)
  obtain w where w: "parse lay (toString p3) = Inr w" "uri_equiv w p3"
    using toString_reads_back [OF p3] by blast
  have "get p3 = (get u)(''term-length'' \<mapsto> to_string (sint (get_controlTermBufferLength c)),
      ''mtu'' \<mapsto> to_string (sint (get_controlMtuLength c)),
      ''sparse'' \<mapsto> (if get_controlTermBufferSparse c then ''1'' else ''0''))"
    by (simp add: p3_def get_put [OF p2], simp add: p2_def get_put [OF p1], simp add: p1_def get_put [OF u])
      (simp add: param_names)
  moreover have "set_controlRequestChannel lay v c = Inr (c\<lparr>ctx_controlRequestChannel := toString p3\<rparr>)"
    by (simp add: set_controlRequestChannel_def Inr Let_def p1_def p2_def p3_def context_defs)
  moreover have "uri_prefix p3 = uri_prefix u" "uri_media p3 = uri_media u"
    by (simp_all add: p1_def p2_def p3_def put_def)
  ultimately show ?thesis
    using Inr w get_equiv [OF w(2)] by (auto simp: uri_equiv_def)
qed

text \<open>
  The term buffer settings only count when the channel is set. Changing the sparse flag, the
  term length and the MTU of a context and concluding it leaves the request channel as it was,
  although the getters report the new values: only \<^verbatim>\<open>controlRequestChannel\<close> applies them.
\<close>

theorem settings_need_channel_set_again:
  "case conclude E (set_controlMtuLength m (set_controlTermBufferLength n (set_controlTermBufferSparse b c))) tr of
     (r, c', tr') \<Rightarrow> get_controlRequestChannel c' = get_controlRequestChannel c \<and>
       get_controlMtuLength c' = m \<and> get_controlTermBufferLength c' = n \<and> get_controlTermBufferSparse c' = b"
  by (simp add: conclude_def context_defs Let_def split: option.split prod.split sum.split)

text \<open>
  C37: Concluding a context fills what is missing and nothing else. A directory is taken from
  Aeron's default only when none was set, a client is connected (to that directory) only when
  none was given, a failure to connect leaves the context without a client; after success
  there is a client, and concluding again changes nothing.
\<close>

theorem conclude_completes:
  "case conclude E c tr of (r, c', tr') \<Rightarrow>
     get_aeronDirectoryName c' =
       (if get_aeronDirectoryName c = [] then env_defaultAeronPath E else get_aeronDirectoryName c) \<and>
     ctx_cfg c' = ctx_cfg c \<and> get_controlRequestChannel c' = get_controlRequestChannel c \<and>
     (case get_aeron c of
        Some a \<Rightarrow> r = Inr () \<and> get_aeron c' = Some a \<and> tr' = tr
      | None \<Rightarrow> tr' = AeronConnected (get_aeronDirectoryName c') # tr \<and>
          (case env_connect E tr (get_aeronDirectoryName c') of
             Inl e \<Rightarrow> r = Inl e \<and> get_aeron c' = None
           | Inr a \<Rightarrow> r = Inr () \<and> get_aeron c' = Some a)) \<and>
     (case r of Inr _ \<Rightarrow> \<forall>tr2. conclude E c' tr2 = (Inr (), c', tr2) | Inl _ \<Rightarrow> True)"
  by (cases c) (auto simp: conclude_def call_connect_def context_defs Let_def split: option.split sum.split)

end
