(* ===== verification/ControlResponsePoller.thy ===== *)
theory ControlResponsePoller
  imports SampleWorld
begin

text \<open>
  The poller for control responses (\<^verbatim>\<open>src/ControlResponsePoller.cpp\<close>, \<^verbatim>\<open>.h\<close>): its fields show the
  last response it was handed. The specification \<open>read_response\<close> is what one message says,
  without the poller's state.
\<close>

section \<open>The model\<close>

record control_response_poller =
  cp_fragmentLimit :: int32
  cp_controlSessionId :: int64
  cp_correlationId :: int64
  cp_relevantId :: int64
  cp_templateId :: int64
  cp_code :: int32
  cp_errorMessage :: string
  cp_isPollComplete :: bool

text \<open>The getters.\<close>

definition response_controlSessionId :: "control_response_poller \<Rightarrow> int64" where
  [simp]: "response_controlSessionId p = cp_controlSessionId p"

definition response_correlationId :: "control_response_poller \<Rightarrow> int64" where
  [simp]: "response_correlationId p = cp_correlationId p"

definition response_relevantId :: "control_response_poller \<Rightarrow> int64" where
  [simp]: "response_relevantId p = cp_relevantId p"

definition response_templateId :: "control_response_poller \<Rightarrow> int64" where
  [simp]: "response_templateId p = cp_templateId p"

definition response_code :: "control_response_poller \<Rightarrow> int32" where
  [simp]: "response_code p = cp_code p"

definition response_errorMessage :: "control_response_poller \<Rightarrow> string" where
  [simp]: "response_errorMessage p = cp_errorMessage p"

definition response_isPollComplete :: "control_response_poller \<Rightarrow> bool" where
  [simp]: "response_isPollComplete p = cp_isPollComplete p"

text \<open>The constructor; \<open>memory\<close> holds the indeterminate values of the fields it leaves alone.\<close>

definition mk_ControlResponsePoller :: "control_response_poller \<Rightarrow> int32 \<Rightarrow> control_response_poller" where
  "mk_ControlResponsePoller memory fragmentLimit =
     memory\<lparr>cp_fragmentLimit := fragmentLimit, cp_errorMessage := [], cp_isPollComplete := False\<rparr>"

definition unknown_template :: "uint16 \<Rightarrow> exn" where
  "unknown_template t = ArchiveException (''unknown template id: '' @ to_string (uint t))"

definition response_complete ::
  "control_response_poller \<Rightarrow> trace \<Rightarrow> ControlledPollAction result \<times> control_response_poller \<times> trace"
where
  "response_complete p tr = (Inr BREAK, p\<lparr>cp_isPollComplete := True\<rparr>, tr)"

definition response_onFragment :: "sbe \<Rightarrow> control_response_poller handler" where
  "response_onFragment S p f tr =
     (case sbe_readHeader S (buffer f) (offset f) of
        Inl e \<Rightarrow> (Inl e, p, tr)
      | Inr hdr \<Rightarrow>
          (if templateId hdr = sbe_ControlResponse S then
             (case sbe_readControlResponse S (buffer f) (offset f + sbe_headerLength S)
                     (blockLength hdr) (version hdr) of
                Inl e \<Rightarrow> (Inl e, p, tr)
              | Inr msg \<Rightarrow>
                  (let p1 = p\<lparr>cp_controlSessionId := cr_controlSessionId msg,
                              cp_correlationId := cr_correlationId msg,
                              cp_relevantId := cr_relevantId msg,
                              cp_templateId := ucast (templateId hdr)\<rparr>
                   in case cr_code msg of
                        Inl e \<Rightarrow> (Inl e, p1, tr)
                      | Inr code \<Rightarrow>
                          (let p2 = p1\<lparr>cp_code := code\<rparr>
                           in if code = code_ERROR S then
                                (case cr_errorMessage msg of
                                   Inl e \<Rightarrow> (Inl e, p2, tr)
                                 | Inr text \<Rightarrow> response_complete (p2\<lparr>cp_errorMessage := text\<rparr>) tr)
                              else response_complete (p2\<lparr>cp_errorMessage := []\<rparr>) tr)))
           else if templateId hdr \<noteq> sbe_RecordingDescriptor S then
             (Inl (unknown_template (templateId hdr)), p, tr)
           else response_complete p tr))"

definition response_reset :: "control_response_poller \<Rightarrow> control_response_poller" where
  "response_reset p = p\<lparr>cp_controlSessionId := - 1, cp_correlationId := - 1, cp_relevantId := - 1,
                        cp_templateId := - 1, cp_isPollComplete := False\<rparr>"

definition response_poll ::
  "sbe \<Rightarrow> env \<Rightarrow> control_response_poller \<Rightarrow> trace \<Rightarrow> int32 result \<times> control_response_poller \<times> trace" where
  "response_poll S E p tr =
     controlledPoll E (response_onFragment S) (cp_fragmentLimit p) (response_reset p) tr"

section \<open>What a message says\<close>

record response =
  re_controlSessionId :: int64
  re_correlationId :: int64
  re_relevantId :: int64
  re_code :: int32
  re_errorMessage :: string

text \<open>A response; or a message the poller takes note of only; or something it throws on.\<close>

definition read_response :: "sbe \<Rightarrow> fragment \<Rightarrow> response option result" where
  "read_response S f =
     bind_result (sbe_readHeader S (buffer f) (offset f)) (\<lambda>hdr.
       if templateId hdr = sbe_ControlResponse S then
         bind_result (sbe_readControlResponse S (buffer f) (offset f + sbe_headerLength S)
                        (blockLength hdr) (version hdr)) (\<lambda>msg.
         bind_result (cr_code msg) (\<lambda>code.
         bind_result (if code = code_ERROR S then cr_errorMessage msg else Inr []) (\<lambda>text.
           Inr (Some \<lparr>re_controlSessionId = cr_controlSessionId msg,
                      re_correlationId = cr_correlationId msg, re_relevantId = cr_relevantId msg,
                      re_code = code, re_errorMessage = text\<rparr>))))
       else if templateId hdr = sbe_RecordingDescriptor S then Inr None
       else Inl (unknown_template (templateId hdr)))"

text \<open>What the fields of a poller show.\<close>

definition shown :: "control_response_poller \<Rightarrow> response" where
  "shown p = \<lparr>re_controlSessionId = cp_controlSessionId p, re_correlationId = cp_correlationId p,
              re_relevantId = cp_relevantId p, re_code = cp_code p, re_errorMessage = cp_errorMessage p\<rparr>"

definition shows_response :: "sbe \<Rightarrow> control_response_poller \<Rightarrow> bool" where
  "shows_response S p \<longleftrightarrow> cp_isPollComplete p \<and> cp_templateId p = ucast (sbe_ControlResponse S)"

lemma template_id_not_minus_one [simp]: "ucast (t :: uint16) \<noteq> (- 1 :: int64)"
proof
  assume "ucast t = (- 1 :: int64)"
  then have "uint (ucast t :: int64) = uint (- 1 :: int64)" by simp
  moreover have "uint t < 2 ^ 64" using uint_lt2p [of t] by simp
  then have "uint (ucast t :: int64) = uint t" by (simp add: unsigned_ucast_eq take_bit_int_eq_self)
  moreover have "uint (- 1 :: int64) = 2 ^ 64 - 1" by (simp add: unsigned_minus_1_eq_mask mask_eq_exp_minus_1)
  ultimately show False using uint_lt2p [of t] by simp
qed

text \<open>
  The ids that decoding a message gets as far as reading, also when it then throws on the code or the text;
  and whether a poller shows these and no others: without any, those that a poll sets at its start.
\<close>

definition read_ids :: "sbe \<Rightarrow> fragment \<Rightarrow> (int64 \<times> int64 \<times> int64) option" where
  "read_ids S f =
     (case sbe_readHeader S (buffer f) (offset f) of
        Inl _ \<Rightarrow> None
      | Inr hdr \<Rightarrow>
          if templateId hdr = sbe_ControlResponse S then
            (case sbe_readControlResponse S (buffer f) (offset f + sbe_headerLength S)
                    (blockLength hdr) (version hdr) of
               Inl _ \<Rightarrow> None
             | Inr msg \<Rightarrow> Some (cr_controlSessionId msg, cr_correlationId msg, cr_relevantId msg))
          else None)"

definition ids_shown :: "sbe \<Rightarrow> (int64 \<times> int64 \<times> int64) option \<Rightarrow> control_response_poller \<Rightarrow> bool" where
  "ids_shown S ids p \<longleftrightarrow>
     (cp_controlSessionId p, cp_correlationId p, cp_relevantId p, cp_templateId p) =
     (case ids of
        None \<Rightarrow> (- 1, - 1, - 1, - 1)
      | Some (session, correlation, relevant) \<Rightarrow> (session, correlation, relevant, ucast (sbe_ControlResponse S)))"

section \<open>The handler\<close>

lemma onFragment_reads:
  "response_onFragment S p f tr = (x, p', tr') \<Longrightarrow>
     tr' = tr \<and> cp_fragmentLimit p' = cp_fragmentLimit p \<and>
     (case read_response S f of
        Inl e \<Rightarrow> x = Inl e \<and> cp_isPollComplete p' = cp_isPollComplete p
      | Inr None \<Rightarrow> x = Inr BREAK \<and> p' = p\<lparr>cp_isPollComplete := True\<rparr>
      | Inr (Some m) \<Rightarrow> x = Inr BREAK \<and> shows_response S p' \<and> shown p' = m)"
  by (auto simp: response_onFragment_def read_response_def response_complete_def shows_response_def
      shown_def Let_def split: sum.splits if_splits)

lemma onFragment_ids:
  "response_onFragment S (response_reset p) f tr = (x, p', tr') \<Longrightarrow> ids_shown S (read_ids S f) p'"
  by (auto simp: response_onFragment_def response_reset_def read_ids_def ids_shown_def response_complete_def Let_def
      split: sum.splits if_splits)

interpretation response_handler: breaking_handler "response_onFragment S" for S
  by unfold_locales (auto dest!: onFragment_reads split: sum.splits option.splits)

text \<open>While it polls it makes no call of its own: only the library's events are added.\<close>

definition only_polled :: "trace \<Rightarrow> trace \<Rightarrow> bool" where
  "only_polled tr0 tr \<longleftrightarrow> (\<exists>es. tr = es @ tr0 \<and> list_all poll_event es)"

interpretation response_quiet: fragment_handler "response_onFragment S"
  "\<lambda>p tr. only_polled tr0 tr \<and> cp_fragmentLimit p = n" for S tr0 n
proof unfold_locales
  fix e s and tr :: trace
  assume "poll_event e" "\<not> is_delivery e" "only_polled tr0 tr \<and> cp_fragmentLimit s = n"
  then obtain es where "tr = es @ tr0" "list_all poll_event es" "cp_fragmentLimit s = n"
    by (auto simp: only_polled_def)
  then show "only_polled tr0 (e # tr) \<and> cp_fragmentLimit s = n"
    using \<open>poll_event e\<close> by (auto simp: only_polled_def intro!: exI [of _ "e # es"])
next
  fix s f r s' and tr tr' :: trace
  assume "only_polled tr0 tr \<and> cp_fragmentLimit s = n"
    and h: "response_onFragment S s f (Delivered f # tr) = (r, s', tr')"
  then obtain es where "tr = es @ tr0" "list_all poll_event es" "cp_fragmentLimit s = n"
    by (auto simp: only_polled_def)
  then show "only_polled tr0 tr' \<and> cp_fragmentLimit s' = n"
    using onFragment_reads [OF h] by (auto simp: only_polled_def intro!: exI [of _ "Delivered f # es"])
qed

lemma response_poll_quiet:
  assumes "response_poll S E p tr = (x, p', tr')"
  shows "only_polled tr tr' \<and> cp_fragmentLimit p' = cp_fragmentLimit p"
proof (rule response_quiet.inv_controlledPoll)
  show "controlledPoll E (response_onFragment S) (cp_fragmentLimit p) (response_reset p) tr = (x, p', tr')"
    using assms by (simp add: response_poll_def)
  show "only_polled tr tr \<and> cp_fragmentLimit (response_reset p) = cp_fragmentLimit p"
    unfolding only_polled_def response_reset_def by (auto intro!: exI [of _ "[]"])
qed

lemma only_polled_extends: "only_polled tr tr' \<Longrightarrow> extends tr tr'"
  by (auto simp: only_polled_def extends_def)

text \<open>The message a poll is handed, if any.\<close>

definition next_message :: "env \<Rightarrow> int32 \<Rightarrow> trace \<Rightarrow> fragment option" where
  "next_message E limit tr = env_nextFragment E (PollStarted limit # tr)"

definition poll_shows :: "sbe \<Rightarrow> fragment option \<Rightarrow> int32 result \<Rightarrow> control_response_poller \<Rightarrow> bool" where
  "poll_shows S m x p \<longleftrightarrow> ids_shown S (Option.bind m (read_ids S)) p \<and>
     (case m of
        None \<Rightarrow> (\<exists>n. x = Inr n) \<and> \<not> cp_isPollComplete p \<and> cp_controlSessionId p = - 1 \<and>
          cp_correlationId p = - 1 \<and> cp_relevantId p = - 1 \<and> cp_templateId p = - 1
      | Some f \<Rightarrow>
          (case read_response S f of
             Inl e \<Rightarrow> (x = Inl e \<or> (\<exists>n. x = Inr n)) \<and> \<not> cp_isPollComplete p
           | Inr None \<Rightarrow> (\<exists>n. x = Inr n) \<and> cp_isPollComplete p \<and> cp_controlSessionId p = - 1 \<and>
               cp_correlationId p = - 1 \<and> cp_relevantId p = - 1 \<and> cp_templateId p = - 1
           | Inr (Some r) \<Rightarrow> (\<exists>n. x = Inr n) \<and> shows_response S p \<and> shown p = r))"

lemma response_poll_message:
  assumes "break_stops E" and "0 <s cp_fragmentLimit p" and "response_poll S E p tr = (x, p', tr')"
  shows "poll_shows S (next_message E (cp_fragmentLimit p) tr) x p' \<and>
     (\<exists>es. tr' = es @ tr \<and> es \<noteq> [] \<and> list_all poll_event es \<and>
        deliveries es = (case next_message E (cp_fragmentLimit p) tr of None \<Rightarrow> [] | Some f \<Rightarrow> [f])) \<and>
     (case x of
        Inl e \<Rightarrow> \<exists>f. tr' = Raised e # Delivered f # PollStarted (cp_fragmentLimit p) # tr \<and> read_response S f = Inl e
      | Inr n \<Rightarrow> \<exists>es. tr' = Polled n # es \<and> n = env_pollResult E es \<and> length tr < length es)"
proof -
  let ?tr0 = "PollStarted (cp_fragmentLimit p) # tr"
  have run: "(case env_nextFragment E ?tr0 of
       None \<Rightarrow> poll_end E (response_reset p) ?tr0
     | Some f \<Rightarrow>
         (case response_onFragment S (response_reset p) f (Delivered f # ?tr0) of
            (Inr _, s', tr') \<Rightarrow> poll_end E s' (Answered BREAK # tr')
          | (Inl e, s', tr') \<Rightarrow>
              if env_rethrows E (Raised e # tr') then (Inl e, s', Raised e # tr')
              else poll_end E s' (Raised e # tr'))) = (x, p', tr')"
    using assms(3) response_handler.one_message [OF assms(1,2), of S "response_reset p" tr]
    by (simp add: response_poll_def Let_def)
  show ?thesis
  proof (cases "env_nextFragment E ?tr0")
    case None
    then have "tr' = [Polled (env_pollResult E ?tr0), PollStarted (cp_fragmentLimit p)] @ tr"
      using run by (auto simp: poll_end_def Let_def)
    then show ?thesis
      using run None
      by (auto simp: poll_shows_def next_message_def poll_end_def response_reset_def ids_shown_def Let_def)
  next
    case (Some f)
    obtain y q tq where h: "response_onFragment S (response_reset p) f (Delivered f # ?tr0) = (y, q, tq)"
      by (cases "response_onFragment S (response_reset p) f (Delivered f # ?tr0)")
    have tq: "tq = Delivered f # ?tr0" using onFragment_reads [OF h] by blast
    have reset: "\<not> cp_isPollComplete (response_reset p)" by (simp add: response_reset_def)
    have run': "case y of
        Inr _ \<Rightarrow> p' = q \<and> (\<exists>n. x = Inr n)
      | Inl e \<Rightarrow> p' = q \<and> (x = Inl e \<or> (\<exists>n. x = Inr n))"
      using run by (auto simp: Some h poll_end_def Let_def split: sum.splits if_splits)
    have "\<exists>es. tr' = es @ tr \<and> es \<noteq> [] \<and> list_all poll_event es \<and> deliveries es = [f]"
    proof -
      have "\<exists>es. tr' = (es @ [Delivered f, PollStarted (cp_fragmentLimit p)]) @ tr \<and>
          list_all poll_event es \<and> deliveries es = []"
        using run
        by (auto simp: Some h tq poll_end_def Let_def split: sum.splits if_splits)
      then obtain es where "tr' = (es @ [Delivered f, PollStarted (cp_fragmentLimit p)]) @ tr"
          "list_all poll_event es" "deliveries es = []" by blast
      then show ?thesis
        by (intro exI [of _ "es @ [Delivered f, PollStarted (cp_fragmentLimit p)]"]) simp
    qed
    moreover have "poll_shows S (next_message E (cp_fragmentLimit p) tr) x p'"
    proof (cases "read_response S f")
      case (Inl e)
      then show ?thesis
        using onFragment_reads [OF h] onFragment_ids [OF h] run' reset
        by (auto simp: poll_shows_def next_message_def Some)
    next
      case (Inr m)
      then show ?thesis
        using onFragment_reads [OF h] onFragment_ids [OF h] run'
        by (cases m) (auto simp: poll_shows_def next_message_def Some response_reset_def)
    qed
    moreover have "case x of
        Inl e \<Rightarrow> \<exists>f. tr' = Raised e # Delivered f # PollStarted (cp_fragmentLimit p) # tr \<and> read_response S f = Inl e
      | Inr n \<Rightarrow> \<exists>es. tr' = Polled n # es \<and> n = env_pollResult E es \<and> length tr < length es"
      using run onFragment_reads [OF h]
      by (auto simp: Some h tq poll_end_def Let_def split: sum.splits if_splits option.splits)
    ultimately show ?thesis by (simp add: next_message_def Some)
  qed
qed

section \<open>Correctness\<close>

text \<open>
  C31: One poll takes exactly the next message, if there is one, and no other, and shows exactly that one.
  With no message, or one the handler throws on, the poll is not complete; after a recording
  descriptor it is complete but shows no response; after a response it is complete, shows the
  control response template, and its session, correlation and relevant ids, its code and its
  error text (empty unless the code is an error) are those that the message decodes to. In every
  case no id of an earlier response is left over: the ids and the template are those that were
  read from this message, which a handler that throws on the code or the text has read too, and
  all -1 if none were. The poll makes no call besides.
\<close>

theorem response_poll_correct:
  assumes "break_stops E" and "0 <s cp_fragmentLimit p" and "response_poll S E p tr = (x, p', tr')"
  shows "poll_shows S (next_message E (cp_fragmentLimit p) tr) x p' \<and>
     (\<exists>es. tr' = es @ tr \<and> list_all poll_event es \<and>
        deliveries es = (case next_message E (cp_fragmentLimit p) tr of None \<Rightarrow> [] | Some f \<Rightarrow> [f]))"
  using response_poll_message [OF assms] by blast

definition sample_response_message :: fragment where
  "sample_response_message = \<lparr>buffer = [1, 5, 7, 42, 0], offset = 0\<rparr>"

definition sample_response_poller :: control_response_poller where
  "sample_response_poller =
     \<lparr>cp_fragmentLimit = 10, cp_controlSessionId = 1, cp_correlationId = 2, cp_relevantId = 3,
      cp_templateId = 4, cp_code = 1, cp_errorMessage = ''old'', cp_isPollComplete = True\<rparr>"

lemma response_poll_correct_witness:
  "\<exists>x p' tr'. response_poll sample_sbe (sample_env (Some sample_response_message)) sample_response_poller [] =
       (x, p', tr') \<and>
     shows_response sample_sbe p' \<and>
     shown p' = \<lparr>re_controlSessionId = 5, re_correlationId = 7, re_relevantId = 42, re_code = 0,
                 re_errorMessage = []\<rparr>"
proof -
  let ?E = "sample_env (Some sample_response_message)"
  obtain x p' tr' where run: "response_poll sample_sbe ?E sample_response_poller [] = (x, p', tr')"
    by (cases "response_poll sample_sbe ?E sample_response_poller []")
  have "next_message ?E (cp_fragmentLimit sample_response_poller) [] = Some sample_response_message"
    by (simp add: next_message_def sample_env_def)
  moreover have "read_response sample_sbe sample_response_message =
      Inr (Some \<lparr>re_controlSessionId = 5, re_correlationId = 7, re_relevantId = 42, re_code = 0,
                 re_errorMessage = []\<rparr>)"
    by (simp add: read_response_def sample_response_message_def sample_defs)
  ultimately have "shows_response sample_sbe p'" "shown p' = \<lparr>re_controlSessionId = 5,
      re_correlationId = 7, re_relevantId = 42, re_code = 0, re_errorMessage = []\<rparr>"
    using response_poll_correct [OF sample_break_stops _ run]
    by (simp_all add: poll_shows_def sample_response_poller_def word_sless_alt)
  with run show ?thesis by blast
qed

end
