(* ===== verification/RecordingDescriptorPoller.thy ===== *)
theory RecordingDescriptorPoller
  imports ControlResponsePoller
begin

text \<open>
  The poller that hands recording descriptors to a consumer
  (\<^verbatim>\<open>src/RecordingDescriptorPoller.cpp\<close>, \<^verbatim>\<open>.h\<close>). It counts down the records it still expects.
  The lemmas relate the history of a poll, which messages were delivered and which calls of
  the consumer were made, to the poller's counter.
\<close>

section \<open>The model\<close>

record recording_descriptor_poller =
  dp_fragmentLimit :: int32
  dp_controlSessionId :: int64
  dp_correlationId :: int64
  dp_remainingRecordCount :: int32
  dp_consumer :: nat
  dp_isDispatchComplete :: bool

text \<open>The constructor; \<open>memory\<close> holds the fields that only \<open>reset\<close> sets.\<close>

text \<open>The getters.\<close>

definition descriptor_remainingRecordCount :: "recording_descriptor_poller \<Rightarrow> int32" where
  [simp]: "descriptor_remainingRecordCount d = dp_remainingRecordCount d"

definition descriptor_isDispatchComplete :: "recording_descriptor_poller \<Rightarrow> bool" where
  [simp]: "descriptor_isDispatchComplete d = dp_isDispatchComplete d"

definition mk_RecordingDescriptorPoller ::
  "recording_descriptor_poller \<Rightarrow> int32 \<Rightarrow> int64 \<Rightarrow> recording_descriptor_poller" where
  "mk_RecordingDescriptorPoller memory fragmentLimit controlSessionId =
     memory\<lparr>dp_fragmentLimit := fragmentLimit, dp_controlSessionId := controlSessionId,
            dp_isDispatchComplete := False\<rparr>"

definition descriptor_reset ::
  "int64 \<Rightarrow> int32 \<Rightarrow> nat \<Rightarrow> recording_descriptor_poller \<Rightarrow> recording_descriptor_poller" where
  "descriptor_reset correlationId remainingRecordCount consumer d =
     d\<lparr>dp_correlationId := correlationId, dp_consumer := consumer,
       dp_remainingRecordCount := remainingRecordCount, dp_isDispatchComplete := False\<rparr>"

definition descriptor_onFragment :: "sbe \<Rightarrow> env \<Rightarrow> recording_descriptor_poller handler" where
  "descriptor_onFragment S E d f tr =
     (case sbe_readHeader S (buffer f) (offset f) of
        Inl e \<Rightarrow> (Inl e, d, tr)
      | Inr hdr \<Rightarrow>
          (if templateId hdr = sbe_ControlResponse S then
             (case sbe_readControlResponse S (buffer f) (offset f + sbe_headerLength S)
                     (blockLength hdr) (version hdr) of
                Inl e \<Rightarrow> (Inl e, d, tr)
              | Inr msg \<Rightarrow>
                  (if dp_controlSessionId d = cr_controlSessionId msg then
                     (case cr_code msg of
                        Inl e \<Rightarrow> (Inl e, d, tr)
                      | Inr code \<Rightarrow>
                          (if code = code_RECORDING_UNKNOWN S \<and> dp_correlationId d = cr_correlationId msg then
                             (Inr BREAK, d\<lparr>dp_isDispatchComplete := True\<rparr>, tr)
                           else if code = code_ERROR S then
                             (case cr_errorMessage msg of
                                Inl e \<Rightarrow> (Inl e, d, tr)
                              | Inr text \<Rightarrow>
                                  (Inl (ArchiveException (''response for correlationId='' @
                                     to_string (sint (dp_correlationId d)) @ '', error: '' @ text)), d, tr))
                           else (Inr CONTINUE, d, tr)))
                   else (Inr CONTINUE, d, tr)))
           else if templateId hdr = sbe_RecordingDescriptor S then
             (case sbe_readRecordingDescriptor S (buffer f) (offset f + sbe_headerLength S)
                     (blockLength hdr) (version hdr) of
                Inl e \<Rightarrow> (Inl e, d, tr)
              | Inr msg \<Rightarrow>
                  (if dp_controlSessionId d = rd_controlSessionId msg \<and> dp_correlationId d = rd_correlationId msg then
                     (case rd_body msg of
                        Inl e \<Rightarrow> (Inl e, d, tr)
                      | Inr body \<Rightarrow>
                          (case call_callback E (Consumer (dp_consumer d) (dp_controlSessionId d)
                                                   (dp_correlationId d) body) tr of
                             (Inl e, tr1) \<Rightarrow> (Inl e, d, tr1)
                           | (Inr _, tr1) \<Rightarrow>
                               (let d1 = d\<lparr>dp_remainingRecordCount := dp_remainingRecordCount d - 1\<rparr>
                                in if dp_remainingRecordCount d1 = 0
                                   then (Inr BREAK, d1\<lparr>dp_isDispatchComplete := True\<rparr>, tr1)
                                   else (Inr CONTINUE, d1, tr1))))
                   else (Inr CONTINUE, d, tr)))
           else (Inl (unknown_template (templateId hdr)), d, tr)))"

definition descriptor_poll ::
  "sbe \<Rightarrow> env \<Rightarrow> recording_descriptor_poller \<Rightarrow> trace \<Rightarrow>
     int32 result \<times> recording_descriptor_poller \<times> trace" where
  "descriptor_poll S E d tr =
     controlledPoll E (descriptor_onFragment S E) (dp_fragmentLimit d)
       (d\<lparr>dp_isDispatchComplete := False\<rparr>) tr"

section \<open>What a message means to a request\<close>

text \<open>The descriptor that a message carries for a session and correlation id, if it does.\<close>

definition descriptor_for :: "sbe \<Rightarrow> int64 \<Rightarrow> int64 \<Rightarrow> fragment \<Rightarrow> descriptor_body option" where
  "descriptor_for S cs corr f =
     (case sbe_readHeader S (buffer f) (offset f) of
        Inl _ \<Rightarrow> None
      | Inr hdr \<Rightarrow>
          if templateId hdr \<noteq> sbe_ControlResponse S \<and> templateId hdr = sbe_RecordingDescriptor S then
            (case sbe_readRecordingDescriptor S (buffer f) (offset f + sbe_headerLength S)
                    (blockLength hdr) (version hdr) of
               Inl _ \<Rightarrow> None
             | Inr msg \<Rightarrow>
                 if rd_controlSessionId msg = cs \<and> rd_correlationId msg = corr
                 then (case rd_body msg of Inl _ \<Rightarrow> None | Inr body \<Rightarrow> Some body) else None)
          else None)"

text \<open>The answer that there are no (more) such recordings.\<close>

definition recording_unknown :: "sbe \<Rightarrow> int64 \<Rightarrow> int64 \<Rightarrow> fragment \<Rightarrow> bool" where
  "recording_unknown S cs corr f \<longleftrightarrow>
     (case sbe_readHeader S (buffer f) (offset f) of
        Inl _ \<Rightarrow> False
      | Inr hdr \<Rightarrow>
          templateId hdr = sbe_ControlResponse S \<and>
          (case sbe_readControlResponse S (buffer f) (offset f + sbe_headerLength S)
                  (blockLength hdr) (version hdr) of
             Inl _ \<Rightarrow> False
           | Inr msg \<Rightarrow> cr_controlSessionId msg = cs \<and> cr_correlationId msg = corr \<and>
               cr_code msg = Inr (code_RECORDING_UNKNOWN S)))"

section \<open>What a history says\<close>

text \<open>A call of a consumer, with its arguments.\<close>

fun consumption :: "event \<Rightarrow> (nat \<times> int64 \<times> int64 \<times> descriptor_body) option" where
  "consumption (Called (Consumer c cs corr body)) = Some (c, cs, corr, body)"
| "consumption _ = None"

definition consumptions :: "trace \<Rightarrow> (nat \<times> int64 \<times> int64 \<times> descriptor_body) list" where
  "consumptions tr = List.map_filter consumption tr"

lemma consumptions_simps [simp]:
  "consumptions [] = []"
  "consumptions (e # tr) = (case consumption e of None \<Rightarrow> consumptions tr | Some x \<Rightarrow> x # consumptions tr)"
  "consumptions (xs @ ys) = consumptions xs @ consumptions ys"
  by (simp_all add: consumptions_def List.map_filter_def split: option.split)

text \<open>How many calls of a consumer have returned without an exception.\<close>

fun returned_calls :: "env \<Rightarrow> trace \<Rightarrow> nat" where
  "returned_calls E [] = 0"
| "returned_calls E (e # tr) =
     (if consumption e \<noteq> None \<and> env_callback E (e # tr) = None then 1 else 0) + returned_calls E tr"

text \<open>
  The account of the poller since the history \<open>tr0\<close>: the consumer was called, in order, with
  exactly the descriptors delivered for the request, and the counter went down by the number
  of calls that returned.
\<close>

definition same_request :: "recording_descriptor_poller \<Rightarrow> recording_descriptor_poller \<Rightarrow> bool" where
  "same_request d0 d \<longleftrightarrow>
     dp_fragmentLimit d = dp_fragmentLimit d0 \<and> dp_controlSessionId d = dp_controlSessionId d0 \<and>
     dp_correlationId d = dp_correlationId d0 \<and> dp_consumer d = dp_consumer d0"

definition accounted ::
  "sbe \<Rightarrow> env \<Rightarrow> recording_descriptor_poller \<Rightarrow> trace \<Rightarrow> recording_descriptor_poller \<Rightarrow> trace \<Rightarrow> bool" where
  "accounted S E d0 tr0 d tr \<longleftrightarrow>
     same_request d0 d \<and>
     (\<exists>es. tr = es @ tr0 \<and>
        consumptions es =
          map (\<lambda>body. (dp_consumer d0, dp_controlSessionId d0, dp_correlationId d0, body))
            (List.map_filter (descriptor_for S (dp_controlSessionId d0) (dp_correlationId d0)) (deliveries es))) \<and>
     dp_remainingRecordCount d + word_of_nat (returned_calls E tr) =
       dp_remainingRecordCount d0 + word_of_nat (returned_calls E tr0)"

section \<open>The handler\<close>

text \<open>The cases of the handler, by what the message means to the request.\<close>

lemma descriptor_onFragment_cases:
  assumes "descriptor_onFragment S E d f tr = (x, d', tr')"
  obtains
    (consumed) body where "descriptor_for S (dp_controlSessionId d) (dp_correlationId d) f = Some body"
      "tr' = Called (Consumer (dp_consumer d) (dp_controlSessionId d) (dp_correlationId d) body) # tr"
      "env_callback E tr' = None"
      "d' = d\<lparr>dp_remainingRecordCount := dp_remainingRecordCount d - 1,
              dp_isDispatchComplete := dp_isDispatchComplete d \<or> dp_remainingRecordCount d = 1\<rparr>"
      "x = Inr (if dp_remainingRecordCount d = 1 then BREAK else CONTINUE)"
  | (thrown) body e where "descriptor_for S (dp_controlSessionId d) (dp_correlationId d) f = Some body"
      "tr' = Called (Consumer (dp_consumer d) (dp_controlSessionId d) (dp_correlationId d) body) # tr"
      "env_callback E tr' = Some e" "d' = d" "x = Inl e"
  | (unknown) "descriptor_for S (dp_controlSessionId d) (dp_correlationId d) f = None"
      "recording_unknown S (dp_controlSessionId d) (dp_correlationId d) f" "tr' = tr"
      "d' = d\<lparr>dp_isDispatchComplete := True\<rparr>" "x = Inr BREAK"
  | (other) "descriptor_for S (dp_controlSessionId d) (dp_correlationId d) f = None" "tr' = tr" "d' = d"
      "x = Inr CONTINUE \<or> (\<exists>e. x = Inl e)"
proof -
  note simps = descriptor_onFragment_def descriptor_for_def recording_unknown_def call_defs Let_def
  show thesis
  proof (cases "descriptor_for S (dp_controlSessionId d) (dp_correlationId d) f")
    case (Some body)
    note found = this
    show thesis
    proof (cases "env_callback E (Called (Consumer (dp_consumer d) (dp_controlSessionId d)
        (dp_correlationId d) body) # tr)")
      case None
      with found assms show thesis
        by (intro consumed [of body]) (auto simp: simps split: sum.splits if_splits)
    next
      case (Some e)
      with found assms show thesis
        by (intro thrown [of body e]) (auto simp: simps split: sum.splits if_splits)
    qed
  next
    case None
    show thesis
    proof (cases "x = Inr BREAK")
      case True
      with None assms show thesis
        by (intro unknown) (auto simp: simps split: sum.splits if_splits option.splits)
    next
      case False
      with None assms show thesis
        by (intro other) (auto simp: simps split: sum.splits if_splits option.splits)
    qed
  qed
qed

section \<open>The account of a poll\<close>

lemma poll_event_silent:
  "poll_event e \<Longrightarrow> \<not> is_delivery e \<Longrightarrow> delivery e = None \<and> consumption e = None"
  by (cases e) auto

lemma accounted_refl: "accounted S E d tr d tr"
  by (auto simp: accounted_def same_request_def List.map_filter_simps intro!: exI [of _ "[]"])

lemma accounted_complete [simp]:
  "accounted S E d0 tr0 (d\<lparr>dp_isDispatchComplete := b\<rparr>) tr = accounted S E d0 tr0 d tr"
  by (simp add: accounted_def same_request_def)

lemma accounted_silent:
  assumes "accounted S E d0 tr0 d tr" and "consumption e = None"
    and "\<forall>f. delivery e = Some f \<longrightarrow>
           descriptor_for S (dp_controlSessionId d0) (dp_correlationId d0) f = None"
  shows "accounted S E d0 tr0 d (e # tr)"
proof -
  obtain es where "tr = es @ tr0" "consumptions es =
      map (\<lambda>body. (dp_consumer d0, dp_controlSessionId d0, dp_correlationId d0, body))
        (List.map_filter (descriptor_for S (dp_controlSessionId d0) (dp_correlationId d0)) (deliveries es))"
    using assms(1) by (auto simp: accounted_def)
  then show ?thesis
    using assms unfolding accounted_def
    by (intro conjI exI [of _ "e # es"])
      (auto simp: List.map_filter_simps split: option.split)
qed

lemma accounted_call:
  assumes acc: "accounted S E d0 tr0 d tr"
    and f: "descriptor_for S (dp_controlSessionId d) (dp_correlationId d) f = Some body"
    and tr': "tr' = Called (Consumer (dp_consumer d) (dp_controlSessionId d) (dp_correlationId d) body)
                # Delivered f # tr"
  shows "accounted S E d0 tr0
     (if env_callback E tr' = None
      then d\<lparr>dp_remainingRecordCount := dp_remainingRecordCount d - 1\<rparr> else d) tr'"
proof -
  have same: "same_request d0 d"
    and count: "dp_remainingRecordCount d + word_of_nat (returned_calls E tr) =
       dp_remainingRecordCount d0 + word_of_nat (returned_calls E tr0)"
    using acc by (auto simp: accounted_def)
  obtain es where es: "tr = es @ tr0" "consumptions es =
      map (\<lambda>body. (dp_consumer d0, dp_controlSessionId d0, dp_correlationId d0, body))
        (List.map_filter (descriptor_for S (dp_controlSessionId d0) (dp_correlationId d0)) (deliveries es))"
    using acc by (auto simp: accounted_def)
  let ?call = "Called (Consumer (dp_consumer d) (dp_controlSessionId d) (dp_correlationId d) body)"
  have "tr' = (?call # Delivered f # es) @ tr0" by (simp add: tr' es)
  moreover have "consumptions (?call # Delivered f # es) =
      map (\<lambda>body. (dp_consumer d0, dp_controlSessionId d0, dp_correlationId d0, body))
        (List.map_filter (descriptor_for S (dp_controlSessionId d0) (dp_correlationId d0))
          (deliveries (?call # Delivered f # es)))"
    using es f same by (simp add: same_request_def List.map_filter_simps)
  ultimately show ?thesis
    using same count unfolding accounted_def
    by (intro conjI exI [of _ "?call # Delivered f # es"]) (auto simp: same_request_def tr' algebra_simps)
qed

lemma accounted_onFragment:
  assumes acc: "accounted S E d0 tr0 d tr" and h: "descriptor_onFragment S E d f (Delivered f # tr) = (x, d', tr')"
  shows "accounted S E d0 tr0 d' tr'"
proof -
  have same: "same_request d0 d" using acc by (simp add: accounted_def)
  from h show ?thesis
  proof (cases rule: descriptor_onFragment_cases)
    case (consumed body)
    have "d' = (d\<lparr>dp_remainingRecordCount := dp_remainingRecordCount d - 1\<rparr>)
        \<lparr>dp_isDispatchComplete := dp_isDispatchComplete d \<or> dp_remainingRecordCount d = 1\<rparr>"
      using consumed(4) by simp
    then show ?thesis
      using accounted_call [OF acc consumed(1,2)] consumed(3) by (simp only: accounted_complete) simp
  next
    case (thrown body e)
    then show ?thesis using accounted_call [OF acc thrown(1,2)] by simp
  next
    case unknown
    then show ?thesis using accounted_silent [OF acc, of "Delivered f"] same by (simp add: same_request_def)
  next
    case other
    then show ?thesis using accounted_silent [OF acc, of "Delivered f"] same by (simp add: same_request_def)
  qed
qed

interpretation dispatch_account: fragment_handler "descriptor_onFragment S E" "accounted S E d0 tr0"
  for S E d0 tr0
  by unfold_locales (auto intro: accounted_silent accounted_onFragment dest!: poll_event_silent)

text \<open>While the dispatch is not complete, and why it is when it is.\<close>

definition dispatch_done ::
  "sbe \<Rightarrow> recording_descriptor_poller \<Rightarrow> trace \<Rightarrow> recording_descriptor_poller \<Rightarrow> trace \<Rightarrow> bool" where
  "dispatch_done S d0 tr0 d tr \<longleftrightarrow>
     dp_remainingRecordCount d = 0 \<or>
     (\<exists>es. tr = es @ tr0 \<and>
        (\<exists>f \<in> set (deliveries es). recording_unknown S (dp_controlSessionId d0) (dp_correlationId d0) f))"

interpretation dispatch_end: stopping_handler "descriptor_onFragment S E"
  "\<lambda>d tr. accounted S E d0 tr0 d tr \<and> \<not> dp_isDispatchComplete d"
  "\<lambda>d tr. accounted S E d0 tr0 d tr \<and> dispatch_done S d0 tr0 d tr"
  for S E d0 tr0
proof unfold_locales
  fix e s and tr :: trace
  assume e: "poll_event e" "\<not> is_delivery e"
  show "accounted S E d0 tr0 s (e # tr) \<and> \<not> dp_isDispatchComplete s"
    if "accounted S E d0 tr0 s tr \<and> \<not> dp_isDispatchComplete s"
    using that dispatch_account.inv_poll_event [OF e] by blast
  show "accounted S E d0 tr0 s (e # tr) \<and> dispatch_done S d0 tr0 s (e # tr)"
    if st: "accounted S E d0 tr0 s tr \<and> dispatch_done S d0 tr0 s tr"
  proof -
    have "dispatch_done S d0 tr0 s (e # tr)"
      using st poll_event_silent [OF e] unfolding dispatch_done_def
      by (metis append_Cons deliveries_simps(2) option.simps(4))
    then show ?thesis using st dispatch_account.inv_poll_event [OF e] by blast
  qed
next
  fix s f r s' and tr tr' :: trace
  assume inv: "accounted S E d0 tr0 s tr \<and> \<not> dp_isDispatchComplete s"
  show "accounted S E d0 tr0 s' tr' \<and> \<not> dp_isDispatchComplete s'"
    if h: "descriptor_onFragment S E s f (Delivered f # tr) = (r, s', tr')" and "r \<noteq> Inr BREAK"
  proof -
    from h have "\<not> dp_isDispatchComplete s'"
      by (cases rule: descriptor_onFragment_cases) (use inv that(2) in auto)
    then show ?thesis using accounted_onFragment [OF _ h] inv by blast
  qed
  show "accounted S E d0 tr0 s' tr' \<and> dispatch_done S d0 tr0 s' tr'"
    if h: "descriptor_onFragment S E s f (Delivered f # tr) = (Inr BREAK, s', tr')"
  proof -
    obtain es where es: "tr = es @ tr0" and same: "same_request d0 s"
      using inv by (auto simp: accounted_def)
    from h have "dispatch_done S d0 tr0 s' tr'"
    proof (cases rule: descriptor_onFragment_cases)
      case unknown
      then show ?thesis
        using es same by (auto simp: dispatch_done_def same_request_def intro!: exI [of _ "Delivered f # es"])
    qed (auto simp: dispatch_done_def split: if_splits)
    then show ?thesis using accounted_onFragment [OF _ h] inv by blast
  qed
qed

lemma descriptor_poll_accounted:
  assumes "accounted S E d0 tr0 d tr" and "descriptor_poll S E d tr = (x, d', tr')"
  shows "accounted S E d0 tr0 d' tr'"
proof (rule dispatch_account.inv_controlledPoll)
  show "controlledPoll E (descriptor_onFragment S E) (dp_fragmentLimit d)
      (d\<lparr>dp_isDispatchComplete := False\<rparr>) tr = (x, d', tr')"
    using assms(2) by (simp add: descriptor_poll_def)
qed (use assms(1) in simp)

lemma descriptor_poll_done:
  assumes "break_stops E" and "accounted S E d0 tr0 d tr" and "descriptor_poll S E d tr = (x, d', tr')"
    and "dp_isDispatchComplete d'"
  shows "dispatch_done S d0 tr0 d' tr'"
proof -
  have "accounted S E d0 tr0 d' tr' \<and> \<not> dp_isDispatchComplete d' \<or>
      accounted S E d0 tr0 d' tr' \<and> dispatch_done S d0 tr0 d' tr'"
  proof (rule dispatch_end.ends [OF assms(1)])
    show "controlledPoll E (descriptor_onFragment S E) (dp_fragmentLimit d)
        (d\<lparr>dp_isDispatchComplete := False\<rparr>) tr = (x, d', tr')"
      using assms(3) by (simp add: descriptor_poll_def)
  qed (use assms(2) in simp)
  then show ?thesis using assms(4) by blast
qed

section \<open>Correctness\<close>

text \<open>
  C30: One poll for descriptors dispatches exactly what was delivered. The consumer of the request
  is called once for each delivered descriptor that carries the session and correlation id of
  the request and decodes, in the order of delivery, with the fields of that descriptor, and
  for nothing else; the remaining count has gone down by the number of calls that returned.
  Neither the session, the correlation id, the consumer nor the fragment limit changes.
\<close>

theorem descriptor_poll_dispatches:
  "case descriptor_poll S E d tr of (x, d', tr') \<Rightarrow>
     same_request d d' \<and>
     (\<exists>es. tr' = es @ tr \<and>
        consumptions es =
          map (\<lambda>body. (dp_consumer d, dp_controlSessionId d, dp_correlationId d, body))
            (List.map_filter (descriptor_for S (dp_controlSessionId d) (dp_correlationId d)) (deliveries es))) \<and>
     dp_remainingRecordCount d' + word_of_nat (returned_calls E tr') =
       dp_remainingRecordCount d + word_of_nat (returned_calls E tr)"
  using descriptor_poll_accounted [OF accounted_refl, of S E d tr]
  by (auto simp: accounted_def split: prod.split)

end
