(* ===== verification/ArchivePolling.thy ===== *)
theory ArchivePolling
  imports Context RecordingDescriptorPoller
begin

text \<open>
  The waiting loops of the archive client (\<^verbatim>\<open>src/AeronArchive.cpp\<close>, the private functions):
  for the connection and the opening of the session, for a response, and for descriptors. Each
  is a \<open>loop\<close>, so each function is an option whose \<open>None\<close> means that it does not return. The
  fields of the client that a function reads are its arguments.
\<close>

section \<open>Waiting for a response\<close>

text \<open>
  One pass of the loop of \<open>pollNextResponse\<close>. The poller and the history are the state; an
  exception of the poll itself leaves the loop.
\<close>

definition next_step ::
  "sbe \<Rightarrow> env \<Rightarrow> int64 \<Rightarrow> int64 \<Rightarrow> control_response_poller \<times> trace \<Rightarrow>
     (control_response_poller \<times> trace + unit result \<times> control_response_poller \<times> trace) option" where
  "next_step S E correlationId deadline = (\<lambda>(p, tr).
     case response_poll S E p tr of
       (Inl e, p1, tr1) \<Rightarrow> Some (Inr (Inl e, p1, tr1))
     | (Inr fragments, p1, tr1) \<Rightarrow>
         Some (if response_isPollComplete p1 then Inr (Inr (), p1, tr1)
               else if 0 <s fragments then Inl (p1, tr1)
               else
                 (case call_isConnected E tr1 of (connected, tr2) \<Rightarrow>
                    if \<not> connected then
                      Inr (Inl (ArchiveException ''subscription to archive is not connected''), p1, tr2)
                    else
                      (case call_now E tr2 of (now, tr3) \<Rightarrow>
                         if deadline <s now then
                           Inr (Inl (ArchiveException (''awaiting response for correlationId='' @
                                       to_string (sint correlationId))), p1, tr3)
                         else Inl (p1, call_invoke (call_idle tr3))))))"

definition pollNextResponse ::
  "sbe \<Rightarrow> env \<Rightarrow> int64 \<Rightarrow> int64 \<Rightarrow> control_response_poller \<Rightarrow> trace \<Rightarrow>
     (unit result \<times> control_response_poller \<times> trace) option" where
  "pollNextResponse S E correlationId deadline p tr =
     loop (next_step S E correlationId deadline) (p, tr)"

definition response_error :: "int64 \<Rightarrow> control_response_poller \<Rightarrow> exn" where
  "response_error correlationId p =
     ArchiveException (''response for correlation id: '' @ to_string (sint correlationId) @
       '', error: '' @ response_errorMessage p @ '', relevant id: '' @ to_string (sint (response_relevantId p)))"

definition unexpected_code :: "control_response_poller \<Rightarrow> exn" where
  "unexpected_code p = ArchiveException (''unexpected response: code='' @ to_string (sint (response_code p)))"

definition response_step ::
  "sbe \<Rightarrow> env \<Rightarrow> int64 \<Rightarrow> int64 \<Rightarrow> int64 \<Rightarrow> control_response_poller \<times> trace \<Rightarrow>
     (control_response_poller \<times> trace + int64 result \<times> control_response_poller \<times> trace) option" where
  "response_step S E controlSessionId correlationId deadline = (\<lambda>(p, tr).
     case pollNextResponse S E correlationId deadline p tr of
       None \<Rightarrow> None
     | Some (Inl e, p1, tr1) \<Rightarrow> Some (Inr (Inl e, p1, tr1))
     | Some (Inr _, p1, tr1) \<Rightarrow>
         Some (if response_controlSessionId p1 \<noteq> controlSessionId \<or>
                  response_templateId p1 \<noteq> ucast (sbe_ControlResponse S) then Inl (p1, call_invoke tr1)
               else if response_code p1 = code_ERROR S then Inr (Inl (response_error correlationId p1), p1, tr1)
               else if correlationId = response_correlationId p1 then
                 (if response_code p1 \<noteq> code_OK S then Inr (Inl (unexpected_code p1), p1, tr1)
                  else Inr (Inr (response_relevantId p1), p1, tr1))
               else Inl (p1, tr1)))"

definition pollForResponse ::
  "sbe \<Rightarrow> env \<Rightarrow> int64 \<Rightarrow> int64 \<Rightarrow> int64 \<Rightarrow> control_response_poller \<Rightarrow> trace \<Rightarrow>
     (int64 result \<times> control_response_poller \<times> trace) option" where
  "pollForResponse S E timeoutNs controlSessionId correlationId p tr =
     (case call_now E tr of (now, tr1) \<Rightarrow>
        loop (response_step S E controlSessionId correlationId (now + timeoutNs)) (p, tr1))"

section \<open>Opening the session\<close>

definition connection_step ::
  "env \<Rightarrow> string \<Rightarrow> int32 \<Rightarrow> int64 \<Rightarrow> trace \<Rightarrow> (trace + unit result \<times> trace) option" where
  "connection_step E channel streamId deadline tr =
     (case call_isConnected E tr of (connected, tr1) \<Rightarrow>
        Some (if connected then Inr (Inr (), tr1)
              else
                (case call_now E tr1 of (now, tr2) \<Rightarrow>
                   if deadline <s now then
                     Inr (Inl (ArchiveException (''failed to establish response connection on '' @ channel @
                                 '', stream id: '' @ to_string (sint streamId))), tr2)
                   else Inl (call_invoke (call_idle tr2)))))"

definition awaitConnection ::
  "env \<Rightarrow> string \<Rightarrow> int32 \<Rightarrow> int64 \<Rightarrow> trace \<Rightarrow> (unit result \<times> trace) option" where
  "awaitConnection E channel streamId deadline tr = loop (connection_step E channel streamId deadline) tr"

definition session_step ::
  "sbe \<Rightarrow> env \<Rightarrow> int64 \<Rightarrow> int64 \<Rightarrow> control_response_poller \<times> trace \<Rightarrow>
     (control_response_poller \<times> trace + int64 result \<times> control_response_poller \<times> trace) option" where
  "session_step S E correlationId deadline = (\<lambda>(p, tr).
     case pollNextResponse S E correlationId deadline p tr of
       None \<Rightarrow> None
     | Some (Inl e, p1, tr1) \<Rightarrow> Some (Inr (Inl e, p1, tr1))
     | Some (Inr _, p1, tr1) \<Rightarrow>
         Some (if response_correlationId p1 \<noteq> correlationId \<or>
                  response_templateId p1 \<noteq> ucast (sbe_ControlResponse S) then Inl (p1, call_invoke tr1)
               else if response_code p1 \<noteq> code_OK S then
                 (if response_code p1 = code_ERROR S then
                    Inr (Inl (ArchiveException (''unexpected response: '' @ response_errorMessage p1 @
                                '', relevant id: '' @ to_string (sint (response_relevantId p1)))), p1, tr1)
                  else Inr (Inl (unexpected_code p1), p1, tr1))
               else Inr (Inr (response_controlSessionId p1), p1, tr1)))"

definition awaitSessionOpened ::
  "sbe \<Rightarrow> env \<Rightarrow> archive_context \<Rightarrow> int64 \<Rightarrow> int64 \<Rightarrow> control_response_poller \<Rightarrow> trace \<Rightarrow>
     (int64 result \<times> control_response_poller \<times> trace) option" where
  "awaitSessionOpened S E ctx timeoutNs correlationId p tr =
     (case call_now E tr of (now, tr1) \<Rightarrow>
        let deadline = now + timeoutNs
        in case awaitConnection E (get_controlResponseChannel ctx) (get_controlResponseStreamId ctx) deadline tr1 of
             None \<Rightarrow> None
           | Some (Inl e, tr2) \<Rightarrow> Some (Inl e, p, tr2)
           | Some (Inr _, tr2) \<Rightarrow> loop (session_step S E correlationId deadline) (p, tr2))"

section \<open>Waiting for descriptors\<close>

text \<open>The state is the poller with the two local variables, and the history.\<close>

definition descriptors_step ::
  "sbe \<Rightarrow> env \<Rightarrow> int64 \<Rightarrow> int64 \<Rightarrow> int32 \<Rightarrow> (recording_descriptor_poller \<times> int32 \<times> int64) \<times> trace \<Rightarrow>
     ((recording_descriptor_poller \<times> int32 \<times> int64) \<times> trace +
      int64 result \<times> recording_descriptor_poller \<times> trace) option" where
  "descriptors_step S E timeoutNs correlationId recordCount =
     (\<lambda>((d, existingRemainCount, deadline), tr).
     case descriptor_poll S E d tr of
       (Inl e, d1, tr1) \<Rightarrow> Some (Inr (Inl e, d1, tr1))
     | (Inr fragments, d1, tr1) \<Rightarrow>
         (let remaining = descriptor_remainingRecordCount d1
          in if descriptor_isDispatchComplete d1 then Some (Inr (Inr (scast (recordCount - remaining)), d1, tr1))
             else
               (case (if existingRemainCount \<noteq> remaining
                      then (case call_now E tr1 of (now, t) \<Rightarrow> (remaining, now + timeoutNs, t))
                      else (existingRemainCount, deadline, tr1)) of
                  (existing', deadline', tr2) \<Rightarrow>
                    let tr3 = call_invoke tr2
                    in if 0 <s fragments then Some (Inl ((d1, existing', deadline'), tr3))
                       else
                         (case call_isConnected E tr3 of (connected, tr4) \<Rightarrow>
                            if \<not> connected then
                              Some (Inr (Inl (ArchiveException ''subscription to archive is not connected''), d1, tr4))
                            else
                              (case call_now E tr4 of (now, tr5) \<Rightarrow>
                                 if deadline' <s now then
                                   Some (Inr (Inl (ArchiveException
                                     (''awaiting recording descriptors: correlationId='' @
                                      to_string (sint correlationId))), d1, tr5))
                                 else Some (Inl ((d1, existing', deadline'), call_idle tr5)))))))"

definition pollForDescriptors ::
  "sbe \<Rightarrow> env \<Rightarrow> int64 \<Rightarrow> int64 \<Rightarrow> int32 \<Rightarrow> nat \<Rightarrow> recording_descriptor_poller \<Rightarrow> trace \<Rightarrow>
     (int64 result \<times> recording_descriptor_poller \<times> trace) option" where
  "pollForDescriptors S E timeoutNs correlationId recordCount consumer d tr =
     (case call_now E tr of (now, tr1) \<Rightarrow>
        loop (descriptors_step S E timeoutNs correlationId recordCount)
          ((descriptor_reset correlationId recordCount consumer d, recordCount, now + timeoutNs), tr1))"

section \<open>What happens while waiting\<close>

fun waiting_event :: "event \<Rightarrow> bool" where
  "waiting_event (ConnectedRead _) = True"
| "waiting_event (ClockRead _) = True"
| "waiting_event Idled = True"
| "waiting_event Invoked = True"
| "waiting_event e = poll_event e"

lemma waiting_poll_event: "poll_event e \<Longrightarrow> waiting_event e"
  by (cases e) simp_all

text \<open>The history went on from \<open>tr0\<close> by waiting only, and every message delivered was a \<open>P\<close>.\<close>

definition waited :: "(fragment \<Rightarrow> bool) \<Rightarrow> trace \<Rightarrow> trace \<Rightarrow> bool" where
  "waited P tr0 tr \<longleftrightarrow>
     (\<exists>es. tr = es @ tr0 \<and> list_all waiting_event es \<and> (\<forall>f \<in> set (deliveries es). P f))"

lemma waited_refl [simp]: "waited P tr tr"
  by (auto simp: waited_def intro!: exI [of _ "[]"])

lemma waited_append:
  "waited P tr0 tr \<Longrightarrow> list_all waiting_event es \<Longrightarrow> \<forall>f \<in> set (deliveries es). P f \<Longrightarrow> waited P tr0 (es @ tr)"
  unfolding waited_def by (elim exE conjE, rule_tac x = "es @ esa" in exI) auto

lemma waited_trans: "waited P a b \<Longrightarrow> waited P b c \<Longrightarrow> waited P a c"
  unfolding waited_def by (elim exE conjE, rule_tac x = "esa @ es" in exI) auto

lemma waited_mono: "waited P a b \<Longrightarrow> (\<And>f. P f \<Longrightarrow> Q f) \<Longrightarrow> waited Q a b"
  unfolding waited_def by blast

lemma waited_event:
  "waited P tr0 tr \<Longrightarrow> waiting_event e \<Longrightarrow> delivery e = None \<Longrightarrow> waited P tr0 (e # tr)"
  using waited_append [of P tr0 tr "[e]"] by simp

lemma waited_extends: "waited P tr0 tr \<Longrightarrow> extends tr0 tr"
  by (auto simp: waited_def extends_def)

text \<open>A message the poller throws on.\<close>

definition undecodable :: "sbe \<Rightarrow> fragment \<Rightarrow> bool" where
  "undecodable S f \<longleftrightarrow> (\<exists>e. read_response S f = Inl e)"

text \<open>
  Why waiting ends without an answer: the handler's exception for the last message came through,
  the subscription is no longer connected, or the clock was read past the deadline.
\<close>

definition wait_failed :: "sbe \<Rightarrow> int64 \<Rightarrow> exn \<Rightarrow> trace \<Rightarrow> bool" where
  "wait_failed S deadline e tr \<longleftrightarrow>
     (\<exists>f n es. tr = Raised e # Delivered f # PollStarted n # es \<and> read_response S f = Inl e) \<or>
     (\<exists>es. tr = ConnectedRead False # es \<and> e = ArchiveException ''subscription to archive is not connected'') \<or>
     (\<exists>t es. tr = ClockRead t # es \<and> deadline <s t)"

section \<open>The next message\<close>

text \<open>The poller shows the message \<open>f\<close>, which decodes.\<close>

definition shows_message :: "sbe \<Rightarrow> control_response_poller \<Rightarrow> fragment \<Rightarrow> bool" where
  "shows_message S p f \<longleftrightarrow>
     (case read_response S f of
        Inl _ \<Rightarrow> False
      | Inr None \<Rightarrow> cp_templateId p = - 1
      | Inr (Some m) \<Rightarrow> cp_templateId p = ucast (sbe_ControlResponse S) \<and> shown p = m)"

lemma response_poll_waited:
  assumes "break_stops E" and "0 <s cp_fragmentLimit p" and poll: "response_poll S E p tr = (x, p1, tr1)"
  shows "cp_fragmentLimit p1 = cp_fragmentLimit p" and "length tr < length tr1" and
    "case x of
       Inl e \<Rightarrow> waited (undecodable S) tr tr1 \<and> wait_failed S deadline e tr1
     | Inr n \<Rightarrow>
         if cp_isPollComplete p1
         then \<exists>f es. shows_message S p1 f \<and> tr1 = es @ tr \<and> list_all waiting_event es \<and> deliveries es = [f]
         else waited (undecodable S) tr tr1"
proof -
  let ?m = "next_message E (cp_fragmentLimit p) tr"
  have seen: "poll_shows S ?m x p1" using response_poll_message [OF assms] by blast
  obtain es where es: "tr1 = es @ tr" "es \<noteq> []" "list_all poll_event es"
      "deliveries es = (case ?m of None \<Rightarrow> [] | Some f \<Rightarrow> [f])"
    using response_poll_message [OF assms] by blast
  have raised: "\<exists>f. tr1 = Raised e # Delivered f # PollStarted (cp_fragmentLimit p) # tr \<and>
      read_response S f = Inl e" if "x = Inl e" for e
    using response_poll_message [OF assms] that by simp
  have waiting: "list_all waiting_event es"
    using es(3) by (auto simp: list_all_iff intro: waiting_poll_event)
  show "cp_fragmentLimit p1 = cp_fragmentLimit p" using response_poll_quiet [OF poll] by blast
  show "length tr < length tr1" using es(1,2) by simp
  show "case x of
       Inl e \<Rightarrow> waited (undecodable S) tr tr1 \<and> wait_failed S deadline e tr1
     | Inr n \<Rightarrow>
         if cp_isPollComplete p1
         then \<exists>f es. shows_message S p1 f \<and> tr1 = es @ tr \<and> list_all waiting_event es \<and> deliveries es = [f]
         else waited (undecodable S) tr tr1"
  proof (cases ?m)
    case None
    then show ?thesis
      using seen es waiting by (auto simp: poll_shows_def waited_def)
  next
    case (Some f)
    show ?thesis
    proof (cases "read_response S f")
      case (Inl e)
      then show ?thesis
        using seen es waiting Some raised
        by (auto simp: poll_shows_def waited_def undecodable_def wait_failed_def)
    next
      case (Inr m)
      then show ?thesis
        using seen es waiting Some
        by (cases m) (auto simp: poll_shows_def shows_message_def shows_response_def)
    qed
  qed
qed

definition next_outcome ::
  "sbe \<Rightarrow> int64 \<Rightarrow> trace \<Rightarrow> int32 \<Rightarrow> unit result \<times> control_response_poller \<times> trace \<Rightarrow> bool" where
  "next_outcome S deadline tr limit = (\<lambda>(x, p1, tr1).
     cp_fragmentLimit p1 = limit \<and> length tr < length tr1 \<and>
     (case x of
        Inl e \<Rightarrow> waited (undecodable S) tr tr1 \<and> wait_failed S deadline e tr1
      | Inr _ \<Rightarrow> \<exists>f es tr'. shows_message S p1 f \<and> waited (undecodable S) tr tr' \<and>
          tr1 = es @ tr' \<and> list_all waiting_event es \<and> deliveries es = [f]))"

lemma pollNextResponse_outcome:
  assumes "break_stops E" and "0 <s cp_fragmentLimit p"
    and "pollNextResponse S E correlationId deadline p tr = Some r"
  shows "next_outcome S deadline tr (cp_fragmentLimit p) r"
  using assms(3) unfolding pollNextResponse_def
proof (rule loop_invariant [where I = "\<lambda>(p1, tr1). cp_fragmentLimit p1 = cp_fragmentLimit p \<and>
    waited (undecodable S) tr tr1"])
  show "case (p, tr) of (p1, tr1) \<Rightarrow> cp_fragmentLimit p1 = cp_fragmentLimit p \<and> waited (undecodable S) tr tr1"
    by simp
next
  fix s s'
  assume inv: "case s of (p1, tr1) \<Rightarrow> cp_fragmentLimit p1 = cp_fragmentLimit p \<and> waited (undecodable S) tr tr1"
    and step: "next_step S E correlationId deadline s = Some (Inl s')"
  obtain p1 tr1 x p2 tr2 where s: "s = (p1, tr1)" and poll: "response_poll S E p1 tr1 = (x, p2, tr2)"
    by (metis prod.exhaust)
  have lim: "0 <s cp_fragmentLimit p1" using inv assms(2) s by simp
  note facts = response_poll_waited(1,2) [OF assms(1) lim poll]
    response_poll_waited(3) [OF assms(1) lim poll, where deadline = deadline]
  obtain n where x: "x = Inr n" "\<not> cp_isPollComplete p2"
    using step s poll by (cases x) (auto simp: next_step_def split: if_splits)
  then have w: "waited (undecodable S) tr tr2"
    using facts(3) inv s waited_trans [of "undecodable S" tr tr1 tr2] by simp
  show "case s' of (p1, tr1) \<Rightarrow> cp_fragmentLimit p1 = cp_fragmentLimit p \<and> waited (undecodable S) tr tr1"
    using step s poll x facts(1) inv w
    by (auto simp: next_step_def call_defs Let_def split: if_splits intro!: waited_event)
next
  fix s r
  assume inv: "case s of (p1, tr1) \<Rightarrow> cp_fragmentLimit p1 = cp_fragmentLimit p \<and> waited (undecodable S) tr tr1"
    and step: "next_step S E correlationId deadline s = Some (Inr r)"
  obtain p1 tr1 x p2 tr2 where s: "s = (p1, tr1)" and poll: "response_poll S E p1 tr1 = (x, p2, tr2)"
    by (metis prod.exhaust)
  have lim: "0 <s cp_fragmentLimit p1" using inv assms(2) s by simp
  note facts = response_poll_waited(1,2) [OF assms(1) lim poll]
    response_poll_waited(3) [OF assms(1) lim poll, where deadline = deadline]
  have len: "length tr < length tr2"
    using facts(2) inv s extends_length [OF waited_extends, of "undecodable S" tr tr1] by simp
  show "next_outcome S deadline tr (cp_fragmentLimit p) r"
  proof (cases x)
    case (Inl e)
    then have "waited (undecodable S) tr tr2" "wait_failed S deadline e tr2"
      using facts(3) inv s waited_trans [of "undecodable S" tr tr1 tr2] by simp_all
    then show ?thesis
      using step s poll facts(1) inv len Inl by (auto simp: next_step_def next_outcome_def)
  next
    case (Inr n)
    show ?thesis
    proof (cases "cp_isPollComplete p2")
      case True
      then obtain f es where f: "shows_message S p2 f" "tr2 = es @ tr1" "list_all waiting_event es"
          "deliveries es = [f]"
        using facts(3) Inr by auto
      have "r = (Inr (), p2, tr2)" using step s poll Inr True by (auto simp: next_step_def)
      moreover have "cp_fragmentLimit p2 = cp_fragmentLimit p" "waited (undecodable S) tr tr1"
        using facts(1) inv s by simp_all
      ultimately show ?thesis
        using len f by (auto simp: next_outcome_def)
    next
      case False
      have w: "waited (undecodable S) tr tr2"
        using facts(3) inv s Inr False waited_trans [of "undecodable S" tr tr1 tr2] by simp
      then show ?thesis
        using step s poll facts inv len Inr False
        by (auto simp: next_step_def next_outcome_def call_defs Let_def wait_failed_def
            split: if_splits intro!: waited_event)
    qed
  qed
qed


text \<open>
  Once the clock has passed the deadline and no message arrives any more, the wait fails; so it
  ends in any case.
\<close>

lemma response_poll_quiet_time:
  assumes "break_stops E" and "0 <s cp_fragmentLimit p" and "quiet_after E M" and "M \<le> length tr"
    and "response_poll S E p tr = (x, p1, tr1)"
  shows "\<exists>n. x = Inr n \<and> \<not> 0 <s n \<and> \<not> cp_isPollComplete p1"
proof -
  have "next_message E (cp_fragmentLimit p) tr = None"
    using assms(3,4) by (simp add: next_message_def quiet_after_def)
  then obtain n where n: "x = Inr n" "\<not> cp_isPollComplete p1"
    using response_poll_message [OF assms(1,2,5)] by (auto simp: poll_shows_def)
  then obtain es where "n = env_pollResult E es" "length tr < length es"
    using response_poll_message [OF assms(1,2,5)] by auto
  then have "n \<le>s 0" using assms(3,4) by (simp add: quiet_after_def)
  then show ?thesis using n by (simp add: word_sle_eq word_sless_alt)
qed

lemma next_step_ends:
  assumes "break_stops E" and "0 <s cp_fragmentLimit p" and "quiet_after E M" and "clock_passes E deadline N"
    and "max M N \<le> length tr"
  shows "\<exists>e p1 tr1. next_step S E correlationId deadline (p, tr) = Some (Inr (Inl e, p1, tr1))"
proof -
  obtain x p1 tr1 where poll: "response_poll S E p tr = (x, p1, tr1)"
    by (metis prod.exhaust)
  obtain n where n: "x = Inr n" "\<not> 0 <s n" "\<not> cp_isPollComplete p1"
    using response_poll_quiet_time [OF assms(1-3) _ poll] assms(5) by auto
  have "length tr < length tr1" by (rule response_poll_waited(2) [OF assms(1,2) poll])
  then have "deadline <s env_now E (ConnectedRead c # tr1)" for c
    using assms(4,5) by (auto simp: clock_passes_def)
  then show ?thesis
    by (auto simp: next_step_def poll n call_defs Let_def)
qed

lemma next_step_goes_on:
  assumes "break_stops E" and "0 <s cp_fragmentLimit p"
    and "next_step S E correlationId deadline (p, tr) = Some (Inl (p1, tr1))"
  shows "cp_fragmentLimit p1 = cp_fragmentLimit p \<and> length tr < length tr1"
proof -
  obtain x p2 tr2 where poll: "response_poll S E p tr = (x, p2, tr2)"
    by (metis prod.exhaust)
  show ?thesis
    using assms(3) response_poll_waited(1,2) [OF assms(1,2) poll]
    by (auto simp: next_step_def poll call_defs Let_def split: sum.splits if_splits)
qed

lemma next_step_total: "next_step S E correlationId deadline s \<noteq> None"
  by (auto simp: next_step_def split: prod.splits sum.splits)

lemma pollNextResponse_returns:
  assumes "break_stops E" and "0 <s cp_fragmentLimit p" and "quiet_after E M" and "clock_passes E deadline N"
  shows "\<exists>r. pollNextResponse S E correlationId deadline p tr = Some r"
proof -
  have "\<exists>r. loop (next_step S E correlationId deadline) (p, tr) = Some r \<and> True"
  proof (rule loop_total [where I = "\<lambda>(p1, tr1). 0 <s cp_fragmentLimit p1"
        and m = "\<lambda>(p1, tr1). max M N - length tr1"])
    fix s :: "control_response_poller \<times> trace"
    assume inv: "case s of (p1, tr1) \<Rightarrow> 0 <s cp_fragmentLimit p1"
    obtain p1 tr1 where s: "s = (p1, tr1)" by fastforce
    have lim: "0 <s cp_fragmentLimit p1" using inv s by simp
    obtain y where y: "next_step S E correlationId deadline s = Some y"
      using next_step_total by blast
    show "(\<exists>s'. next_step S E correlationId deadline s = Some (Inl s') \<and>
          (case s' of (p1, tr1) \<Rightarrow> 0 <s cp_fragmentLimit p1) \<and>
          (case s' of (p1, tr1) \<Rightarrow> max M N - length tr1) < (case s of (p1, tr1) \<Rightarrow> max M N - length tr1)) \<or>
        (\<exists>r. next_step S E correlationId deadline s = Some (Inr r) \<and> True)"
    proof (cases y)
      case (Inl s')
      obtain p2 tr2 where s': "s' = (p2, tr2)" by fastforce
      have goes: "cp_fragmentLimit p2 = cp_fragmentLimit p1 \<and> length tr1 < length tr2"
        using next_step_goes_on [OF assms(1) lim] y Inl s s' by simp
      have "length tr1 < max M N"
        using next_step_ends [OF assms(1) lim assms(3,4), of tr1 S correlationId] y Inl s s' by force
      then show ?thesis using goes lim y Inl s s' by auto
    next
      case (Inr r)
      then show ?thesis using y by (cases r rule: prod_cases3) simp
    qed
  qed (use assms(2) in simp)
  then show ?thesis by (simp add: pollNextResponse_def)
qed

lemma pollNextResponse_late:
  assumes "break_stops E" and "0 <s cp_fragmentLimit p" and "quiet_after E M" and "clock_passes E deadline N"
    and "max M N \<le> length tr"
  shows "\<exists>e p1 tr1. pollNextResponse S E correlationId deadline p tr = Some (Inl e, p1, tr1)"
  using next_step_ends [OF assms, of S correlationId]
  by (auto simp: pollNextResponse_def loop_unfold)

section \<open>Waiting for a decisive message\<close>

text \<open>
  The newest message delivered is the first one that decides, and gives the result; or none
  decides and the wait failed.
\<close>

definition answered ::
  "sbe \<Rightarrow> int64 \<Rightarrow> (fragment \<Rightarrow> int64 result option) \<Rightarrow> trace \<Rightarrow>
     int64 result \<times> control_response_poller \<times> trace \<Rightarrow> bool" where
  "answered S deadline decide tr0 = (\<lambda>(r, p1, tr1).
     (\<exists>f fs es. tr1 = es @ tr0 \<and> list_all waiting_event es \<and> deliveries es = f # fs \<and>
        decide f = Some r \<and> (\<forall>g \<in> set fs. decide g = None)) \<or>
     waited (\<lambda>f. decide f = None) tr0 tr1 \<and> (\<exists>e. r = Inl e \<and> wait_failed S deadline e tr1))"

text \<open>
  The contract of a loop that takes message after message until one decides: what it does with a
  message depends on \<open>decide\<close> alone. The laws give the meaning of the loop (the first
  decisive message gives the result, the others are skipped), and that it ends.
\<close>

locale answer_loop =
  fixes S :: sbe and E :: env and correlationId :: int64 and deadline :: int64
    and step :: "control_response_poller \<times> trace \<Rightarrow>
      (control_response_poller \<times> trace + int64 result \<times> control_response_poller \<times> trace) option"
    and decide :: "fragment \<Rightarrow> int64 result option"
  assumes undecided: "undecodable S f \<Longrightarrow> decide f = None"
    and step_failed: "pollNextResponse S E correlationId deadline p tr = Some (Inl e, p1, tr1) \<Longrightarrow>
      step (p, tr) = Some (Inr (Inl e, p1, tr1))"
    and step_message: "pollNextResponse S E correlationId deadline p tr = Some (Inr u, p1, tr1) \<Longrightarrow>
      shows_message S p1 f \<Longrightarrow>
      (case decide f of
         None \<Rightarrow> \<exists>tr2. step (p, tr) = Some (Inl (p1, tr2)) \<and> (tr2 = tr1 \<or> tr2 = Invoked # tr1)
       | Some r \<Rightarrow> step (p, tr) = Some (Inr (r, p1, tr1)))"
    and step_stuck: "pollNextResponse S E correlationId deadline p tr = None \<Longrightarrow> step (p, tr) = None"
begin

lemma answered_pass:
  assumes "break_stops E" and "0 <s cp_fragmentLimit p"
    and inv: "waited (\<lambda>f. decide f = None) tr0 tr" and step: "step (p, tr) = Some y"
  shows "case y of
      Inl (p1, tr1) \<Rightarrow> cp_fragmentLimit p1 = cp_fragmentLimit p \<and> length tr < length tr1 \<and>
        waited (\<lambda>f. decide f = None) tr0 tr1
    | Inr r \<Rightarrow> answered S deadline decide tr0 r \<and> cp_fragmentLimit (fst (snd r)) = cp_fragmentLimit p"
proof (cases "pollNextResponse S E correlationId deadline p tr")
  case None
  then show ?thesis using step step_stuck by simp
next
  case (Some r)
  obtain x p1 tr1 where r: "r = (x, p1, tr1)" by (cases r rule: prod_cases3)
  note outcome = pollNextResponse_outcome [OF assms(1,2) Some]
  have frame: "cp_fragmentLimit p1 = cp_fragmentLimit p" "length tr < length tr1"
    using outcome by (auto simp: r next_outcome_def)
  have skip: "waited (\<lambda>f. decide f = None) tr0 tr'" if "waited (undecodable S) tr tr'" for tr'
    by (rule waited_trans [OF inv waited_mono [OF that undecided]])
  show ?thesis
  proof (cases x)
    case (Inl e)
    then have "waited (undecodable S) tr tr1" "wait_failed S deadline e tr1"
      using outcome by (auto simp: r next_outcome_def)
    then show ?thesis
      using step step_failed [OF Some [unfolded r Inl]] skip frame by (auto simp: answered_def)
  next
    case (Inr u)
    then obtain f es tr' where f: "shows_message S p1 f" "waited (undecodable S) tr tr'"
        "tr1 = es @ tr'" "list_all waiting_event es" "deliveries es = [f]"
      using outcome by (auto simp: r next_outcome_def)
    obtain es0 where es0: "tr' = es0 @ tr0" "list_all waiting_event es0"
        "\<forall>g \<in> set (deliveries es0). decide g = None"
      using skip [OF f(2)] by (auto simp: waited_def)
    show ?thesis
    proof (cases "decide f")
      case None
      then have "waited (\<lambda>f. decide f = None) tr0 tr1"
        using skip [OF f(2)] f(3-5) by (auto intro: waited_append)
      moreover from this have "waited (\<lambda>f. decide f = None) tr0 (Invoked # tr1)"
        by (rule waited_event) simp_all
      ultimately show ?thesis
        using step step_message [OF Some [unfolded r Inr] f(1)] None frame by auto
    next
      case (Some v)
      have "answered S deadline decide tr0 (v, p1, tr1)"
        using f es0 Some unfolding answered_def
        by (auto intro!: exI [of _ f] exI [of _ "deliveries es0"] exI [of _ "es @ es0"])
      then show ?thesis
        using step step_message [OF \<open>pollNextResponse _ _ _ _ _ _ = Some r\<close> [unfolded r Inr] f(1)] Some frame
        by auto
    qed
  qed
qed

lemma loop_answered:
  assumes "break_stops E" and "0 <s cp_fragmentLimit p" and "loop step (p, tr) = Some r"
  shows "answered S deadline decide tr r \<and> cp_fragmentLimit (fst (snd r)) = cp_fragmentLimit p"
  using assms(3)
proof (rule loop_invariant [where I = "\<lambda>(p1, tr1). cp_fragmentLimit p1 = cp_fragmentLimit p \<and>
    waited (\<lambda>f. decide f = None) tr tr1"])
  fix s s' :: "control_response_poller \<times> trace"
  assume "case s of (p1, tr1) \<Rightarrow> cp_fragmentLimit p1 = cp_fragmentLimit p \<and> waited (\<lambda>f. decide f = None) tr tr1"
    and "step s = Some (Inl s')"
  then show "case s' of (p1, tr1) \<Rightarrow> cp_fragmentLimit p1 = cp_fragmentLimit p \<and> waited (\<lambda>f. decide f = None) tr tr1"
    using answered_pass [OF assms(1), of "fst s" tr "snd s" "Inl s'"] assms(2) by (auto split: prod.splits)
next
  fix s :: "control_response_poller \<times> trace" and r
  assume "case s of (p1, tr1) \<Rightarrow> cp_fragmentLimit p1 = cp_fragmentLimit p \<and> waited (\<lambda>f. decide f = None) tr tr1"
    and "step s = Some (Inr r)"
  then show "answered S deadline decide tr r \<and> cp_fragmentLimit (fst (snd r)) = cp_fragmentLimit p"
    using answered_pass [OF assms(1), of "fst s" tr "snd s" "Inr r"] assms(2) by (auto split: prod.splits)
qed simp

lemma loop_returns:
  assumes "break_stops E" and "0 <s cp_fragmentLimit p" and "quiet_after E M" and "clock_passes E deadline N"
  shows "\<exists>r. loop step (p, tr) = Some r"
proof -
  have "\<exists>r. loop step (p, tr) = Some r \<and> True"
  proof (rule loop_total [where I = "\<lambda>(p1, tr1). 0 <s cp_fragmentLimit p1"
        and m = "\<lambda>(p1, tr1). max M N - length tr1"])
    fix s :: "control_response_poller \<times> trace"
    assume inv: "case s of (p1, tr1) \<Rightarrow> 0 <s cp_fragmentLimit p1"
    obtain p1 tr1 where s: "s = (p1, tr1)" by fastforce
    have lim: "0 <s cp_fragmentLimit p1" using inv s by simp
    obtain r where r: "pollNextResponse S E correlationId deadline p1 tr1 = Some r"
      using pollNextResponse_returns [OF assms(1) lim assms(3,4)] by blast
    obtain x p2 tr2 where x: "r = (x, p2, tr2)" by (cases r rule: prod_cases3)
    show "(\<exists>s'. step s = Some (Inl s') \<and>
          (case s' of (p1, tr1) \<Rightarrow> 0 <s cp_fragmentLimit p1) \<and>
          (case s' of (p1, tr1) \<Rightarrow> max M N - length tr1) < (case s of (p1, tr1) \<Rightarrow> max M N - length tr1)) \<or>
        (\<exists>r. step s = Some (Inr r) \<and> True)"
    proof (cases x)
      case (Inl e)
      then show ?thesis using step_failed [OF r [unfolded x Inl]] s by simp
    next
      case (Inr u)
      then have early: "length tr1 < max M N"
        using pollNextResponse_late [OF assms(1) lim assms(3,4), of tr1 S correlationId] r x by force
      obtain f where "shows_message S p2 f"
        using pollNextResponse_outcome [OF assms(1) lim r] by (auto simp: x Inr next_outcome_def)
      from step_message [OF r [unfolded x Inr] this] obtain y where y: "step (p1, tr1) = Some y"
        by (auto split: option.splits)
      then show ?thesis
        using answered_pass [OF assms(1) lim waited_refl y] early lim s
        by (cases y) (auto split: prod.splits)
    qed
  qed (use assms(2) in simp)
  then show ?thesis by simp
qed

end

section \<open>The two answer loops\<close>

text \<open>
  What a message means to a request with a correlation id in a session. An error in the session
  decides whatever request it answers.
\<close>

definition decode_response :: "sbe \<Rightarrow> fragment \<Rightarrow> response option" where
  "decode_response S f = (case read_response S f of Inr (Some m) \<Rightarrow> Some m | _ \<Rightarrow> None)"

definition response_decision :: "sbe \<Rightarrow> int64 \<Rightarrow> int64 \<Rightarrow> fragment \<Rightarrow> int64 result option" where
  "response_decision S controlSessionId correlationId f =
     (case decode_response S f of
        None \<Rightarrow> None
      | Some m \<Rightarrow>
          if re_controlSessionId m \<noteq> controlSessionId then None
          else if re_code m = code_ERROR S then
            Some (Inl (ArchiveException (''response for correlation id: '' @ to_string (sint correlationId) @
              '', error: '' @ re_errorMessage m @ '', relevant id: '' @ to_string (sint (re_relevantId m)))))
          else if re_correlationId m \<noteq> correlationId then None
          else if re_code m = code_OK S then Some (Inr (re_relevantId m))
          else Some (Inl (ArchiveException (''unexpected response: code='' @ to_string (sint (re_code m))))))"

text \<open>What a message means to the opening of a session.\<close>

definition session_decision :: "sbe \<Rightarrow> int64 \<Rightarrow> fragment \<Rightarrow> int64 result option" where
  "session_decision S correlationId f =
     (case decode_response S f of
        None \<Rightarrow> None
      | Some m \<Rightarrow>
          if re_correlationId m \<noteq> correlationId then None
          else if re_code m = code_OK S then Some (Inr (re_controlSessionId m))
          else if re_code m = code_ERROR S then
            Some (Inl (ArchiveException (''unexpected response: '' @ re_errorMessage m @
              '', relevant id: '' @ to_string (sint (re_relevantId m)))))
          else Some (Inl (ArchiveException (''unexpected response: code='' @ to_string (sint (re_code m))))))"

lemma decide_undecodable:
  "undecodable S f \<Longrightarrow> response_decision S cs corr f = None"
  "undecodable S f \<Longrightarrow> session_decision S corr f = None"
  by (auto simp: undecodable_def response_decision_def session_decision_def decode_response_def)

lemma minus_one_not_template [simp]: "(- 1 :: int64) \<noteq> ucast (t :: uint16)"
  using template_id_not_minus_one by metis

interpretation response_loop: answer_loop S E correlationId deadline
  "response_step S E controlSessionId correlationId deadline"
  "response_decision S controlSessionId correlationId"
  for S E controlSessionId correlationId deadline
proof unfold_locales
  fix p tr u p1 tr1 f
  assume "pollNextResponse S E correlationId deadline p tr = Some (Inr u, p1, tr1)" "shows_message S p1 f"
  then show "case response_decision S controlSessionId correlationId f of
      None \<Rightarrow> \<exists>tr2. response_step S E controlSessionId correlationId deadline (p, tr) = Some (Inl (p1, tr2)) \<and>
        (tr2 = tr1 \<or> tr2 = Invoked # tr1)
    | Some r \<Rightarrow> response_step S E controlSessionId correlationId deadline (p, tr) = Some (Inr (r, p1, tr1))"
    by (auto simp: response_step_def response_decision_def decode_response_def shows_message_def shown_def
        response_error_def unexpected_code_def call_defs split: sum.splits option.splits)
qed (auto simp: response_step_def decide_undecodable)

interpretation session_loop: answer_loop S E correlationId deadline
  "session_step S E correlationId deadline" "session_decision S correlationId"
  for S E correlationId deadline
proof unfold_locales
  fix p tr u p1 tr1 f
  assume "pollNextResponse S E correlationId deadline p tr = Some (Inr u, p1, tr1)" "shows_message S p1 f"
  then show "case session_decision S correlationId f of
      None \<Rightarrow> \<exists>tr2. session_step S E correlationId deadline (p, tr) = Some (Inl (p1, tr2)) \<and>
        (tr2 = tr1 \<or> tr2 = Invoked # tr1)
    | Some r \<Rightarrow> session_step S E correlationId deadline (p, tr) = Some (Inr (r, p1, tr1))"
    by (auto simp: session_step_def session_decision_def decode_response_def shows_message_def shown_def
        unexpected_code_def call_defs split: sum.splits option.splits)
qed (auto simp: session_step_def decide_undecodable)

section \<open>Responses\<close>

lemma pollForResponse_answered:
  assumes "break_stops E" and "0 <s cp_fragmentLimit p"
    and "pollForResponse S E timeoutNs controlSessionId correlationId p tr = Some (r, p1, tr1)"
  shows "answered S (env_now E tr + timeoutNs) (response_decision S controlSessionId correlationId)
      (ClockRead (env_now E tr) # tr) (r, p1, tr1) \<and> cp_fragmentLimit p1 = cp_fragmentLimit p"
  using response_loop.loop_answered [OF assms(1,2), of S controlSessionId correlationId] assms(3)
  by (fastforce simp: pollForResponse_def call_defs Let_def)

lemma pollForResponse_returns:
  assumes "break_stops E" and "0 <s cp_fragmentLimit p" and "quiet_after E M"
    and "clock_passes E (env_now E tr + timeoutNs) N"
  shows "\<exists>r. pollForResponse S E timeoutNs controlSessionId correlationId p tr = Some r"
  using response_loop.loop_returns [OF assms]
  by (simp add: pollForResponse_def call_defs Let_def)

text \<open>The wait has no bound while messages that do not decide keep coming, whatever the clock says.\<close>

lemma pollNextResponse_message:
  assumes "break_stops E" and "0 <s cp_fragmentLimit p"
    and "next_message E (cp_fragmentLimit p) tr = Some f" and "read_response S f = Inr m"
  shows "\<exists>p1 tr1. pollNextResponse S E correlationId deadline p tr = Some (Inr (), p1, tr1) \<and>
     shows_message S p1 f \<and> cp_fragmentLimit p1 = cp_fragmentLimit p"
proof -
  obtain x p1 tr1 where poll: "response_poll S E p tr = (x, p1, tr1)"
    by (metis prod.exhaust)
  have shown: "poll_shows S (Some f) x p1"
    using response_poll_message [OF assms(1,2) poll] assms(3) by simp
  then obtain n where n: "x = Inr n" "cp_isPollComplete p1" "shows_message S p1 f"
    using assms(4) by (cases m) (auto simp: poll_shows_def shows_message_def shows_response_def)
  then have "next_step S E correlationId deadline (p, tr) = Some (Inr (Inr (), p1, tr1))"
    by (simp add: next_step_def poll)
  then show ?thesis
    using n(3) response_poll_waited(1) [OF assms(1,2) poll]
    by (simp add: pollNextResponse_def loop_unfold)
qed

lemma pollForResponse_busy:
  assumes "break_stops E" and "0 <s cp_fragmentLimit p"
    and "\<forall>tr'. extends tr tr' \<longrightarrow> (\<exists>f m. next_message E (cp_fragmentLimit p) tr' = Some f \<and>
       read_response S f = Inr m \<and> response_decision S controlSessionId correlationId f = None)"
  shows "pollForResponse S E timeoutNs controlSessionId correlationId p tr = None"
proof -
  have "loop (response_step S E controlSessionId correlationId deadline) (p, ClockRead t # tr) = None" for deadline t
  proof (rule loop_diverges [where I = "\<lambda>(p1, tr1). cp_fragmentLimit p1 = cp_fragmentLimit p \<and> extends tr tr1"])
    fix s :: "control_response_poller \<times> trace"
    assume "case s of (p1, tr1) \<Rightarrow> cp_fragmentLimit p1 = cp_fragmentLimit p \<and> extends tr tr1"
    moreover obtain p1 tr1 where s: "s = (p1, tr1)" by fastforce
    ultimately have lim: "cp_fragmentLimit p1 = cp_fragmentLimit p" and later: "extends tr tr1" by simp_all
    obtain f m where f: "next_message E (cp_fragmentLimit p1) tr1 = Some f" "read_response S f = Inr m"
        "response_decision S controlSessionId correlationId f = None"
      using assms(3) later lim by metis
    have pos: "0 <s cp_fragmentLimit p1" using assms(2) lim by simp
    obtain p2 tr2 where next': "pollNextResponse S E correlationId deadline p1 tr1 = Some (Inr (), p2, tr2)"
        "shows_message S p2 f" "cp_fragmentLimit p2 = cp_fragmentLimit p1"
      using pollNextResponse_message [OF assms(1) pos f(1,2)] by blast
    obtain tr3 where step: "response_step S E controlSessionId correlationId deadline (p1, tr1) = Some (Inl (p2, tr3))"
        "tr3 = tr2 \<or> tr3 = Invoked # tr2"
      using response_loop.step_message [OF next'(1,2), of controlSessionId] f(3) by auto
    have "extends tr1 tr2"
      using pollNextResponse_outcome [OF assms(1) pos next'(1)] waited_extends
      by (auto simp: next_outcome_def intro: extends_append)
    then have "extends tr tr3" using later step(2) by (auto intro: extends_trans)
    then show "response_step S E controlSessionId correlationId deadline s = None \<or>
        (\<exists>s'. response_step S E controlSessionId correlationId deadline s = Some (Inl s') \<and>
           (case s' of (p1, tr1) \<Rightarrow> cp_fragmentLimit p1 = cp_fragmentLimit p \<and> extends tr tr1))"
      using s lim next'(3) step(1) by auto
  qed auto
  then show ?thesis by (simp add: pollForResponse_def call_defs Let_def)
qed

section \<open>The session\<close>

text \<open>The connection wait ends connected, or after the deadline.\<close>

definition connection_outcome :: "int64 \<Rightarrow> trace \<Rightarrow> unit result \<times> trace \<Rightarrow> bool" where
  "connection_outcome deadline tr = (\<lambda>(x, tr1).
     \<exists>es. tr1 = es @ tr \<and> list_all waiting_event es \<and> deliveries es = [] \<and>
       (case x of
          Inr _ \<Rightarrow> \<exists>es'. tr1 = ConnectedRead True # es'
        | Inl e \<Rightarrow> \<exists>t es'. tr1 = ClockRead t # ConnectedRead False # es' \<and> deadline <s t))"

lemma connection_step_cases:
  assumes "connection_step E channel streamId deadline tr1 = Some y" and "waited (\<lambda>_. False) tr tr1"
  shows "case y of
      Inl tr2 \<Rightarrow> waited (\<lambda>_. False) tr tr2 \<and> length tr1 < length tr2
    | Inr r \<Rightarrow> connection_outcome deadline tr r"
proof -
  obtain es where "tr1 = es @ tr" "list_all waiting_event es" "deliveries es = []"
    using assms(2) by (auto simp: waited_def)
  then show ?thesis
    using assms(1)
    by (auto simp: connection_step_def connection_outcome_def call_defs Let_def waited_def split: if_splits)
qed

lemma awaitConnection_outcome:
  assumes "awaitConnection E channel streamId deadline tr = Some r"
  shows "connection_outcome deadline tr r"
  using assms unfolding awaitConnection_def
  by (rule loop_invariant [where I = "waited (\<lambda>_. False) tr"]) (auto dest: connection_step_cases)

lemma awaitConnection_returns:
  assumes "clock_passes E deadline N"
  shows "\<exists>r. awaitConnection E channel streamId deadline tr = Some r"
proof -
  have "\<exists>r. loop (connection_step E channel streamId deadline) tr = Some r \<and> True"
  proof (rule loop_total [where I = "\<lambda>_. True" and m = "\<lambda>tr. N - length tr"])
    fix tr1
    have "deadline <s env_now E (ConnectedRead c # tr1)" if "N \<le> length tr1" for c
      using assms that by (auto simp: clock_passes_def)
    then show "(\<exists>tr2. connection_step E channel streamId deadline tr1 = Some (Inl tr2) \<and> True \<and>
          N - length tr2 < N - length tr1) \<or>
        (\<exists>r. connection_step E channel streamId deadline tr1 = Some (Inr r) \<and> True)"
      by (cases "N \<le> length tr1") (auto simp: connection_step_def call_defs Let_def)
  qed simp
  then show ?thesis by (simp add: awaitConnection_def)
qed

lemma awaitSessionOpened_answered:
  assumes "break_stops E" and "0 <s cp_fragmentLimit p"
    and "awaitSessionOpened S E ctx timeoutNs correlationId p tr = Some (Inr sessionId, p1, tr1)"
  shows "cp_fragmentLimit p1 = cp_fragmentLimit p \<and>
     (\<exists>f fs es. tr1 = es @ ClockRead (env_now E tr) # tr \<and> list_all waiting_event es \<and> deliveries es = f # fs \<and>
        session_decision S correlationId f = Some (Inr sessionId) \<and>
        (\<forall>g \<in> set fs. session_decision S correlationId g = None))"
proof -
  let ?deadline = "env_now E tr + timeoutNs" and ?tr = "ClockRead (env_now E tr) # tr"
  obtain tr2 where conn: "awaitConnection E (get_controlResponseChannel ctx)
        (get_controlResponseStreamId ctx) ?deadline ?tr = Some (Inr (), tr2)"
      and loop: "loop (session_step S E correlationId ?deadline) (p, tr2) = Some (Inr sessionId, p1, tr1)"
    using assms(3) by (auto simp: awaitSessionOpened_def call_defs Let_def split: option.splits sum.splits)
  obtain es where es: "tr2 = es @ ?tr" "list_all waiting_event es" "deliveries es = []"
    using awaitConnection_outcome [OF conn] by (auto simp: connection_outcome_def)
  have ans: "answered S ?deadline (session_decision S correlationId) tr2 (Inr sessionId, p1, tr1)"
      and lim: "cp_fragmentLimit p1 = cp_fragmentLimit p"
    using session_loop.loop_answered [OF assms(1,2) loop] by auto
  from ans obtain f fs es' where "tr1 = es' @ tr2" "list_all waiting_event es'" "deliveries es' = f # fs"
      "session_decision S correlationId f = Some (Inr sessionId)"
      "\<forall>g \<in> set fs. session_decision S correlationId g = None"
    by (auto simp: answered_def)
  then show ?thesis
    using lim es by (auto intro!: exI [of _ f] exI [of _ fs] exI [of _ "es' @ es"])
qed

lemma awaitSessionOpened_returns:
  assumes "break_stops E" and "0 <s cp_fragmentLimit p" and "quiet_after E M"
    and "clock_passes E (env_now E tr + timeoutNs) N"
  shows "\<exists>r. awaitSessionOpened S E ctx timeoutNs correlationId p tr = Some r"
proof -
  let ?deadline = "env_now E tr + timeoutNs" and ?tr = "ClockRead (env_now E tr) # tr"
  obtain x tr2 where conn: "awaitConnection E (get_controlResponseChannel ctx)
      (get_controlResponseStreamId ctx) ?deadline ?tr = Some (x, tr2)"
    using awaitConnection_returns [OF assms(4)] by fastforce
  then show ?thesis
    using session_loop.loop_returns [OF assms, of S correlationId tr2]
    by (cases x) (auto simp: awaitSessionOpened_def call_defs Let_def)
qed

text \<open>When the first message decides, it is the result.\<close>

lemma pollForResponse_at_once:
  assumes "break_stops E" and "0 <s cp_fragmentLimit p"
    and "next_message E (cp_fragmentLimit p) (ClockRead (env_now E tr) # tr) = Some f"
    and "response_decision S controlSessionId correlationId f = Some r"
  shows "\<exists>p1 tr1. pollForResponse S E timeoutNs controlSessionId correlationId p tr = Some (r, p1, tr1)"
proof -
  obtain m where m: "read_response S f = Inr (Some m)"
    using assms(4) by (auto simp: response_decision_def decode_response_def split: sum.splits option.splits)
  let ?deadline = "env_now E tr + timeoutNs" and ?tr = "ClockRead (env_now E tr) # tr"
  obtain p1 tr1 where "pollNextResponse S E correlationId ?deadline p ?tr = Some (Inr (), p1, tr1)"
      "shows_message S p1 f"
    using pollNextResponse_message [OF assms(1-3) m] by blast
  then have "response_step S E controlSessionId correlationId ?deadline (p, ?tr) = Some (Inr (r, p1, tr1))"
    using response_loop.step_message [of S E correlationId ?deadline p ?tr "()" p1 tr1 f controlSessionId]
      assms(4) by simp
  then show ?thesis by (simp add: pollForResponse_def call_defs Let_def loop_unfold)
qed

lemma awaitSessionOpened_at_once:
  assumes "break_stops E" and "0 <s cp_fragmentLimit p" and "\<forall>tr. env_isConnected E tr"
    and "\<forall>tr. next_message E (cp_fragmentLimit p) tr = Some f"
    and "session_decision S correlationId f = Some r"
  shows "\<exists>p1 tr1. awaitSessionOpened S E ctx timeoutNs correlationId p tr = Some (r, p1, tr1)"
proof -
  obtain m where m: "read_response S f = Inr (Some m)"
    using assms(5) by (auto simp: session_decision_def decode_response_def split: sum.splits option.splits)
  let ?deadline = "env_now E tr + timeoutNs"
  let ?tr = "ConnectedRead True # ClockRead (env_now E tr) # tr"
  obtain p1 tr1 where "pollNextResponse S E correlationId ?deadline p ?tr = Some (Inr (), p1, tr1)"
      "shows_message S p1 f"
    using pollNextResponse_message [OF assms(1,2) _ m] assms(4) by blast
  then have "session_step S E correlationId ?deadline (p, ?tr) = Some (Inr (r, p1, tr1))"
    using session_loop.step_message [of S E correlationId ?deadline p ?tr "()" p1 tr1 f]
      assms(5) by simp
  then show ?thesis
    using assms(3)
    by (simp add: awaitSessionOpened_def awaitConnection_def connection_step_def call_defs Let_def loop_unfold)
qed

section \<open>Descriptors\<close>

text \<open>
  What \<open>pollForDescriptors\<close> returns: the consumer calls are accounted for since the start; a value
  is the number of calls that returned, and comes when the count ran out or the archive
  answered that there are no (more) such recordings.
\<close>

definition descriptors_outcome ::
  "sbe \<Rightarrow> env \<Rightarrow> int32 \<Rightarrow> recording_descriptor_poller \<Rightarrow> trace \<Rightarrow>
     int64 result \<times> recording_descriptor_poller \<times> trace \<Rightarrow> bool" where
  "descriptors_outcome S E recordCount d0 tr0 = (\<lambda>(r, d1, tr1).
     accounted S E d0 tr0 d1 tr1 \<and>
     (\<forall>v. r = Inr v \<longrightarrow> dispatch_done S d0 tr0 d1 tr1 \<and> v = scast (recordCount - dp_remainingRecordCount d1)))"

lemma accounted_wait:
  assumes "accounted S E d0 tr0 d tr"
  shows "accounted S E d0 tr0 d (ClockRead t # tr)" and "accounted S E d0 tr0 d (Invoked # tr)"
    and "accounted S E d0 tr0 d (ConnectedRead c # tr)" and "accounted S E d0 tr0 d (Idled # tr)"
  by (rule accounted_silent [OF assms]; simp)+

lemma descriptors_step_cases:
  assumes "break_stops E" and acc: "accounted S E d0 tr0 d tr"
    and "descriptors_step S E timeoutNs correlationId recordCount ((d, existing, deadline), tr) = Some y"
  shows "case y of
      Inl ((d1, _, _), tr1) \<Rightarrow> accounted S E d0 tr0 d1 tr1
    | Inr r \<Rightarrow> descriptors_outcome S E recordCount d0 tr0 r"
proof -
  obtain x d1 tr1 where poll: "descriptor_poll S E d tr = (x, d1, tr1)"
    by (metis prod.exhaust)
  have acc1: "accounted S E d0 tr0 d1 tr1"
    by (rule descriptor_poll_accounted [OF acc poll])
  have fin: "dispatch_done S d0 tr0 d1 tr1" if "dp_isDispatchComplete d1"
    by (rule descriptor_poll_done [OF assms(1) acc poll that])
  show ?thesis
    using assms(3) acc1 fin
    by (auto simp: descriptors_step_def poll call_defs Let_def descriptors_outcome_def
        split: sum.splits if_splits intro!: accounted_wait)
qed

lemma pollForDescriptors_outcome:
  assumes "break_stops E"
    and "pollForDescriptors S E timeoutNs correlationId recordCount consumer d tr = Some r"
  shows "descriptors_outcome S E recordCount (descriptor_reset correlationId recordCount consumer d)
     (ClockRead (env_now E tr) # tr) r"
proof -
  let ?d = "descriptor_reset correlationId recordCount consumer d" and ?tr = "ClockRead (env_now E tr) # tr"
  have run: "loop (descriptors_step S E timeoutNs correlationId recordCount)
      ((?d, recordCount, env_now E tr + timeoutNs), ?tr) = Some r"
    using assms(2) by (simp add: pollForDescriptors_def call_defs Let_def)
  define I where
    "I s = accounted S E ?d ?tr (fst (fst s)) (snd s)" for s :: "(recording_descriptor_poller \<times> int32 \<times> int64) \<times> trace"
  show ?thesis
  proof (rule loop_invariant [OF run, where I = I])
    fix s s' :: "(recording_descriptor_poller \<times> int32 \<times> int64) \<times> trace"
    assume "I s" and "descriptors_step S E timeoutNs correlationId recordCount s = Some (Inl s')"
    then show "I s'"
      using descriptors_step_cases [OF assms(1), of S ?d ?tr "fst (fst s)" "snd s" timeoutNs correlationId
          recordCount "fst (snd (fst s))" "snd (snd (fst s))" "Inl s'"]
      by (auto simp: I_def split: prod.splits)
  next
    fix s :: "(recording_descriptor_poller \<times> int32 \<times> int64) \<times> trace" and r
    assume "I s" and "descriptors_step S E timeoutNs correlationId recordCount s = Some (Inr r)"
    then show "descriptors_outcome S E recordCount ?d ?tr r"
      using descriptors_step_cases [OF assms(1), of S ?d ?tr "fst (fst s)" "snd s" timeoutNs correlationId
          recordCount "fst (snd (fst s))" "snd (snd (fst s))" "Inr r"]
      by (auto simp: I_def split: prod.splits)
  qed (simp add: I_def accounted_refl)
qed

end
