(* ===== verification/AeronArchive.thy ===== *)
theory AeronArchive
  imports ArchiveProxy ArchivePolling
begin

text \<open>
  The archive client (\<^verbatim>\<open>src/AeronArchive.cpp\<close>, \<^verbatim>\<open>.h\<close>): the construction with the handshake, the
  exchange of a request and its response, and the public operations. The mutex shows in the
  history as \<open>Locked\<close> and \<open>Unlocked\<close>; the guard releases it on every way out, the exceptional ones
  included. A result of \<open>None\<close> means that the operation does not return.
\<close>

section \<open>State\<close>

definition FRAGMENT_LIMIT :: int32 where "FRAGMENT_LIMIT = 10"
definition DEFAULT_RETRY_ATTEMPTS :: int32 where "DEFAULT_RETRY_ATTEMPTS = 3"

record aeron_archive =
  aa_ctx :: archive_context
  aa_proxy :: archive_proxy
  aa_responsePoller :: control_response_poller
  aa_descriptorPoller :: recording_descriptor_poller
  aa_aeron :: nat
  aa_messageTimeoutNs :: int64
  aa_controlSessionId :: int64

text \<open>Waiting until Aeron has registered a publication or subscription.\<close>

definition find_step ::
  "env \<Rightarrow> resource \<Rightarrow> int64 \<Rightarrow> trace \<Rightarrow> (trace + unit result \<times> trace) option" where
  "find_step E res regId tr =
     (case call_find E res regId tr of
        (Inl e, tr1) \<Rightarrow> Some (Inr (Inl e, tr1))
      | (Inr found, tr1) \<Rightarrow> Some (if found then Inr (Inr (), tr1) else Inl (call_yield tr1)))"

definition add_and_find ::
  "env \<Rightarrow> resource \<Rightarrow> string \<Rightarrow> int32 \<Rightarrow> trace \<Rightarrow> (int64 result \<times> trace) option" where
  "add_and_find E res channel streamId tr =
     (case call_add E res channel streamId tr of
        (Inl e, tr1) \<Rightarrow> Some (Inl e, tr1)
      | (Inr regId, tr1) \<Rightarrow>
          (case loop (find_step E res regId) tr1 of
             None \<Rightarrow> None
           | Some (Inl e, tr2) \<Rightarrow> Some (Inl e, tr2)
           | Some (Inr _, tr2) \<Rightarrow> Some (Inr regId, tr2)))"

section \<open>Construction\<close>

text \<open>
  The constructor; \<open>memory\<close> is the storage the object is built in, of which it leaves alone what the
  members' constructors leave alone.
\<close>

definition open_session ::
  "sbe \<Rightarrow> env \<Rightarrow> aeron_archive \<Rightarrow> trace \<Rightarrow> (unit result \<times> aeron_archive \<times> trace) option" where
  "open_session S E a tr =
     (case call_nextCorrelationId E tr of (correlationId, tr1) \<Rightarrow>
        case proxy_connect_invoking S E (get_controlResponseChannel (aa_ctx a))
               (get_controlResponseStreamId (aa_ctx a)) correlationId (aa_proxy a) tr1 of
          None \<Rightarrow> None
        | Some (Inl e, px, tr2) \<Rightarrow> Some (Inl e, a\<lparr>aa_proxy := px\<rparr>, tr2)
        | Some (Inr False, px, tr2) \<Rightarrow>
            Some (Inl (ArchiveException (''cannot connect to archive: '' @
                         get_controlResponseChannel (aa_ctx a))), a\<lparr>aa_proxy := px\<rparr>, tr2)
        | Some (Inr True, px, tr2) \<Rightarrow>
            (case awaitSessionOpened S E (aa_ctx a) (aa_messageTimeoutNs a) correlationId
                    (aa_responsePoller a) tr2 of
               None \<Rightarrow> None
             | Some (Inl e, p, tr3) \<Rightarrow> Some (Inl e, a\<lparr>aa_proxy := px, aa_responsePoller := p\<rparr>, tr3)
             | Some (Inr sessionId, p, tr3) \<Rightarrow>
                 Some (Inr (), a\<lparr>aa_proxy := px, aa_responsePoller := p, aa_controlSessionId := sessionId,
                   aa_descriptorPoller :=
                     mk_RecordingDescriptorPoller (aa_descriptorPoller a) FRAGMENT_LIMIT sessionId\<rparr>, tr3)))"

definition mk_AeronArchive ::
  "sbe \<Rightarrow> env \<Rightarrow> aeron_archive \<Rightarrow> archive_context \<Rightarrow> trace \<Rightarrow> (aeron_archive result \<times> trace) option" where
  "mk_AeronArchive S E memory ctx tr =
     (case conclude E ctx tr of
        (Inl e, ctx1, tr1) \<Rightarrow> Some (Inl e, tr1)
      | (Inr _, ctx1, tr1) \<Rightarrow>
          (case add_and_find E Sub (get_controlResponseChannel ctx1) (get_controlResponseStreamId ctx1) tr1 of
             None \<Rightarrow> None
           | Some (Inl e, tr2) \<Rightarrow> Some (Inl e, tr2)
           | Some (Inr subId, tr2) \<Rightarrow>
               (case add_and_find E ExclusivePub (get_controlRequestChannel ctx1)
                       (get_controlRequestStreamId ctx1) tr2 of
                  None \<Rightarrow> None
                | Some (Inl e, tr3) \<Rightarrow> Some (Inl e, tr3)
                | Some (Inr pubId, tr3) \<Rightarrow>
                    (case open_session S E
                            (memory\<lparr>aa_ctx := ctx1, aa_messageTimeoutNs := get_messageTimeoutNs ctx,
                               aa_aeron := the (get_aeron ctx1),
                               aa_responsePoller :=
                                 mk_ControlResponsePoller (aa_responsePoller memory) FRAGMENT_LIMIT,
                               aa_proxy := mk_ArchiveProxy (get_messageTimeoutNs ctx1) DEFAULT_RETRY_ATTEMPTS\<rparr>)
                            tr3 of
                       None \<Rightarrow> None
                     | Some (Inl e, a, tr4) \<Rightarrow> Some (Inl e, tr4)
                     | Some (Inr _, a, tr4) \<Rightarrow> Some (Inr a, tr4)))))"

definition archive_connect where
  "archive_connect S E memory ctx tr = mk_AeronArchive S E memory ctx tr"

definition archive_connect_default ::
  "lexical \<Rightarrow> (string \<Rightarrow> string option) \<Rightarrow> layout \<Rightarrow> sbe \<Rightarrow> env \<Rightarrow> aeron_archive \<Rightarrow> trace \<Rightarrow>
     (aeron_archive result \<times> trace) option" where
  "archive_connect_default L getenv lay S E memory tr =
     (case mk_Context_default L getenv lay of
        Inl e \<Rightarrow> Some (Inl e, tr)
      | Inr ctx \<Rightarrow> archive_connect S E memory ctx tr)"

definition archive_asyncConnect :: "archive_context \<Rightarrow> aeron_archive result" where
  "archive_asyncConnect ctx = Inl (ArchiveException ''not implemented'')"

definition archive_asyncConnect_default ::
  "lexical \<Rightarrow> (string \<Rightarrow> string option) \<Rightarrow> layout \<Rightarrow> aeron_archive result" where
  "archive_asyncConnect_default L getenv lay =
     bind_result (mk_Context_default L getenv lay) archive_asyncConnect"

definition archive_context_of :: "aeron_archive \<Rightarrow> archive_context" where
  "archive_context_of a = aa_ctx a"

text \<open>
  The other constructor, which is unfinished: it leaves the pointers to the pollers and to Aeron null, so the
  object is the one the class declares, with its pointers. An operation can be called on it when
  it has an object behind each of them.
\<close>

record archive_object =
  ao_ctx :: archive_context
  ao_archiveProxy :: "archive_proxy option"
  ao_controlResponsePoller :: "control_response_poller option"
  ao_recordingDescriptorPoller :: "recording_descriptor_poller option"
  ao_aeron :: "nat option"
  ao_messageTimeoutNs :: int64
  ao_controlSessionId :: int64

definition mk_AeronArchive_with_proxy :: "archive_object \<Rightarrow> archive_context \<Rightarrow> archive_proxy \<Rightarrow> archive_object" where
  "mk_AeronArchive_with_proxy memory ctx archiveProxy =
     memory\<lparr>ao_ctx := ctx, ao_archiveProxy := Some archiveProxy, ao_controlResponsePoller := None,
       ao_recordingDescriptorPoller := None, ao_aeron := None\<rparr>"

definition usable :: "archive_object \<Rightarrow> aeron_archive option" where
  "usable ob =
     (case (ao_archiveProxy ob, ao_controlResponsePoller ob, ao_recordingDescriptorPoller ob, ao_aeron ob) of
        (Some px, Some p, Some d, Some ae) \<Rightarrow>
          Some \<lparr>aa_ctx = ao_ctx ob, aa_proxy = px, aa_responsePoller = p, aa_descriptorPoller = d, aa_aeron = ae,
            aa_messageTimeoutNs = ao_messageTimeoutNs ob, aa_controlSessionId = ao_controlSessionId ob\<rparr>
      | _ \<Rightarrow> None)"

definition archive_object_of :: "aeron_archive \<Rightarrow> archive_object" where
  "archive_object_of a =
     \<lparr>ao_ctx = aa_ctx a, ao_archiveProxy = Some (aa_proxy a), ao_controlResponsePoller = Some (aa_responsePoller a),
      ao_recordingDescriptorPoller = Some (aa_descriptorPoller a), ao_aeron = Some (aa_aeron a),
      ao_messageTimeoutNs = aa_messageTimeoutNs a, ao_controlSessionId = aa_controlSessionId a\<rparr>"

lemma usable_object_of: "usable (archive_object_of a) = Some (a :: aeron_archive)"
  by (simp add: usable_def archive_object_of_def)

lemma with_proxy_is_unusable: "usable (mk_AeronArchive_with_proxy memory ctx px) = None"
  by (simp add: usable_def mk_AeronArchive_with_proxy_def)

section \<open>The exchange of a request\<close>

type_synonym sender =
  "int64 \<Rightarrow> archive_proxy \<Rightarrow> trace \<Rightarrow> bool result \<times> archive_proxy \<times> trace"

definition callAndPollForResponse ::
  "sbe \<Rightarrow> env \<Rightarrow> sender \<Rightarrow> string \<Rightarrow> aeron_archive \<Rightarrow> trace \<Rightarrow>
     (int64 result \<times> aeron_archive \<times> trace) option" where
  "callAndPollForResponse S E f request a tr =
     (case call_nextCorrelationId E (Locked # tr) of (correlationId, tr1) \<Rightarrow>
        case f correlationId (aa_proxy a) tr1 of
          (Inl e, px, tr2) \<Rightarrow> Some (Inl e, a\<lparr>aa_proxy := px\<rparr>, Unlocked # tr2)
        | (Inr False, px, tr2) \<Rightarrow>
            Some (Inl (ArchiveException (request @ '': failed to send'')), a\<lparr>aa_proxy := px\<rparr>, Unlocked # tr2)
        | (Inr True, px, tr2) \<Rightarrow>
            (case pollForResponse S E (aa_messageTimeoutNs a) (aa_controlSessionId a) correlationId
                    (aa_responsePoller a) tr2 of
               None \<Rightarrow> None
             | Some (r, p, tr3) \<Rightarrow>
                 Some (r, a\<lparr>aa_proxy := px, aa_responsePoller := p\<rparr>, Unlocked # tr3)))"

definition callAndPollForDescriptors ::
  "sbe \<Rightarrow> env \<Rightarrow> sender \<Rightarrow> int32 \<Rightarrow> nat \<Rightarrow> string \<Rightarrow> aeron_archive \<Rightarrow> trace \<Rightarrow>
     (int64 result \<times> aeron_archive \<times> trace) option" where
  "callAndPollForDescriptors S E f recordCount consumer request a tr =
     (case call_nextCorrelationId E (Locked # tr) of (correlationId, tr1) \<Rightarrow>
        case f correlationId (aa_proxy a) tr1 of
          (Inl e, px, tr2) \<Rightarrow> Some (Inl e, a\<lparr>aa_proxy := px\<rparr>, Unlocked # tr2)
        | (Inr False, px, tr2) \<Rightarrow>
            Some (Inl (ArchiveException (request @ '': failed to send'')), a\<lparr>aa_proxy := px\<rparr>, Unlocked # tr2)
        | (Inr True, px, tr2) \<Rightarrow>
            (case pollForDescriptors S E (aa_messageTimeoutNs a) correlationId recordCount consumer
                    (aa_descriptorPoller a) tr2 of
               None \<Rightarrow> None
             | Some (r, d, tr3) \<Rightarrow>
                 Some (r, a\<lparr>aa_proxy := px, aa_descriptorPoller := d\<rparr>, Unlocked # tr3)))"

section \<open>The public operations\<close>

text \<open>An operation whose response carries nothing for the caller drops the value.\<close>

definition drop_value ::
  "('v result \<times> aeron_archive \<times> trace) option \<Rightarrow> (unit result \<times> aeron_archive \<times> trace) option" where
  "drop_value x =
     (case x of None \<Rightarrow> None | Some (r, a, tr) \<Rightarrow> Some (bind_result r (\<lambda>_. Inr ()), a, tr))"

definition narrow_value ::
  "(int64 result \<times> aeron_archive \<times> trace) option \<Rightarrow> (int32 result \<times> aeron_archive \<times> trace) option" where
  "narrow_value x =
     (case x of None \<Rightarrow> None | Some (r, a, tr) \<Rightarrow> Some (bind_result r (\<lambda>v. Inr (ucast v)), a, tr))"

definition archive_startRecording ::
  "sbe \<Rightarrow> env \<Rightarrow> string \<Rightarrow> int32 \<Rightarrow> SourceLocation \<Rightarrow>
     aeron_archive \<Rightarrow> trace \<Rightarrow> (int64 result \<times> aeron_archive \<times> trace) option" where
  "archive_startRecording S E channel streamId sourceLocation a tr =
     callAndPollForResponse S E
       (\<lambda>correlationId. proxy_startRecording S E channel streamId sourceLocation correlationId
          (aa_controlSessionId a)) ''start recording'' a tr"

definition archive_extendRecording ::
  "sbe \<Rightarrow> env \<Rightarrow> int64 \<Rightarrow> string \<Rightarrow> int32 \<Rightarrow> SourceLocation \<Rightarrow>
     aeron_archive \<Rightarrow> trace \<Rightarrow> (int64 result \<times> aeron_archive \<times> trace) option" where
  "archive_extendRecording S E recordingId channel streamId sourceLocation a tr =
     callAndPollForResponse S E
       (\<lambda>correlationId. proxy_extendRecording S E channel streamId sourceLocation recordingId
          correlationId (aa_controlSessionId a)) ''extend recording'' a tr"

definition archive_stopRecording ::
  "sbe \<Rightarrow> env \<Rightarrow> string \<Rightarrow> int32 \<Rightarrow>
     aeron_archive \<Rightarrow> trace \<Rightarrow> (unit result \<times> aeron_archive \<times> trace) option" where
  "archive_stopRecording S E channel streamId a tr =
     drop_value (callAndPollForResponse S E
       (\<lambda>correlationId. proxy_stopRecording S E channel streamId correlationId (aa_controlSessionId a)) ''stop recording'' a tr)"

text \<open>A publication, by what its getters return; \<open>stopRecording\<close> has an overload for both kinds.\<close>

record publication =
  pub_channel :: string
  pub_sessionId :: int32
  pub_streamId :: int32

definition archive_stopRecording_publication ::
  "sbe \<Rightarrow> env \<Rightarrow> layout \<Rightarrow> publication \<Rightarrow>
     aeron_archive \<Rightarrow> trace \<Rightarrow> (unit result \<times> aeron_archive \<times> trace) option" where
  "archive_stopRecording_publication S E lay pub a tr =
     (case addSessionId lay (pub_channel pub) (pub_sessionId pub) of
        Inl e \<Rightarrow> Some (Inl e, a, tr)
      | Inr recordingChannel \<Rightarrow> archive_stopRecording S E recordingChannel (pub_streamId pub) a tr)"

definition archive_stopRecording_subscription ::
  "sbe \<Rightarrow> env \<Rightarrow> int64 \<Rightarrow>
     aeron_archive \<Rightarrow> trace \<Rightarrow> (unit result \<times> aeron_archive \<times> trace) option" where
  "archive_stopRecording_subscription S E subscriptionId a tr =
     drop_value (callAndPollForResponse S E
       (\<lambda>correlationId. proxy_stopRecording_subscription S E subscriptionId correlationId (aa_controlSessionId a)) ''stop recording'' a tr)"

definition archive_startReplay ::
  "sbe \<Rightarrow> env \<Rightarrow> int64 \<Rightarrow> int64 \<Rightarrow> int64 \<Rightarrow> string \<Rightarrow> int32 \<Rightarrow>
     aeron_archive \<Rightarrow> trace \<Rightarrow> (int64 result \<times> aeron_archive \<times> trace) option" where
  "archive_startReplay S E recordingId position length' replayChannel replayStreamId a tr =
     callAndPollForResponse S E
       (\<lambda>correlationId. proxy_replay S E recordingId position length' replayChannel replayStreamId
          correlationId (aa_controlSessionId a)) ''start replay'' a tr"

definition archive_stopReplay ::
  "sbe \<Rightarrow> env \<Rightarrow> int64 \<Rightarrow>
     aeron_archive \<Rightarrow> trace \<Rightarrow> (unit result \<times> aeron_archive \<times> trace) option" where
  "archive_stopReplay S E replaySessionId a tr =
     drop_value (callAndPollForResponse S E
       (\<lambda>correlationId. proxy_stopReplay S E replaySessionId correlationId (aa_controlSessionId a)) ''stop replay'' a tr)"

definition archive_replay ::
  "sbe \<Rightarrow> env \<Rightarrow> layout \<Rightarrow> int64 \<Rightarrow> int64 \<Rightarrow> int64 \<Rightarrow> string \<Rightarrow> int32 \<Rightarrow>
     aeron_archive \<Rightarrow> trace \<Rightarrow> (int64 result \<times> aeron_archive \<times> trace) option" where
  "archive_replay S E lay recordingId position length' replayChannel replayStreamId a tr =
     (case archive_startReplay S E recordingId position length' replayChannel replayStreamId a tr of
        None \<Rightarrow> None
      | Some (Inl e, a1, tr1) \<Rightarrow> Some (Inl e, a1, tr1)
      | Some (Inr replaySessionId, a1, tr1) \<Rightarrow>
          (case addSessionId lay replayChannel (ucast replaySessionId) of
             Inl e \<Rightarrow> Some (Inl e, a1, tr1)
           | Inr updatedReplayChannel \<Rightarrow>
               (case add_and_find E Sub updatedReplayChannel replayStreamId tr1 of
                  None \<Rightarrow> None
                | Some (r, tr2) \<Rightarrow> Some (r, a1, tr2))))"

text \<open>The overload with the default image handlers, which are Aeron's; the handlers are not part of the model.\<close>

definition archive_replay_default_handlers ::
  "sbe \<Rightarrow> env \<Rightarrow> layout \<Rightarrow> int64 \<Rightarrow> int64 \<Rightarrow> int64 \<Rightarrow> string \<Rightarrow> int32 \<Rightarrow>
     aeron_archive \<Rightarrow> trace \<Rightarrow> (int64 result \<times> aeron_archive \<times> trace) option" where
  "archive_replay_default_handlers S E lay recordingId position length' replayChannel replayStreamId a tr =
     archive_replay S E lay recordingId position length' replayChannel replayStreamId a tr"

definition archive_listRecordings ::
  "sbe \<Rightarrow> env \<Rightarrow> int64 \<Rightarrow> int32 \<Rightarrow> nat \<Rightarrow>
     aeron_archive \<Rightarrow> trace \<Rightarrow> (int32 result \<times> aeron_archive \<times> trace) option" where
  "archive_listRecordings S E fromRecordingId recordCount consumer a tr =
     narrow_value (callAndPollForDescriptors S E
       (\<lambda>correlationId. proxy_listRecordings S E fromRecordingId recordCount correlationId (aa_controlSessionId a))
       recordCount consumer ''list recordings'' a tr)"

definition archive_listRecordingsForUri ::
  "sbe \<Rightarrow> env \<Rightarrow> int64 \<Rightarrow> int32 \<Rightarrow> string \<Rightarrow> int32 \<Rightarrow> nat \<Rightarrow>
     aeron_archive \<Rightarrow> trace \<Rightarrow> (int32 result \<times> aeron_archive \<times> trace) option" where
  "archive_listRecordingsForUri S E fromRecordingId recordCount channelFragment streamId consumer a tr =
     narrow_value (callAndPollForDescriptors S E
       (\<lambda>correlationId. proxy_listRecordingsForUri S E fromRecordingId recordCount channelFragment streamId
          correlationId (aa_controlSessionId a))
       recordCount consumer ''list recordings for URI'' a tr)"

definition archive_listRecording ::
  "sbe \<Rightarrow> env \<Rightarrow> int64 \<Rightarrow> nat \<Rightarrow>
     aeron_archive \<Rightarrow> trace \<Rightarrow> (int32 result \<times> aeron_archive \<times> trace) option" where
  "archive_listRecording S E recordingId consumer a tr =
     narrow_value (callAndPollForDescriptors S E
       (\<lambda>correlationId. proxy_listRecording S E recordingId correlationId (aa_controlSessionId a))
       1 consumer ''list recording'' a tr)"

definition archive_getRecordingPosition ::
  "sbe \<Rightarrow> env \<Rightarrow> int64 \<Rightarrow>
     aeron_archive \<Rightarrow> trace \<Rightarrow> (int64 result \<times> aeron_archive \<times> trace) option" where
  "archive_getRecordingPosition S E recordingId a tr =
     callAndPollForResponse S E
       (\<lambda>correlationId. proxy_getRecordingPosition S E recordingId correlationId (aa_controlSessionId a)) ''get recording position'' a tr"

definition archive_truncateRecording ::
  "sbe \<Rightarrow> env \<Rightarrow> int64 \<Rightarrow> int64 \<Rightarrow>
     aeron_archive \<Rightarrow> trace \<Rightarrow> (unit result \<times> aeron_archive \<times> trace) option" where
  "archive_truncateRecording S E recordingId position a tr =
     drop_value (callAndPollForResponse S E
       (\<lambda>correlationId. proxy_truncateRecording S E recordingId position correlationId (aa_controlSessionId a)) ''truncate recording'' a tr)"

definition archive_getStopPosition ::
  "sbe \<Rightarrow> env \<Rightarrow> int64 \<Rightarrow>
     aeron_archive \<Rightarrow> trace \<Rightarrow> (int64 result \<times> aeron_archive \<times> trace) option" where
  "archive_getStopPosition S E recordingId a tr =
     callAndPollForResponse S E
       (\<lambda>correlationId. proxy_getStopPosition S E recordingId correlationId (aa_controlSessionId a)) ''get recording stop position'' a tr"

definition archive_findLastMatchingRecording ::
  "sbe \<Rightarrow> env \<Rightarrow> int64 \<Rightarrow> string \<Rightarrow> int32 \<Rightarrow> int32 \<Rightarrow>
     aeron_archive \<Rightarrow> trace \<Rightarrow> (int32 result \<times> aeron_archive \<times> trace) option" where
  "archive_findLastMatchingRecording S E minRecordingId channelFragment streamId sessionId a tr =
     narrow_value (callAndPollForResponse S E
       (\<lambda>correlationId. proxy_findLastMatchingRecording S E minRecordingId channelFragment streamId sessionId
          correlationId (aa_controlSessionId a)) ''find last matching recording'' a tr)"

definition archive_addRecordedPublication ::
  "sbe \<Rightarrow> env \<Rightarrow> layout \<Rightarrow> string \<Rightarrow> int32 \<Rightarrow>
     aeron_archive \<Rightarrow> trace \<Rightarrow> (int64 result \<times> aeron_archive \<times> trace) option" where
  "archive_addRecordedPublication S E lay channel streamId a tr =
     (case add_and_find E Pub channel streamId tr of
        None \<Rightarrow> None
      | Some (Inl e, tr1) \<Rightarrow> Some (Inl e, a, tr1)
      | Some (Inr pubId, tr1) \<Rightarrow>
          (if \<not> env_isOriginal E pubId then
             Some (Inl (ArchiveException (''publication already added for channel='' @ channel @
                          '', stream id='' @ to_string (sint streamId))), a, tr1)
           else
             (case addSessionId lay channel (env_sessionId E pubId) of
                Inl e \<Rightarrow> Some (Inl e, a, tr1)
              | Inr recordingChannel \<Rightarrow>
                  (case archive_startRecording S E recordingChannel streamId LOCAL a tr1 of
                     None \<Rightarrow> None
                   | Some (r, a1, tr2) \<Rightarrow> Some (bind_result r (\<lambda>_. Inr pubId), a1, tr2)))))"

definition archive_addRecordedExclusivePublication ::
  "sbe \<Rightarrow> env \<Rightarrow> layout \<Rightarrow> string \<Rightarrow> int32 \<Rightarrow>
     aeron_archive \<Rightarrow> trace \<Rightarrow> (int64 result \<times> aeron_archive \<times> trace) option" where
  "archive_addRecordedExclusivePublication S E lay channel streamId a tr =
     (case add_and_find E ExclusivePub channel streamId tr of
        None \<Rightarrow> None
      | Some (Inl e, tr1) \<Rightarrow> Some (Inl e, a, tr1)
      | Some (Inr pubId, tr1) \<Rightarrow>
          (case addSessionId lay channel (env_sessionId E pubId) of
             Inl e \<Rightarrow> Some (Inl e, a, tr1)
           | Inr recordingChannel \<Rightarrow>
               (case archive_startRecording S E recordingChannel streamId LOCAL a tr1 of
                  None \<Rightarrow> None
                | Some (r, a1, tr2) \<Rightarrow> Some (bind_result r (\<lambda>_. Inr pubId), a1, tr2))))"

text \<open>The condition of both error polls: a response of this session with an error code.\<close>

definition error_shown :: "sbe \<Rightarrow> aeron_archive \<Rightarrow> control_response_poller \<Rightarrow> bool" where
  "error_shown S a p \<longleftrightarrow>
     response_controlSessionId p = aa_controlSessionId a \<and>
     response_templateId p = ucast (sbe_ControlResponse S) \<and> response_code p = code_ERROR S"

definition archive_pollForErrorResponse ::
  "sbe \<Rightarrow> env \<Rightarrow> aeron_archive \<Rightarrow> trace \<Rightarrow> string option result \<times> aeron_archive \<times> trace" where
  "archive_pollForErrorResponse S E a tr =
     (case response_poll S E (aa_responsePoller a) (Locked # tr) of
        (Inl e, p, tr1) \<Rightarrow> (Inl e, a\<lparr>aa_responsePoller := p\<rparr>, Unlocked # tr1)
      | (Inr fragments, p, tr1) \<Rightarrow>
          (Inr (if fragments \<noteq> 0 \<and> response_isPollComplete p
                then if error_shown S a p then Some (response_errorMessage p) else None
                else None), a\<lparr>aa_responsePoller := p\<rparr>, Unlocked # tr1))"

definition archive_checkForErrorResponse ::
  "sbe \<Rightarrow> env \<Rightarrow> aeron_archive \<Rightarrow> trace \<Rightarrow> unit result \<times> aeron_archive \<times> trace" where
  "archive_checkForErrorResponse S E a tr =
     (case response_poll S E (aa_responsePoller a) (Locked # tr) of
        (Inl e, p, tr1) \<Rightarrow> (Inl e, a\<lparr>aa_responsePoller := p\<rparr>, Unlocked # tr1)
      | (Inr fragments, p, tr1) \<Rightarrow>
          (if fragments \<noteq> 0 \<and> response_isPollComplete p \<and> error_shown S a p
           then Inl (ArchiveException (''error: '' @ response_errorMessage p @ '', relevant id: '' @
                       to_string (sint (response_relevantId p))))
           else Inr (), a\<lparr>aa_responsePoller := p\<rparr>, Unlocked # tr1))"

section \<open>What an exchange does\<close>

text \<open>
  What the constructor establishes and every operation keeps: usable limits, and one session id
  in the client and in its descriptor poller.
\<close>

definition archive_ok :: "aeron_archive \<Rightarrow> bool" where
  "archive_ok a \<longleftrightarrow>
     0 <s cp_fragmentLimit (aa_responsePoller a) \<and> - (2 ^ 31) < sint (px_retryAttempts (aa_proxy a)) \<and>
     dp_controlSessionId (aa_descriptorPoller a) = aa_controlSessionId a"

text \<open>
  Two states of the same client: only the buffer of the proxy and what the pollers show differ.
\<close>

definition same_client :: "aeron_archive \<Rightarrow> aeron_archive \<Rightarrow> bool" where
  "same_client a b \<longleftrightarrow>
     aa_ctx b = aa_ctx a \<and> aa_aeron b = aa_aeron a \<and> aa_messageTimeoutNs b = aa_messageTimeoutNs a \<and>
     aa_controlSessionId b = aa_controlSessionId a \<and>
     px_retryAttempts (aa_proxy b) = px_retryAttempts (aa_proxy a) \<and>
     px_connectTimeoutNs (aa_proxy b) = px_connectTimeoutNs (aa_proxy a) \<and>
     cp_fragmentLimit (aa_responsePoller b) = cp_fragmentLimit (aa_responsePoller a) \<and>
     dp_fragmentLimit (aa_descriptorPoller b) = dp_fragmentLimit (aa_descriptorPoller a) \<and>
     dp_controlSessionId (aa_descriptorPoller b) = dp_controlSessionId (aa_descriptorPoller a)"

lemma same_client_refl [simp]: "same_client a a"
  by (simp add: same_client_def)

lemma same_client_trans: "same_client a b \<Longrightarrow> same_client b c \<Longrightarrow> same_client a c"
  by (simp add: same_client_def)

lemma same_client_ok: "same_client a b \<Longrightarrow> archive_ok a \<Longrightarrow> archive_ok b"
  by (simp add: same_client_def archive_ok_def)

text \<open>
  The course of an exchange: under the lock an id is drawn and the request with that id is sent;
  if it was sent, the outcome of the wait is the result, else there is none.
\<close>

definition exchanged ::
  "sbe \<Rightarrow> env \<Rightarrow> aeron_archive \<Rightarrow> (int64 \<Rightarrow> request) \<Rightarrow> string \<Rightarrow> trace \<Rightarrow> int64 result \<Rightarrow> trace \<Rightarrow> bool" where
  "exchanged S E a req name tr res tr' \<longleftrightarrow>
     (let corr = env_nextCorrelationId E (Locked # tr)
      in \<exists>sent tr2.
           sends_request S E (req corr) (px_retryAttempts (aa_proxy a))
             (CorrelationIdDrawn corr # Locked # tr) sent tr2 \<and>
           (case sent of
              Inl e \<Rightarrow> res = Inl e \<and> tr' = Unlocked # tr2
            | Inr False \<Rightarrow> res = Inl (ArchiveException (name @ '': failed to send'')) \<and> tr' = Unlocked # tr2
            | Inr True \<Rightarrow> \<exists>p tr3. tr' = Unlocked # tr3 \<and>
                answered S (env_now E tr2 + aa_messageTimeoutNs a)
                  (response_decision S (aa_controlSessionId a) corr)
                  (ClockRead (env_now E tr2) # tr2) (res, p, tr3)))"

definition listed ::
  "sbe \<Rightarrow> env \<Rightarrow> aeron_archive \<Rightarrow> (int64 \<Rightarrow> request) \<Rightarrow> int32 \<Rightarrow> nat \<Rightarrow> string \<Rightarrow> trace \<Rightarrow>
     int64 result \<Rightarrow> trace \<Rightarrow> bool" where
  "listed S E a req recordCount consumer name tr res tr' \<longleftrightarrow>
     (let corr = env_nextCorrelationId E (Locked # tr)
      in \<exists>sent tr2.
           sends_request S E (req corr) (px_retryAttempts (aa_proxy a))
             (CorrelationIdDrawn corr # Locked # tr) sent tr2 \<and>
           (case sent of
              Inl e \<Rightarrow> res = Inl e \<and> tr' = Unlocked # tr2
            | Inr False \<Rightarrow> res = Inl (ArchiveException (name @ '': failed to send'')) \<and> tr' = Unlocked # tr2
            | Inr True \<Rightarrow> \<exists>d tr3. tr' = Unlocked # tr3 \<and>
                descriptors_outcome S E recordCount
                  (descriptor_reset corr recordCount consumer (aa_descriptorPoller a))
                  (ClockRead (env_now E tr2) # tr2) (res, d, tr3)))"

text \<open>
  The client of the proxy's contract: an exchange made with any operation that sends one request
  per correlation id.
\<close>

locale exchange =
  fixes send :: "sbe \<Rightarrow> env \<Rightarrow> sender" and req :: "int64 \<Rightarrow> request"
  assumes operation: "proxy_operation (\<lambda>S E. send S E corr) (req corr)"
begin

lemma exchange_outcome:
  assumes "break_stops E" and "archive_ok a"
    and "callAndPollForResponse S E (send S E) name a tr = Some (res, a', tr')"
  shows "exchanged S E a req name tr res tr' \<and> same_client a a'"
proof -
  define corr where "corr = env_nextCorrelationId E (Locked # tr)"
  let ?tr1 = "CorrelationIdDrawn corr # Locked # tr"
  obtain sent px tr2 where f: "send S E corr (aa_proxy a) ?tr1 = (sent, px, tr2)"
    by (metis prod.exhaust)
  have sends: "sends_request S E (req corr) (px_retryAttempts (aa_proxy a)) ?tr1 sent tr2"
    using proxy_operation.sends [OF operation _ f] assms(2) by (simp add: archive_ok_def)
  have frame: "px_retryAttempts px = px_retryAttempts (aa_proxy a)"
      "px_connectTimeoutNs px = px_connectTimeoutNs (aa_proxy a)"
    using proxy_operation.frame [OF operation f] by auto
  show ?thesis
  proof (cases "sent = Inr True")
    case True
    then obtain r p tr3 where poll: "pollForResponse S E (aa_messageTimeoutNs a) (aa_controlSessionId a) corr
          (aa_responsePoller a) tr2 = Some (r, p, tr3)"
        and res: "res = r" "a' = a\<lparr>aa_proxy := px, aa_responsePoller := p\<rparr>" "tr' = Unlocked # tr3"
      using assms(3) f
      by (auto simp: callAndPollForResponse_def call_defs Let_def corr_def split: option.splits)
    have "0 <s cp_fragmentLimit (aa_responsePoller a)" using assms(2) by (simp add: archive_ok_def)
    note ans = pollForResponse_answered [OF assms(1) this poll]
    have "exchanged S E a req name tr res tr'"
      using sends ans True res
      unfolding exchanged_def Let_def corr_def [symmetric]
      by (intro exI [of _ sent] exI [of _ tr2]) auto
    moreover have "same_client a a'"
      using frame ans res by (simp add: same_client_def)
    ultimately show ?thesis by simp
  next
    case False
    then have "exchanged S E a req name tr res tr'"
      using sends assms(3) f unfolding exchanged_def Let_def corr_def [symmetric]
      by (intro exI [of _ sent] exI [of _ tr2])
        (auto simp: callAndPollForResponse_def call_defs Let_def corr_def
          split: sum.splits bool.splits)
    moreover have "same_client a a'"
      using False frame assms(3) f
      by (auto simp: callAndPollForResponse_def call_defs Let_def corr_def same_client_def
          split: sum.splits bool.splits)
    ultimately show ?thesis by simp
  qed
qed

lemma listing_outcome:
  assumes "break_stops E" and "archive_ok a"
    and "callAndPollForDescriptors S E (send S E) recordCount consumer name a tr = Some (res, a', tr')"
  shows "listed S E a req recordCount consumer name tr res tr' \<and> same_client a a'"
proof -
  define corr where "corr = env_nextCorrelationId E (Locked # tr)"
  let ?tr1 = "CorrelationIdDrawn corr # Locked # tr"
  obtain sent px tr2 where f: "send S E corr (aa_proxy a) ?tr1 = (sent, px, tr2)"
    by (metis prod.exhaust)
  have sends: "sends_request S E (req corr) (px_retryAttempts (aa_proxy a)) ?tr1 sent tr2"
    using proxy_operation.sends [OF operation _ f] assms(2) by (simp add: archive_ok_def)
  have frame: "px_retryAttempts px = px_retryAttempts (aa_proxy a)"
      "px_connectTimeoutNs px = px_connectTimeoutNs (aa_proxy a)"
    using proxy_operation.frame [OF operation f] by auto
  show ?thesis
  proof (cases "sent = Inr True")
    case True
    then obtain r d tr3 where poll: "pollForDescriptors S E (aa_messageTimeoutNs a) corr recordCount consumer
          (aa_descriptorPoller a) tr2 = Some (r, d, tr3)"
        and res: "res = r" "a' = a\<lparr>aa_proxy := px, aa_descriptorPoller := d\<rparr>" "tr' = Unlocked # tr3"
      using assms(3) f
      by (auto simp: callAndPollForDescriptors_def call_defs Let_def corr_def split: option.splits)
    note ans = pollForDescriptors_outcome [OF assms(1) poll]
    have "listed S E a req recordCount consumer name tr res tr'"
      using sends ans True res
      unfolding listed_def Let_def corr_def [symmetric]
      by (intro exI [of _ sent] exI [of _ tr2]) auto
    moreover have "same_client a a'"
      using frame ans res
      by (simp add: same_client_def descriptors_outcome_def accounted_def same_request_def descriptor_reset_def)
    ultimately show ?thesis by simp
  next
    case False
    then have "listed S E a req recordCount consumer name tr res tr'"
      using sends assms(3) f unfolding listed_def Let_def corr_def [symmetric]
      by (intro exI [of _ sent] exI [of _ tr2])
        (auto simp: callAndPollForDescriptors_def call_defs Let_def corr_def
          split: sum.splits bool.splits)
    moreover have "same_client a a'"
      using False frame assms(3) f
      by (auto simp: callAndPollForDescriptors_def call_defs Let_def corr_def same_client_def
          split: sum.splits bool.splits)
    ultimately show ?thesis by simp
  qed
qed

text \<open>
  An exchange returns when messages stop coming and the clock passes every deadline that can
  have been set, which is at a time no later than the last of the bounded number of offers.
\<close>

lemma exchange_returns:
  assumes "break_stops E" and "archive_ok a" and "quiet_after E M"
    and "\<forall>tr2. extends tr tr2 \<and>
           length tr2 \<le> length tr + 2 * nat (max 1 (sint (px_retryAttempts (aa_proxy a)))) + 2 \<longrightarrow>
           clock_passes E (env_now E tr2 + aa_messageTimeoutNs a) N"
  shows "\<exists>r. callAndPollForResponse S E (send S E) name a tr = Some r"
proof -
  define corr where "corr = env_nextCorrelationId E (Locked # tr)"
  let ?tr1 = "CorrelationIdDrawn corr # Locked # tr"
  obtain sent px tr2 where f: "send S E corr (aa_proxy a) ?tr1 = (sent, px, tr2)"
    by (metis prod.exhaust)
  have att: "- (2 ^ 31) < sint (px_retryAttempts (aa_proxy a))"
      "0 <s cp_fragmentLimit (aa_responsePoller a)"
    using assms(2) by (auto simp: archive_ok_def)
  obtain bytes rs where rs: "tr2 = offer_events bytes rs @ ?tr1"
      "length rs \<le> nat (max 1 (sint (px_retryAttempts (aa_proxy a))))"
    using proxy_operation.only_offers [OF operation att(1) f] by blast
  have "length (offer_events bytes rs) \<le> 2 * length rs"
    by (rule length_offer_events)
  then have "length tr2 \<le> length tr + 2 * nat (max 1 (sint (px_retryAttempts (aa_proxy a)))) + 2"
    using rs by simp
  moreover have "extends tr tr2" using rs(1) by (simp add: extends_def)
  ultimately have "clock_passes E (env_now E tr2 + aa_messageTimeoutNs a) N"
    using assms(4) by blast
  then obtain r where "pollForResponse S E (aa_messageTimeoutNs a) (aa_controlSessionId a) corr
      (aa_responsePoller a) tr2 = Some r"
    using pollForResponse_returns [OF assms(1) att(2) assms(3)] by blast
  then show ?thesis
    using f by (cases r rule: prod_cases3)
      (auto simp: callAndPollForResponse_def call_defs Let_def corr_def split: sum.splits bool.splits)
qed

end

end
