(* ===== verification/ArchiveOperations.thy ===== *)
theory ArchiveOperations
  imports AeronArchive
begin

text \<open>
  The public operations of the client as a whole: every operation that awaits one response, by
  the request it stands for, and the listing operations. The interface of the proxy
  (\<open>proxy_operation\<close>) gives that of the client (\<open>exchange\<close>) for each of them; the theorems state
  what an operation sends, what it returns, how it fails and when it returns.
\<close>

section \<open>Operations\<close>

datatype operation =
    StartRecording string int32 SourceLocation
  | ExtendRecording int64 string int32 SourceLocation
  | StopRecording string int32
  | StopRecordingSubscription int64
  | StartReplay int64 int64 int64 string int32
  | StopReplay int64
  | GetRecordingPosition int64
  | TruncateRecording int64 int64
  | GetStopPosition int64
  | FindLastMatchingRecording int64 string int32 int32

text \<open>What an operation returns: nothing, or an integer of one of two widths.\<close>

datatype answer = Done | Value64 int64 | Value32 int32

definition answers ::
  "('v \<Rightarrow> answer) \<Rightarrow> ('v result \<times> aeron_archive \<times> trace) option \<Rightarrow>
     (answer result \<times> aeron_archive \<times> trace) option" where
  "answers g x =
     (case x of None \<Rightarrow> None | Some (r, a, tr) \<Rightarrow> Some (bind_result r (\<lambda>v. Inr (g v)), a, tr))"

text \<open>Calling the method of an operation.\<close>

fun perform ::
  "sbe \<Rightarrow> env \<Rightarrow> operation \<Rightarrow> aeron_archive \<Rightarrow> trace \<Rightarrow> (answer result \<times> aeron_archive \<times> trace) option"
where
  "perform S E (StartRecording ch sid loc) a tr = answers Value64 (archive_startRecording S E ch sid loc a tr)"
| "perform S E (ExtendRecording rid ch sid loc) a tr =
     answers Value64 (archive_extendRecording S E rid ch sid loc a tr)"
| "perform S E (StopRecording ch sid) a tr = answers (\<lambda>_. Done) (archive_stopRecording S E ch sid a tr)"
| "perform S E (StopRecordingSubscription sub) a tr =
     answers (\<lambda>_. Done) (archive_stopRecording_subscription S E sub a tr)"
| "perform S E (StartReplay rid pos len ch sid) a tr =
     answers Value64 (archive_startReplay S E rid pos len ch sid a tr)"
| "perform S E (StopReplay rs) a tr = answers (\<lambda>_. Done) (archive_stopReplay S E rs a tr)"
| "perform S E (GetRecordingPosition rid) a tr = answers Value64 (archive_getRecordingPosition S E rid a tr)"
| "perform S E (TruncateRecording rid pos) a tr =
     answers (\<lambda>_. Done) (archive_truncateRecording S E rid pos a tr)"
| "perform S E (GetStopPosition rid) a tr = answers Value64 (archive_getStopPosition S E rid a tr)"
| "perform S E (FindLastMatchingRecording rid ch sid ses) a tr =
     answers Value32 (archive_findLastMatchingRecording S E rid ch sid ses a tr)"

text \<open>What it is there to send in a session under a correlation id, and to return.\<close>

fun operation_request :: "operation \<Rightarrow> int64 \<Rightarrow> int64 \<Rightarrow> request" where
  "operation_request (StartRecording ch sid loc) cs corr = StartRecordingRequest cs corr sid loc ch"
| "operation_request (ExtendRecording rid ch sid loc) cs corr = ExtendRecordingRequest cs corr rid sid loc ch"
| "operation_request (StopRecording ch sid) cs corr = StopRecordingRequest cs corr sid ch"
| "operation_request (StopRecordingSubscription sub) cs corr = StopRecordingSubscriptionRequest cs corr sub"
| "operation_request (StartReplay rid pos len ch sid) cs corr = ReplayRequest cs corr rid pos len sid ch"
| "operation_request (StopReplay rs) cs corr = StopReplayRequest cs corr rs"
| "operation_request (GetRecordingPosition rid) cs corr = RecordingPositionRequest cs corr rid"
| "operation_request (TruncateRecording rid pos) cs corr = TruncateRecordingRequest cs corr rid pos"
| "operation_request (GetStopPosition rid) cs corr = StopPositionRequest cs corr rid"
| "operation_request (FindLastMatchingRecording rid ch sid ses) cs corr =
     FindLastMatchingRecordingRequest cs corr rid ses sid ch"

fun operation_answer :: "operation \<Rightarrow> int64 \<Rightarrow> answer" where
  "operation_answer (StopRecording _ _) v = Done"
| "operation_answer (StopRecordingSubscription _) v = Done"
| "operation_answer (StopReplay _) v = Done"
| "operation_answer (TruncateRecording _ _) v = Done"
| "operation_answer (FindLastMatchingRecording _ _ _ _) v = Value32 (ucast v)"
| "operation_answer _ v = Value64 v"

fun operation_name :: "operation \<Rightarrow> string" where
  "operation_name (StartRecording _ _ _) = ''start recording''"
| "operation_name (ExtendRecording _ _ _ _) = ''extend recording''"
| "operation_name (StopRecording _ _) = ''stop recording''"
| "operation_name (StopRecordingSubscription _) = ''stop recording''"
| "operation_name (StartReplay _ _ _ _ _) = ''start replay''"
| "operation_name (StopReplay _) = ''stop replay''"
| "operation_name (GetRecordingPosition _) = ''get recording position''"
| "operation_name (TruncateRecording _ _) = ''truncate recording''"
| "operation_name (GetStopPosition _) = ''get recording stop position''"
| "operation_name (FindLastMatchingRecording _ _ _ _) = ''find last matching recording''"

definition operation_sender :: "operation \<Rightarrow> int64 \<Rightarrow> sbe \<Rightarrow> env \<Rightarrow> sender" where
  "operation_sender o' cs S E corr = send_request S E (operation_request o' cs corr)"

lemma perform_exchange:
  "perform S E o' a tr =
     answers (operation_answer o')
       (callAndPollForResponse S E (operation_sender o' (aa_controlSessionId a) S E) (operation_name o') a tr)"
  by (cases o')
    (simp_all add: operation_sender_def [abs_def] request_defs archive_startRecording_def
      archive_extendRecording_def archive_stopRecording_def archive_stopRecording_subscription_def
      archive_startReplay_def archive_stopReplay_def archive_getRecordingPosition_def
      archive_truncateRecording_def archive_getStopPosition_def archive_findLastMatchingRecording_def
      answers_def drop_value_def narrow_value_def bind_result_def split: option.split prod.split sum.split)

interpretation operation_exchange: exchange "operation_sender o' cs" "operation_request o' cs" for o' cs
  by unfold_locales
    (simp_all add: operation_sender_def send_request_frame send_request_sends)

lemma perform_outcome:
  assumes "break_stops E" and "archive_ok a" and "perform S E o' a tr = Some (res, a', tr')"
  shows "\<exists>r. exchanged S E a (operation_request o' (aa_controlSessionId a)) (operation_name o') tr r tr' \<and>
     res = bind_result r (\<lambda>v. Inr (operation_answer o' v)) \<and> same_client a a'"
proof -
  obtain r where run: "callAndPollForResponse S E (operation_sender o' (aa_controlSessionId a) S E)
        (operation_name o') a tr = Some (r, a', tr')"
      and res: "res = bind_result r (\<lambda>v. Inr (operation_answer o' v))"
    using assms(3) by (auto simp: perform_exchange answers_def split: option.splits)
  show ?thesis
    using operation_exchange.exchange_outcome [OF assms(1,2) run] res by blast
qed

section \<open>A sample client\<close>

definition sample_context :: archive_context where
  "sample_context = \<lparr>ctx_cfg = default_configuration, ctx_aeronDirectoryName = [], ctx_aeronContext = None,
     ctx_aeron = Some 0, ctx_controlRequestChannel = ''aeron:ipc''\<rparr>"

definition sample_descriptor_poller :: recording_descriptor_poller where
  "sample_descriptor_poller =
     \<lparr>dp_fragmentLimit = 10, dp_controlSessionId = 5, dp_correlationId = 0, dp_remainingRecordCount = 0,
      dp_consumer = 0, dp_isDispatchComplete = False\<rparr>"

definition sample_archive :: aeron_archive where
  "sample_archive =
     \<lparr>aa_ctx = sample_context, aa_proxy = sample_proxy, aa_responsePoller = sample_response_poller,
      aa_descriptorPoller = sample_descriptor_poller, aa_aeron = 0, aa_messageTimeoutNs = 100,
      aa_controlSessionId = 5\<rparr>"

lemma sample_archive_ok: "archive_ok sample_archive"
  by (simp add: archive_ok_def sample_archive_def sample_proxy_def sample_response_poller_def
      sample_descriptor_poller_def word_sless_alt)

text \<open>In the sample environment every small request is sent at the first attempt.\<close>

lemma sample_sends:
  assumes "wrapAndApplyHeader sample_sbe req sample_proxy = (Inr len, p)"
  shows "send_request sample_sbe (sample_env reply) req sample_proxy tr =
     (Inr True, p, Offered (payload sample_sbe len p) 1 # tr)"
  using assms wrap_frame [OF assms]
  by (simp add: send_request_def offer_def offer_loop.simps call_defs sample_env_def word_sless_alt)

lemma sample_next_message: "next_message (sample_env reply) n tr = reply"
  by (simp add: next_message_def sample_env_def)

lemma sample_exchange:
  assumes "wrapAndApplyHeader sample_sbe (operation_request o' 5 7) sample_proxy = (Inr len, p)"
    and "response_decision sample_sbe 5 7 f = Some r"
  shows "\<exists>a' tr'. perform sample_sbe (sample_env (Some f)) o' sample_archive [] =
     Some (bind_result r (\<lambda>v. Inr (operation_answer o' v)), a', tr')"
proof -
  let ?E = "sample_env (Some f)"
  let ?tr = "[Offered (payload sample_sbe len p) 1, CorrelationIdDrawn 7, Locked]"
  have "0 <s cp_fragmentLimit sample_response_poller"
    by (simp add: sample_response_poller_def word_sless_alt)
  then obtain q tr1 where "pollForResponse sample_sbe ?E 100 5 7 sample_response_poller ?tr = Some (r, q, tr1)"
    using pollForResponse_at_once [OF sample_break_stops _ sample_next_message assms(2)] by blast
  moreover have "env_nextCorrelationId ?E [Locked] = 7" by (simp add: sample_env_def)
  ultimately show ?thesis
    using assms(1)
    by (simp add: perform_exchange answers_def callAndPollForResponse_def operation_sender_def call_defs Let_def
        sample_archive_def sample_sends)
qed

lemma sample_deadline:
  assumes "length tr \<le> 50"
  shows "clock_passes (sample_env reply) (env_now (sample_env reply) tr + aa_messageTimeoutNs sample_archive) 200"
proof (rule sample_clock)
  have "env_now (sample_env reply) tr + aa_messageTimeoutNs sample_archive = word_of_nat (length tr + 100)"
    using assms by (simp add: sample_env_def sample_archive_def)
  then have "sint (env_now (sample_env reply) tr + aa_messageTimeoutNs sample_archive) = int (length tr) + 100"
    using assms by (simp only: signed_of_nat) (simp add: signed_take_bit_int_eq_self)
  then show "sint (env_now (sample_env reply) tr + aa_messageTimeoutNs sample_archive) < 1000000"
    "nat (sint (env_now (sample_env reply) tr + aa_messageTimeoutNs sample_archive)) < 200"
    using assms by simp_all
qed

lemma sample_wrap_position:
  "wrapAndApplyHeader sample_sbe (RecordingPositionRequest 5 7 3) sample_proxy =
     (Inr 4, sample_proxy\<lparr>px_buffer := [13, 3, 5, 7, 3, 0, 0, 0]\<rparr>)"
  by (simp add: wrapAndApplyHeader_def sample_proxy_def sample_defs)

lemma sample_decides: "response_decision sample_sbe 5 7 sample_response_message = Some (Inr 42)"
  by (simp add: response_decision_def decode_response_def read_response_def sample_response_message_def sample_defs)

lemma sample_run:
  "\<exists>a' tr'. perform sample_sbe (sample_env (Some sample_response_message)) (GetRecordingPosition 3)
      sample_archive [] = Some (Inr (Value64 42), a', tr')"
  using sample_exchange [of "GetRecordingPosition 3", OF _ sample_decides] sample_wrap_position
  by simp

section \<open>Correctness of the operations\<close>

text \<open>
  C1: A value is the answer to this very request. When one of the ten operations that await a
  response returns a value, then under one lock that is released again a fresh correlation
  id was drawn and bytes were accepted by the publication that decode to the request of the
  operation, with the session id and that correlation id, after offers and idling only; and the newest
  message delivered since is a response of this session, with that correlation id and the code OK, whose relevant
  id is the value (dropped for an operation without a result, cut to 32 bits for
  \<^verbatim>\<open>findLastMatchingRecording\<close>). No message before it was an error of this session or a response
  to the request. The client keeps its context, session and limits.
\<close>

theorem operation_returns_its_answer:
  assumes "break_stops E" and "archive_ok a" and "perform S E o' a tr = Some (Inr ans, a', tr')"
  shows "let corr = env_nextCorrelationId E (Locked # tr); cs = aa_controlSessionId a
     in same_client a a' \<and>
        (\<exists>bytes offered offers waits f fs m.
           tr' = Unlocked # waits @ Offered bytes offered # offers @ CorrelationIdDrawn corr # Locked # tr \<and>
           0 <s offered \<and> list_all sending_event offers \<and>
           (\<forall>D. sbe_decodes S D \<longrightarrow>
              D bytes = Some (request_header S (type_of_request (operation_request o' cs corr)),
                              operation_request o' cs corr)) \<and>
           list_all waiting_event waits \<and> deliveries waits = f # fs \<and>
           (\<forall>g \<in> set fs. response_decision S cs corr g = None) \<and>
           decode_response S f = Some m \<and> re_controlSessionId m = cs \<and> re_correlationId m = corr \<and>
           re_code m = code_OK S \<and> ans = operation_answer o' (re_relevantId m))"
proof -
  define corr where "corr = env_nextCorrelationId E (Locked # tr)"
  let ?cs = "aa_controlSessionId a" and ?tr1 = "CorrelationIdDrawn corr # Locked # tr"
  obtain r where ex: "exchanged S E a (operation_request o' ?cs) (operation_name o') tr r tr'"
      and "Inr ans = bind_result r (\<lambda>v. Inr (operation_answer o' v))" and same: "same_client a a'"
    using perform_outcome [OF assms] by blast
  then obtain v where v: "r = Inr v" "ans = operation_answer o' v" by (cases r) auto
  obtain sent tr2 where sends: "sends_request S E (operation_request o' ?cs corr)
        (px_retryAttempts (aa_proxy a)) ?tr1 sent tr2"
      and course: "case sent of
          Inl e \<Rightarrow> r = Inl e \<and> tr' = Unlocked # tr2
        | Inr False \<Rightarrow> r = Inl (ArchiveException (operation_name o' @ '': failed to send'')) \<and> tr' = Unlocked # tr2
        | Inr True \<Rightarrow> \<exists>p tr3. tr' = Unlocked # tr3 \<and>
            answered S (env_now E tr2 + aa_messageTimeoutNs a) (response_decision S ?cs corr)
              (ClockRead (env_now E tr2) # tr2) (r, p, tr3)"
    using ex unfolding exchanged_def Let_def corr_def [symmetric] by blast
  have sent: "sent = Inr True" using course v(1) by (auto split: sum.splits bool.splits)
  then obtain p tr3 where tr3: "tr' = Unlocked # tr3"
      "answered S (env_now E tr2 + aa_messageTimeoutNs a) (response_decision S ?cs corr)
        (ClockRead (env_now E tr2) # tr2) (Inr v, p, tr3)"
    using course v(1) by auto
  then obtain f fs es where f: "tr3 = es @ ClockRead (env_now E tr2) # tr2" "list_all waiting_event es"
      "deliveries es = f # fs" "response_decision S ?cs corr f = Some (Inr v)"
      "\<forall>g \<in> set fs. response_decision S ?cs corr g = None"
    by (auto simp: answered_def)
  obtain m where m: "decode_response S f = Some m" "re_controlSessionId m = ?cs"
      "re_correlationId m = corr" "re_code m = code_OK S" "v = re_relevantId m"
    using f(4) by (auto simp: response_decision_def split: option.splits if_splits)
  obtain bytes offered offers where o: "tr2 = Offered bytes offered # offers @ ?tr1" "0 <s offered" "list_all sending_event offers"
      "\<forall>D. sbe_decodes S D \<longrightarrow> D bytes =
        Some (request_header S (type_of_request (operation_request o' ?cs corr)), operation_request o' ?cs corr)"
    using sends_request_True [OF sends [unfolded sent]] by blast
  have "tr' = Unlocked # (es @ [ClockRead (env_now E tr2)]) @ Offered bytes offered # offers @ ?tr1"
    using tr3(1) f(1) o(1) by simp
  moreover have "list_all waiting_event (es @ [ClockRead (env_now E tr2)])"
      "deliveries (es @ [ClockRead (env_now E tr2)]) = f # fs"
    using f(2,3) by simp_all
  ultimately show ?thesis
    using same o(2-4) f(5) m v(2) unfolding Let_def corr_def [symmetric] by blast
qed

lemma operation_returns_its_answer_witness:
  "\<exists>a' tr'. perform sample_sbe (sample_env (Some sample_response_message)) (GetRecordingPosition 3)
      sample_archive [] = Some (Inr (Value64 42), a', tr') \<and> same_client sample_archive a' \<and>
     (\<exists>bytes offered. Offered bytes offered \<in> set tr' \<and>
        sample_decode bytes = Some (request_header sample_sbe T_RecordingPosition, RecordingPositionRequest 5 7 3))"
proof -
  let ?E = "sample_env (Some sample_response_message)"
  obtain a' tr' where run: "perform sample_sbe ?E (GetRecordingPosition 3) sample_archive [] =
      Some (Inr (Value64 42), a', tr')"
    using sample_run by blast
  have "env_nextCorrelationId ?E [Locked] = 7" "aa_controlSessionId sample_archive = 5"
    by (simp_all add: sample_env_def sample_archive_def)
  then have "same_client sample_archive a' \<and>
     (\<exists>bytes offered. Offered bytes offered \<in> set tr' \<and>
        sample_decode bytes = Some (request_header sample_sbe T_RecordingPosition, RecordingPositionRequest 5 7 3))"
    using operation_returns_its_answer [OF sample_break_stops sample_archive_ok run] sample_decodes
    by (fastforce simp: Let_def)
  then show ?thesis using run by blast
qed

text \<open>
  C2: An exception has one of five reasons, and the lock is released before it leaves. The codec
  or the publication threw while the request was sent; or the attempts were used up, and the
  text names the operation; or the request was sent, and the newest message is the first error
  of the session or the response to the request with an unexpected code; or no message decided
  and the poll threw, the subscription was found disconnected, or the clock was read past the
  time of the first reading plus the message timeout.
\<close>

theorem operation_fails_for_a_reason:
  assumes "break_stops E" and "archive_ok a" and "perform S E o' a tr = Some (Inl e, a', tr')"
  shows "let corr = env_nextCorrelationId E (Locked # tr); cs = aa_controlSessionId a
     in same_client a a' \<and>
        (\<exists>sent tr2 tr3. tr' = Unlocked # tr3 \<and>
           sends_request S E (operation_request o' cs corr) (px_retryAttempts (aa_proxy a))
             (CorrelationIdDrawn corr # Locked # tr) sent tr2 \<and>
           (sent = Inl e \<and> tr3 = tr2 \<or>
            sent = Inr False \<and> tr3 = tr2 \<and> e = ArchiveException (operation_name o' @ '': failed to send'') \<or>
            sent = Inr True \<and>
              (\<exists>f fs es. tr3 = es @ ClockRead (env_now E tr2) # tr2 \<and> list_all waiting_event es \<and>
                 deliveries es = f # fs \<and> response_decision S cs corr f = Some (Inl e) \<and>
                 (\<forall>g \<in> set fs. response_decision S cs corr g = None)) \<or>
            sent = Inr True \<and>
              waited (\<lambda>f. response_decision S cs corr f = None) (ClockRead (env_now E tr2) # tr2) tr3 \<and>
              wait_failed S (env_now E tr2 + aa_messageTimeoutNs a) e tr3))"
proof -
  define corr where "corr = env_nextCorrelationId E (Locked # tr)"
  let ?cs = "aa_controlSessionId a" and ?tr1 = "CorrelationIdDrawn corr # Locked # tr"
  obtain r where ex: "exchanged S E a (operation_request o' ?cs) (operation_name o') tr r tr'"
      and "Inl e = bind_result r (\<lambda>v. Inr (operation_answer o' v))" and same: "same_client a a'"
    using perform_outcome [OF assms] by blast
  then have r: "r = Inl e" by (cases r) auto
  obtain sent tr2 where sends: "sends_request S E (operation_request o' ?cs corr)
        (px_retryAttempts (aa_proxy a)) ?tr1 sent tr2"
      and course: "case sent of
          Inl e' \<Rightarrow> r = Inl e' \<and> tr' = Unlocked # tr2
        | Inr False \<Rightarrow> r = Inl (ArchiveException (operation_name o' @ '': failed to send'')) \<and> tr' = Unlocked # tr2
        | Inr True \<Rightarrow> \<exists>p tr3. tr' = Unlocked # tr3 \<and>
            answered S (env_now E tr2 + aa_messageTimeoutNs a) (response_decision S ?cs corr)
              (ClockRead (env_now E tr2) # tr2) (r, p, tr3)"
    using ex unfolding exchanged_def Let_def corr_def [symmetric] by blast
  show ?thesis
  proof (cases "sent = Inr True")
    case True
    then obtain p tr3 where tr3: "tr' = Unlocked # tr3"
        "answered S (env_now E tr2 + aa_messageTimeoutNs a) (response_decision S ?cs corr)
          (ClockRead (env_now E tr2) # tr2) (Inl e, p, tr3)"
      using course r by auto
    then show ?thesis
      using same sends True unfolding Let_def corr_def [symmetric] answered_def
      by (intro conjI exI [of _ sent] exI [of _ tr2] exI [of _ tr3]) auto
  next
    case False
    then show ?thesis
      using same sends course r unfolding Let_def corr_def [symmetric]
      by (intro conjI exI [of _ sent] exI [of _ tr2] exI [of _ tr2]) (auto split: sum.splits bool.splits)
  qed
qed

definition sample_error_message :: fragment where
  "sample_error_message = \<lparr>buffer = [1, 5, 9, 2, 1, 110, 111], offset = 0\<rparr>"

lemma sample_error_decides: "response_decision sample_sbe 5 7 sample_error_message =
    Some (Inl (ArchiveException ''response for correlation id: 7, error: no, relevant id: 2''))"
proof -
  have "char_of (110 :: nat) = CHR ''n''" "char_of (111 :: nat) = CHR ''o''" by code_simp+
  moreover have "to_string 7 = ''7''" "to_string 2 = ''2''" by code_simp+
  ultimately show ?thesis
    by (simp add: response_decision_def decode_response_def read_response_def sample_error_message_def
        sample_defs)
qed

lemma operation_fails_for_a_reason_witness:
  "\<exists>a' tr'. perform sample_sbe (sample_env (Some sample_error_message)) (GetRecordingPosition 3)
      sample_archive [] =
        Some (Inl (ArchiveException ''response for correlation id: 7, error: no, relevant id: 2''), a', tr') \<and>
     same_client sample_archive a' \<and> (\<exists>tr3. tr' = Unlocked # tr3)"
proof -
  let ?E = "sample_env (Some sample_error_message)"
  obtain a' tr' where run: "perform sample_sbe ?E (GetRecordingPosition 3) sample_archive [] =
      Some (Inl (ArchiveException ''response for correlation id: 7, error: no, relevant id: 2''), a', tr')"
    using sample_exchange [of "GetRecordingPosition 3", OF _ sample_error_decides] sample_wrap_position
    by auto
  show ?thesis
    using operation_fails_for_a_reason [OF sample_break_stops sample_archive_ok run] run
    by (auto simp: Let_def)
qed

text \<open>
  C7: Every operation returns when the outside is quiet and time goes on: when, after some number
  of calls, no message is delivered any more, and the clock passes the deadline, wherever in
  the bounded stretch of sending it was set. So an operation can wait for ever only while
  messages keep coming or the clock stands.
\<close>

theorem operations_return:
  assumes "break_stops E" and "archive_ok a" and "quiet_after E M"
    and "\<forall>tr2. extends tr tr2 \<and>
           length tr2 \<le> length tr + 2 * nat (max 1 (sint (px_retryAttempts (aa_proxy a)))) + 2 \<longrightarrow>
           clock_passes E (env_now E tr2 + aa_messageTimeoutNs a) N"
  shows "\<exists>res a' tr'. perform S E o' a tr = Some (res, a', tr')"
proof -
  obtain r where "callAndPollForResponse S E (operation_sender o' (aa_controlSessionId a) S E)
      (operation_name o') a tr = Some r"
    using operation_exchange.exchange_returns [OF assms] by blast
  then show ?thesis
    by (cases r rule: prod_cases3) (simp add: perform_exchange answers_def)
qed

lemma operations_return_witness:
  "\<exists>res a' tr'. perform sample_sbe (sample_env None) (GetRecordingPosition 3) sample_archive [] =
     Some (res, a', tr')"
proof (rule operations_return [OF sample_break_stops sample_archive_ok])
  show "quiet_after (sample_env None) 1"
    by (rule sample_quiet)
  show "\<forall>tr2. extends [] tr2 \<and>
      length tr2 \<le> length [] + 2 * nat (max 1 (sint (px_retryAttempts (aa_proxy sample_archive)))) + 2 \<longrightarrow>
      clock_passes (sample_env None) (env_now (sample_env None) tr2 + aa_messageTimeoutNs sample_archive) 200"
    using sample_deadline by (simp add: sample_archive_def sample_proxy_def)
qed

text \<open>The request of the operation, in the client's state, is accepted by the publication.\<close>

definition request_accepted :: "sbe \<Rightarrow> env \<Rightarrow> operation \<Rightarrow> aeron_archive \<Rightarrow> trace \<Rightarrow> archive_proxy \<Rightarrow> trace \<Rightarrow> bool" where
  "request_accepted S E o' a tr px tr2 \<longleftrightarrow>
     (let corr = env_nextCorrelationId E (Locked # tr)
      in operation_sender o' (aa_controlSessionId a) S E corr (aa_proxy a)
           (CorrelationIdDrawn corr # Locked # tr) = (Inr True, px, tr2))"

lemma perform_accepted:
  assumes "request_accepted S E o' a tr px tr2"
  shows "perform S E o' a tr =
     (case pollForResponse S E (aa_messageTimeoutNs a) (aa_controlSessionId a)
             (env_nextCorrelationId E (Locked # tr)) (aa_responsePoller a) tr2 of
        None \<Rightarrow> None
      | Some (r, p, tr3) \<Rightarrow>
          Some (bind_result r (\<lambda>v. Inr (operation_answer o' v)),
                a\<lparr>aa_proxy := px, aa_responsePoller := p\<rparr>, Unlocked # tr3))"
  using assms
  by (simp add: request_accepted_def Let_def perform_exchange answers_def callAndPollForResponse_def call_defs
      split: option.split prod.split)

text \<open>
  C28: The message timeout does not bound the wait while unrelated messages keep coming. If the
  request was accepted and from then on every poll delivers some message, each time another one
  or the same, that decodes but does not decide the request (a response of another session, a
  response without an error to another request, or a descriptor), the operation never returns, whatever the clock says: the deadline is only looked at when a
  poll delivers nothing.
\<close>

theorem unrelated_messages_defeat_the_timeout:
  assumes "break_stops E" and "archive_ok a" and "request_accepted S E o' a tr px tr2"
    and "\<forall>tr'. extends tr2 tr' \<longrightarrow>
       (\<exists>f m. next_message E (cp_fragmentLimit (aa_responsePoller a)) tr' = Some f \<and> read_response S f = Inr m \<and>
          response_decision S (aa_controlSessionId a) (env_nextCorrelationId E (Locked # tr)) f = None)"
  shows "perform S E o' a tr = None"
  using pollForResponse_busy [OF assms(1) _ assms(4)] assms(2)
  by (simp add: perform_accepted [OF assms(3)] archive_ok_def)

definition sample_foreign_message :: fragment where
  "sample_foreign_message = \<lparr>buffer = [1, 6, 7, 42, 0], offset = 0\<rparr>"

lemma sample_accepted:
  assumes "wrapAndApplyHeader sample_sbe (operation_request o' 5 7) sample_proxy = (Inr len, p)"
  shows "request_accepted sample_sbe (sample_env reply) o' sample_archive [] p
     [Offered (payload sample_sbe len p) 1, CorrelationIdDrawn 7, Locked]"
proof -
  have "env_nextCorrelationId (sample_env reply) [Locked] = 7" by (simp add: sample_env_def)
  then show ?thesis
    by (simp add: request_accepted_def operation_sender_def sample_archive_def sample_sends [OF assms])
qed

lemma unrelated_messages_defeat_the_timeout_witness:
  "clock_passes (sample_env (Some sample_foreign_message)) 200 201 \<and>
   perform sample_sbe (sample_env (Some sample_foreign_message)) (GetRecordingPosition 3) sample_archive [] = None"
proof
  let ?E = "sample_env (Some sample_foreign_message)"
  show "clock_passes ?E 200 201" by (rule sample_clock) simp_all
  have acc: "request_accepted sample_sbe ?E (GetRecordingPosition 3) sample_archive []
      (sample_proxy\<lparr>px_buffer := [13, 3, 5, 7, 3, 0, 0, 0]\<rparr>)
      [Offered (payload sample_sbe 4 (sample_proxy\<lparr>px_buffer := [13, 3, 5, 7, 3, 0, 0, 0]\<rparr>)) 1,
       CorrelationIdDrawn 7, Locked]"
    by (rule sample_accepted) (simp add: sample_wrap_position)
  have "\<exists>m. read_response sample_sbe sample_foreign_message = Inr m \<and>
      response_decision sample_sbe 5 7 sample_foreign_message = None"
    by (simp add: response_decision_def decode_response_def read_response_def sample_foreign_message_def
        sample_defs)
  then obtain m where m: "read_response sample_sbe sample_foreign_message = Inr m"
      "response_decision sample_sbe 5 7 sample_foreign_message = None" by blast
  show "perform sample_sbe ?E (GetRecordingPosition 3) sample_archive [] = None"
  proof (rule unrelated_messages_defeat_the_timeout [OF sample_break_stops sample_archive_ok acc], intro allI impI exI conjI)
    have "env_nextCorrelationId ?E [Locked] = 7" "aa_controlSessionId sample_archive = 5"
      by (simp_all add: sample_env_def sample_archive_def)
    then show "response_decision sample_sbe (aa_controlSessionId sample_archive)
        (env_nextCorrelationId ?E [Locked]) sample_foreign_message = None"
      using m(2) by simp
  qed (use m(1) in \<open>simp_all add: sample_next_message\<close>)
qed

text \<open>
  C29: An error that answers another request ends this one. If the first message after the request
  was sent is an error response of the session to any other correlation id, such as the late
  answer to an operation that timed out, the operation throws, and its text names the
  correlation id of this request, not the one the response carries.
\<close>

theorem error_of_another_request_is_taken:
  assumes "break_stops E" and "archive_ok a" and "request_accepted S E o' a tr px tr2"
    and "next_message E (cp_fragmentLimit (aa_responsePoller a)) (ClockRead (env_now E tr2) # tr2) = Some f"
    and "decode_response S f = Some m" and "re_controlSessionId m = aa_controlSessionId a"
    and "re_code m = code_ERROR S" and "re_correlationId m \<noteq> env_nextCorrelationId E (Locked # tr)"
  shows "\<exists>a' tr'. perform S E o' a tr =
     Some (Inl (ArchiveException (''response for correlation id: '' @
             to_string (sint (env_nextCorrelationId E (Locked # tr))) @ '', error: '' @ re_errorMessage m @
             '', relevant id: '' @ to_string (sint (re_relevantId m)))), a', tr')"
proof -
  have lim: "0 <s cp_fragmentLimit (aa_responsePoller a)" using assms(2) by (simp add: archive_ok_def)
  have dec: "response_decision S (aa_controlSessionId a) (env_nextCorrelationId E (Locked # tr)) f =
      Some (Inl (ArchiveException (''response for correlation id: '' @
             to_string (sint (env_nextCorrelationId E (Locked # tr))) @ '', error: '' @ re_errorMessage m @
             '', relevant id: '' @ to_string (sint (re_relevantId m)))))"
    using assms(5-7) by (simp add: response_decision_def)
  show ?thesis
    using pollForResponse_at_once [OF assms(1) lim assms(4) dec, where timeoutNs = "aa_messageTimeoutNs a"]
    by (auto simp: perform_accepted [OF assms(3)])
qed

lemma error_of_another_request_is_taken_witness:
  "\<exists>a' tr'. perform sample_sbe (sample_env (Some sample_error_message)) (GetRecordingPosition 3)
      sample_archive [] =
        Some (Inl (ArchiveException ''response for correlation id: 7, error: no, relevant id: 2''), a', tr')"
proof -
  let ?E = "sample_env (Some sample_error_message)"
  have acc: "request_accepted sample_sbe ?E (GetRecordingPosition 3) sample_archive []
      (sample_proxy\<lparr>px_buffer := [13, 3, 5, 7, 3, 0, 0, 0]\<rparr>)
      [Offered (payload sample_sbe 4 (sample_proxy\<lparr>px_buffer := [13, 3, 5, 7, 3, 0, 0, 0]\<rparr>)) 1,
       CorrelationIdDrawn 7, Locked]"
    by (rule sample_accepted) (simp add: sample_wrap_position)
  have "char_of (110 :: nat) = CHR ''n''" "char_of (111 :: nat) = CHR ''o''" by code_simp+
  then have m: "decode_response sample_sbe sample_error_message =
      Some \<lparr>re_controlSessionId = 5, re_correlationId = 9, re_relevantId = 2, re_code = 1,
            re_errorMessage = ''no''\<rparr>"
    by (simp add: decode_response_def read_response_def sample_error_message_def sample_defs)
  have cs: "aa_controlSessionId sample_archive = 5" and corr: "env_nextCorrelationId ?E [Locked] = 7"
      and "code_ERROR sample_sbe = 1"
    by (simp_all add: sample_archive_def sample_env_def sample_sbe_def)
  moreover have "to_string 7 = ''7''" "to_string 2 = ''2''" by code_simp+
  ultimately show ?thesis
    using error_of_another_request_is_taken [OF sample_break_stops sample_archive_ok acc sample_next_message m]
    by simp
qed

end
