(* ===== verification/ArchiveListings.thy ===== *)
theory ArchiveListings
  imports ArchiveOperations
begin

text \<open>
  The listing operations of the client: a request is sent, and the descriptors that come back are
  handed to the application's consumer until the count has run out or the archive answers that
  there are no more. The theorems say what was consumed, what the returned number means and
  when a listing returns.
\<close>

section \<open>When a listing ends\<close>

text \<open>
  A handler that makes at most one call per message: the history grows little once messages stop,
  and a poll begun after that delivers nothing.
\<close>

lemma poll_rounds_quiet_length:
  assumes "\<And>s f tr r s' tr'. h s f tr = (r, s', tr') \<Longrightarrow> length tr' \<le> Suc (length tr)"
    and "quiet_after E M"
  shows "poll_rounds E h n s tr = (r, s', tr') \<Longrightarrow> length tr' \<le> max (length tr + 1) (M + 3)"
proof (induction n arbitrary: s tr)
  case 0
  then show ?case by (auto simp: poll_end_def Let_def)
next
  case (Suc n)
  show ?case
  proof (cases "env_nextFragment E tr")
    case None
    then show ?thesis using Suc.prems by (auto simp: poll_end_def Let_def)
  next
    case (Some f)
    then have early: "length tr < M"
      using assms(2) by (metis linorder_not_le option.distinct(1) quiet_after_def)
    obtain x s1 tr1 where h: "h s f (Delivered f # tr) = (x, s1, tr1)"
      by (metis prod.exhaust)
    have len: "length tr1 \<le> length tr + 2" using assms(1) [OF h] by simp
    show ?thesis
    proof (cases x)
      case (Inl e)
      then show ?thesis
        using Suc.prems early len by (auto simp: Some h poll_end_def Let_def split: if_splits)
    next
      case (Inr act)
      let ?tr2 = "Answered act # tr1"
      have run: "poll_rounds E h n s1 ?tr2 = (r, s', tr')" using Suc.prems by (simp add: Some h Inr)
      show ?thesis
      proof (cases "M \<le> length ?tr2")
        case True
        then have "env_nextFragment E ?tr2 = None" using assms(2) by (simp add: quiet_after_def)
        then have "tr' = PollReturned (env_pollResult E ?tr2) # ?tr2 \<or> length tr' \<le> length tr1 + 2"
          using run by (cases n) (auto simp: poll_end_def Let_def)
        then show ?thesis using early len by auto
      next
        case False
        then show ?thesis using Suc.IH [OF run] early len by simp
      qed
    qed
  qed
qed

lemma descriptor_onFragment_length:
  "descriptor_onFragment S E d f tr = (x, d', tr') \<Longrightarrow> length tr' \<le> Suc (length tr)"
  by (erule descriptor_onFragment_cases) auto

lemma descriptor_poll_quiet_time:
  assumes "quiet_after E M" and "M \<le> length tr + 1" and "descriptor_poll S E d tr = (x, d', tr')"
  shows "d' = d\<lparr>dp_isDispatchComplete := False\<rparr> \<and> (\<exists>n. x = Inr n \<and> \<not> 0 <s n)"
proof -
  let ?tr = "PollStarted (dp_fragmentLimit d) # tr"
  have none: "env_nextFragment E ?tr = None" and le: "env_pollResult E ?tr \<le>s 0"
    using assms(1,2) by (auto simp: quiet_after_def)
  have "controlledPoll E (descriptor_onFragment S E) (dp_fragmentLimit d) (d\<lparr>dp_isDispatchComplete := False\<rparr>) tr =
      poll_end E (d\<lparr>dp_isDispatchComplete := False\<rparr>) ?tr"
    unfolding controlledPoll_def by (cases "nat (sint (dp_fragmentLimit d))") (simp_all add: none)
  then show ?thesis
    using assms(3) le by (auto simp: descriptor_poll_def poll_end_def Let_def word_sle_eq word_sless_alt)
qed

lemma descriptor_poll_length:
  assumes "quiet_after E M" and "descriptor_poll S E d tr = (x, d', tr')"
  shows "length tr' \<le> max (length tr + 2) (M + 3)" and "length tr < length tr'"
proof -
  have run: "poll_rounds E (descriptor_onFragment S E) (nat (sint (dp_fragmentLimit d)))
      (d\<lparr>dp_isDispatchComplete := False\<rparr>) (PollStarted (dp_fragmentLimit d) # tr) = (x, d', tr')"
    using assms(2) by (simp add: descriptor_poll_def controlledPoll_def)
  show "length tr' \<le> max (length tr + 2) (M + 3)"
    using poll_rounds_quiet_length [OF descriptor_onFragment_length assms(1) run] by simp
  have "accounted S E (d\<lparr>dp_isDispatchComplete := False\<rparr>) (PollStarted (dp_fragmentLimit d) # tr) d' tr'"
    by (rule dispatch_account.inv_poll_rounds [OF accounted_refl run])
  then show "length tr < length tr'" by (auto simp: accounted_def)
qed

definition listing_inv ::
  "env \<Rightarrow> nat \<Rightarrow> (recording_descriptor_poller \<times> int32 \<times> int64) \<times> trace \<Rightarrow> bool" where
  "listing_inv E N s \<longleftrightarrow>
     fst (snd (fst s)) = dp_remainingRecordCount (fst (fst s)) \<and> clock_passes E (snd (snd (fst s))) N"

lemma descriptors_step_progress:
  assumes "quiet_after E M" and clock: "\<forall>tr. length tr \<le> M + 3 \<longrightarrow> clock_passes E (env_now E tr + timeoutNs) N"
    and inv: "listing_inv E N s"
  shows "(\<exists>s'. descriptors_step S E timeoutNs correlationId recordCount s = Some (Inl s') \<and>
           listing_inv E N s' \<and> max M N - length (snd s') < max M N - length (snd s)) \<or>
         (\<exists>r. descriptors_step S E timeoutNs correlationId recordCount s = Some (Inr r) \<and> True)"
proof -
  obtain d existing deadline tr where s: "s = ((d, existing, deadline), tr)"
    by (metis prod.exhaust)
  obtain x d1 tr1 where poll: "descriptor_poll S E d tr = (x, d1, tr1)"
    by (metis prod.exhaust)
  note len = descriptor_poll_length [OF assms(1) poll]
  have existing: "existing = dp_remainingRecordCount d" and passes: "clock_passes E deadline N"
    using inv by (auto simp: listing_inv_def s)
  show ?thesis
  proof (cases "max M N \<le> length tr")
    case True
    then have quiet: "d1 = d\<lparr>dp_isDispatchComplete := False\<rparr>" "\<exists>n. x = Inr n \<and> \<not> 0 <s n"
      using descriptor_poll_quiet_time [OF assms(1) _ poll] by auto
    have "deadline <s env_now E (e # e' # tr1)" for e e'
      using passes True len(2) by (auto simp: clock_passes_def)
    then show ?thesis
      using quiet existing
      by (cases "env_isConnected E (Invoked # tr1)")
        (auto simp: s descriptors_step_def poll call_defs Let_def)
  next
    case False
    have new: "clock_passes E (env_now E tr1 + timeoutNs) N" if "dp_remainingRecordCount d1 \<noteq> existing"
    proof -
      have "\<not> M \<le> length tr + 1"
        using descriptor_poll_quiet_time [OF assms(1) _ poll] that existing by auto
      then show ?thesis using len(1) clock by auto
    qed
    show ?thesis
      using False len(2) new passes
      by (auto simp: s descriptors_step_def poll call_defs Let_def listing_inv_def split: sum.splits)
  qed
qed

lemma pollForDescriptors_returns:
  assumes "quiet_after E M" and "\<forall>tr. length tr \<le> M + 3 \<longrightarrow> clock_passes E (env_now E tr + timeoutNs) N"
    and "clock_passes E (env_now E tr + timeoutNs) N"
  shows "\<exists>r. pollForDescriptors S E timeoutNs correlationId recordCount consumer d tr = Some r"
proof -
  have "\<exists>r. loop (descriptors_step S E timeoutNs correlationId recordCount)
      ((descriptor_reset correlationId recordCount consumer d, recordCount, env_now E tr + timeoutNs),
       ClockRead (env_now E tr) # tr) = Some r \<and> True"
    by (rule loop_total [where I = "listing_inv E N" and m = "\<lambda>s. max M N - length (snd s)"])
      (use assms(3) descriptors_step_progress [OF assms(1,2)] in
        \<open>auto simp: listing_inv_def descriptor_reset_def\<close>)
  then show ?thesis by (simp add: pollForDescriptors_def call_defs Let_def)
qed

section \<open>Operations\<close>

datatype listing =
    ListRecordings int64 int32
  | ListRecordingsForUri int64 int32 string int32
  | ListRecording int64

text \<open>Calling the method of a listing with a consumer.\<close>

fun perform_listing ::
  "sbe \<Rightarrow> env \<Rightarrow> listing \<Rightarrow> nat \<Rightarrow> aeron_archive \<Rightarrow> trace \<Rightarrow> (int32 result \<times> aeron_archive \<times> trace) option"
where
  "perform_listing S E (ListRecordings from n) consumer a tr = archive_listRecordings S E from n consumer a tr"
| "perform_listing S E (ListRecordingsForUri from n ch sid) consumer a tr =
     archive_listRecordingsForUri S E from n ch sid consumer a tr"
| "perform_listing S E (ListRecording rid) consumer a tr = archive_listRecording S E rid consumer a tr"

text \<open>What it is there to send in a session under a correlation id, and how many recordings it asks for.\<close>

fun listing_request :: "listing \<Rightarrow> int64 \<Rightarrow> int64 \<Rightarrow> request" where
  "listing_request (ListRecordings from n) cs corr = ListRecordingsRequest cs corr from n"
| "listing_request (ListRecordingsForUri from n ch sid) cs corr =
     ListRecordingsForUriRequest cs corr from n sid ch"
| "listing_request (ListRecording rid) cs corr = ListRecordingRequest cs corr rid"

fun listing_count :: "listing \<Rightarrow> int32" where
  "listing_count (ListRecordings _ n) = n"
| "listing_count (ListRecordingsForUri _ n _ _) = n"
| "listing_count (ListRecording _) = 1"

fun listing_name :: "listing \<Rightarrow> string" where
  "listing_name (ListRecordings _ _) = ''list recordings''"
| "listing_name (ListRecordingsForUri _ _ _ _) = ''list recordings for URI''"
| "listing_name (ListRecording _) = ''list recording''"

definition listing_sender :: "listing \<Rightarrow> int64 \<Rightarrow> sbe \<Rightarrow> env \<Rightarrow> sender" where
  "listing_sender l cs S E corr = send_request S E (listing_request l cs corr)"

lemma perform_listing_exchange:
  "perform_listing S E l consumer a tr =
     narrow_value (callAndPollForDescriptors S E (listing_sender l (aa_controlSessionId a) S E)
       (listing_count l) consumer (listing_name l) a tr)"
  by (cases l)
    (simp_all add: listing_sender_def [abs_def] request_defs archive_listRecordings_def
      archive_listRecordingsForUri_def archive_listRecording_def)

interpretation listing_exchange: exchange "listing_sender l cs" "listing_request l cs" for l cs
  by unfold_locales
    (simp_all add: listing_sender_def send_request_frame send_request_sends)

lemma perform_listing_outcome:
  assumes "break_stops E" and "archive_ok a" and "perform_listing S E l consumer a tr = Some (res, a', tr')"
  shows "\<exists>r. listed S E a (listing_request l (aa_controlSessionId a)) (listing_count l) consumer
       (listing_name l) tr r tr' \<and> res = bind_result r (\<lambda>v. Inr (ucast v)) \<and> same_client a a'"
proof -
  obtain r where run: "callAndPollForDescriptors S E (listing_sender l (aa_controlSessionId a) S E)
        (listing_count l) consumer (listing_name l) a tr = Some (r, a', tr')"
      and res: "res = bind_result r (\<lambda>v. Inr (ucast v))"
    using assms(3) by (auto simp: perform_listing_exchange narrow_value_def split: option.splits)
  show ?thesis
    using listing_exchange.listing_outcome [OF assms(1,2) run] res by blast
qed

section \<open>Calls of the consumer in a history\<close>

lemma returned_calls_append:
  "\<exists>k \<le> length (consumptions es). returned_calls E (es @ tr) = returned_calls E tr + k"
proof (induction es)
  case (Cons e es)
  then obtain k where "k \<le> length (consumptions es)" "returned_calls E (es @ tr) = returned_calls E tr + k"
    by blast
  then show ?case
    by (cases "consumption e") (auto intro: exI [of _ "Suc k"] exI [of _ k])
qed simp

lemma consumptions_offer_events: "consumptions (offer_events bytes rs) = []"
  by (induction bytes rs rule: offer_events.induct) simp_all

lemma returned_calls_silent:
  "consumptions es = [] \<Longrightarrow> returned_calls E (es @ tr) = returned_calls E tr"
  using returned_calls_append [of es E tr] by auto

lemma sends_request_calls:
  assumes "sends_request S E req attempts tr sent tr2"
  shows "returned_calls E tr2 = returned_calls E tr"
  using assms by (auto simp: sends_request_def returned_calls_silent consumptions_offer_events)

lemma cut_signed_wide [simp]: "ucast (scast w :: int64) = (w :: int32)"
proof (rule bit_word_eqI)
  fix n assume "n < LENGTH(32)"
  then have "n < 31 \<or> n = 31" by auto
  then show "bit (ucast (scast w :: int64) :: int32) n = bit w n"
    by (auto simp: bit_simps)
qed

section \<open>A sample listing\<close>

definition sample_descriptor_message :: fragment where
  "sample_descriptor_message = \<lparr>buffer = [22, 5, 7, 3], offset = 0\<rparr>"

lemma sample_wrap_listing:
  "wrapAndApplyHeader sample_sbe (ListRecordingRequest 5 7 3) sample_proxy =
     (Inr 4, sample_proxy\<lparr>px_buffer := [11, 3, 5, 7, 3, 0, 0, 0]\<rparr>)"
  by (simp add: wrapAndApplyHeader_def sample_proxy_def sample_defs)

lemma sample_onDescriptor:
  "descriptor_onFragment sample_sbe (sample_env reply) (descriptor_reset 7 1 c sample_descriptor_poller)
     sample_descriptor_message tr =
   (Inr BREAK, (descriptor_reset 7 1 c sample_descriptor_poller)
      \<lparr>dp_remainingRecordCount := 0, dp_isDispatchComplete := True\<rparr>,
    Called (Consumer c 5 7 (sample_descriptor 3)) # tr)"
  by (simp add: descriptor_onFragment_def descriptor_reset_def sample_descriptor_poller_def
      sample_descriptor_message_def call_defs Let_def sample_defs)

lemma pollForDescriptors_at_once:
  assumes "descriptor_poll S E (descriptor_reset correlationId recordCount consumer d)
       (ClockRead (env_now E tr) # tr) = (Inr n, d1, tr1)" and "dp_isDispatchComplete d1"
  shows "pollForDescriptors S E timeoutNs correlationId recordCount consumer d tr =
     Some (Inr (scast (recordCount - dp_remainingRecordCount d1)), d1, tr1)"
  using assms by (simp add: pollForDescriptors_def call_defs Let_def loop_unfold descriptors_step_def)

lemma sample_descriptor_poll:
  "\<exists>n tr1. descriptor_poll sample_sbe (sample_env (Some sample_descriptor_message))
       (descriptor_reset 7 1 c sample_descriptor_poller) tr =
     (Inr n, (descriptor_reset 7 1 c sample_descriptor_poller)
        \<lparr>dp_remainingRecordCount := 0, dp_isDispatchComplete := True\<rparr>, tr1)"
proof -
  let ?E = "sample_env (Some sample_descriptor_message)"
  have "env_nextFragment ?E (PollStarted 10 # tr) = Some sample_descriptor_message"
    by (simp add: sample_env_def)
  moreover have "descriptor_reset 7 1 c sample_descriptor_poller\<lparr>dp_isDispatchComplete := False\<rparr> =
      descriptor_reset 7 1 c sample_descriptor_poller"
    and "dp_fragmentLimit (descriptor_reset 7 1 c sample_descriptor_poller) = 10"
    by (simp_all add: descriptor_reset_def sample_descriptor_poller_def)
  moreover have ten: "nat (sint (10 :: int32)) = Suc 9" by simp
  ultimately show ?thesis
    unfolding descriptor_poll_def controlledPoll_def
    by (simp only: ten poll_rounds.simps(2))
      (simp add: sample_onDescriptor poll_rounds_break [OF sample_break_stops] poll_end_def Let_def)
qed

lemma sample_listing_run:
  "\<exists>a' tr'. perform_listing sample_sbe (sample_env (Some sample_descriptor_message)) (ListRecording 3) 2
      sample_archive [] = Some (Inr 1, a', tr')"
proof -
  let ?E = "sample_env (Some sample_descriptor_message)"
  have "env_nextCorrelationId ?E [Locked] = 7" by (simp add: sample_env_def)
  moreover obtain d1 tr1 where "pollForDescriptors sample_sbe ?E 100 7 1 2 sample_descriptor_poller
      [Offered (payload sample_sbe 4 (sample_proxy\<lparr>px_buffer := [11, 3, 5, 7, 3, 0, 0, 0]\<rparr>)) 1,
       CorrelationIdDrawn 7, Locked] = Some (Inr 1, d1, tr1)"
  proof -
    let ?tr = "[Offered (payload sample_sbe 4 (sample_proxy\<lparr>px_buffer := [11, 3, 5, 7, 3, 0, 0, 0]\<rparr>)) 1,
       CorrelationIdDrawn 7, Locked]"
    obtain n tr1 where "descriptor_poll sample_sbe ?E (descriptor_reset 7 1 2 sample_descriptor_poller)
        (ClockRead (env_now ?E ?tr) # ?tr) =
        (Inr n, (descriptor_reset 7 1 2 sample_descriptor_poller)
          \<lparr>dp_remainingRecordCount := 0, dp_isDispatchComplete := True\<rparr>, tr1)"
      using sample_descriptor_poll by blast
    from pollForDescriptors_at_once [OF this] show ?thesis using that by simp
  qed
  ultimately show ?thesis
    using sample_sends [OF sample_wrap_listing]
    by (simp add: perform_listing_exchange narrow_value_def callAndPollForDescriptors_def listing_sender_def
        call_defs Let_def sample_archive_def)
qed

section \<open>When a listing returns\<close>

text \<open>
  With the interface of an exchange: a listing returns when messages stop coming and the clock
  passes every deadline that can have been set, at the start of the wait or after the last
  descriptor.
\<close>

context exchange begin

lemma listing_returns:
  assumes "archive_ok a" and "quiet_after E M"
    and clock: "\<forall>tr2. length tr2 \<le> max (M + 3) (length tr + 2 * nat (max 1 (sint (px_retryAttempts (aa_proxy a)))) + 2) \<longrightarrow>
           clock_passes E (env_now E tr2 + aa_messageTimeoutNs a) N"
  shows "\<exists>r. callAndPollForDescriptors S E (send S E) recordCount consumer name a tr = Some r"
proof -
  define corr where "corr = env_nextCorrelationId E (Locked # tr)"
  let ?tr1 = "CorrelationIdDrawn corr # Locked # tr"
  obtain sent px tr2 where f: "send S E corr (aa_proxy a) ?tr1 = (sent, px, tr2)"
    by (metis prod.exhaust)
  have att: "- (2 ^ 31) < sint (px_retryAttempts (aa_proxy a))"
    using assms(1) by (simp add: archive_ok_def)
  obtain bytes rs where rs: "tr2 = offer_events bytes rs @ ?tr1"
      "length rs \<le> nat (max 1 (sint (px_retryAttempts (aa_proxy a))))"
    using proxy_operation.only_offers [OF operation att f] by blast
  have "length (offer_events bytes rs) \<le> 2 * length rs"
    by (rule length_offer_events)
  then have "clock_passes E (env_now E tr2 + aa_messageTimeoutNs a) N"
    using rs clock by simp
  then obtain r where "pollForDescriptors S E (aa_messageTimeoutNs a) corr recordCount consumer
      (aa_descriptorPoller a) tr2 = Some r"
    using pollForDescriptors_returns [OF assms(2)] clock by (metis max.coboundedI1)
  then show ?thesis
    using f by (cases r rule: prod_cases3)
      (auto simp: callAndPollForDescriptors_def call_defs Let_def corr_def split: sum.splits bool.splits)
qed

end

section \<open>No more calls than asked for\<close>

text \<open>The calls that returned and the remaining count add up to the count asked for.\<close>

definition counted :: "env \<Rightarrow> nat \<Rightarrow> trace \<Rightarrow> recording_descriptor_poller \<Rightarrow> trace \<Rightarrow> bool" where
  "counted E N tr0 d tr \<longleftrightarrow>
     (\<exists>k. returned_calls E tr = returned_calls E tr0 + k \<and> unat (dp_remainingRecordCount d) + k = N)"

lemma counted_silent:
  "counted E N tr0 d tr \<Longrightarrow> consumption e = None \<Longrightarrow> counted E N tr0 d (e # tr)"
  by (simp add: counted_def)

lemma counted_onFragment:
  assumes "counted E N tr0 d tr" and "0 < unat (dp_remainingRecordCount d)"
    and h: "descriptor_onFragment S E d f (Delivered f # tr) = (x, d', tr')"
  shows "counted E N tr0 d' tr' \<and> (x \<noteq> Inr BREAK \<longrightarrow> 0 < unat (dp_remainingRecordCount d'))"
  using h
proof (cases rule: descriptor_onFragment_cases)
  case (consumed body)
  obtain k where k: "returned_calls E tr = returned_calls E tr0 + k" "unat (dp_remainingRecordCount d) + k = N"
    using assms(1) by (auto simp: counted_def)
  have "returned_calls E tr' = returned_calls E tr + 1" using consumed(2,3) by simp
  moreover have pred: "unat (dp_remainingRecordCount d - 1) = unat (dp_remainingRecordCount d) - 1"
    using assms(2) by (intro unat_minus_one) auto
  ultimately have "counted E N tr0 d' tr'"
    using k assms(2) consumed(4) unfolding counted_def by (intro exI [of _ "Suc k"]) simp
  moreover have "0 < unat (dp_remainingRecordCount d')" if "x \<noteq> Inr BREAK"
  proof -
    have "dp_remainingRecordCount d \<noteq> 1" using that consumed(5) by auto
    then have "unat (dp_remainingRecordCount d) \<noteq> 1" by (metis unat_1 unsigned_word_eqI)
    then show ?thesis using pred consumed(4) assms(2) by simp
  qed
  ultimately show ?thesis by blast
qed (use assms(1,2) in \<open>auto simp: counted_def\<close>)

interpretation count_down: stopping_handler "descriptor_onFragment S E"
  "\<lambda>d tr. counted E N tr0 d tr \<and> 0 < unat (dp_remainingRecordCount d) \<and> \<not> dp_isDispatchComplete d"
  "\<lambda>d tr. counted E N tr0 d tr \<and> dp_isDispatchComplete d"
  for S E N tr0
proof unfold_locales
  fix s f r s' and tr tr' :: trace
  assume inv: "counted E N tr0 s tr \<and> 0 < unat (dp_remainingRecordCount s) \<and> \<not> dp_isDispatchComplete s"
  show "counted E N tr0 s' tr' \<and> 0 < unat (dp_remainingRecordCount s') \<and> \<not> dp_isDispatchComplete s'"
    if h: "descriptor_onFragment S E s f (Delivered f # tr) = (r, s', tr')" and "r \<noteq> Inr BREAK"
  proof -
    from h have "\<not> dp_isDispatchComplete s'"
      by (cases rule: descriptor_onFragment_cases) (use inv that(2) in auto)
    then show ?thesis using counted_onFragment [OF _ _ h] inv that(2) by blast
  qed
  show "counted E N tr0 s' tr' \<and> dp_isDispatchComplete s'"
    if h: "descriptor_onFragment S E s f (Delivered f # tr) = (Inr BREAK, s', tr')"
  proof -
    from h have "dp_isDispatchComplete s'"
      by (cases rule: descriptor_onFragment_cases) (auto split: if_splits)
    then show ?thesis using counted_onFragment [OF _ _ h] inv by blast
  qed
qed (auto dest!: poll_event_silent intro: counted_silent)

lemma descriptors_step_counted:
  assumes "break_stops E"
    and "descriptors_step S E timeoutNs correlationId recordCount s = Some y"
    and "counted E N tr0 (fst (fst s)) (snd s) \<and> 0 < unat (dp_remainingRecordCount (fst (fst s)))"
  shows "case y of
      Inl s' \<Rightarrow> counted E N tr0 (fst (fst s')) (snd s') \<and> 0 < unat (dp_remainingRecordCount (fst (fst s')))
    | Inr r \<Rightarrow> counted E N tr0 (fst (snd r)) (snd (snd r))"
proof -
  obtain d existing deadline tr where s: "s = ((d, existing, deadline), tr)"
    by (metis prod.exhaust)
  obtain x d1 tr1 where poll: "descriptor_poll S E d tr = (x, d1, tr1)"
    by (metis prod.exhaust)
  have "(counted E N tr0 d1 tr1 \<and> 0 < unat (dp_remainingRecordCount d1) \<and> \<not> dp_isDispatchComplete d1) \<or>
      (counted E N tr0 d1 tr1 \<and> dp_isDispatchComplete d1)"
  proof (rule count_down.ends [OF assms(1)])
    show "controlledPoll E (descriptor_onFragment S E) (dp_fragmentLimit d)
        (d\<lparr>dp_isDispatchComplete := False\<rparr>) tr = (x, d1, tr1)"
      using poll by (simp add: descriptor_poll_def)
  qed (use assms(3) s in \<open>simp add: counted_def\<close>)
  then show ?thesis
    using assms(2)
    by (auto simp: s descriptors_step_def poll call_defs Let_def counted_def split: sum.splits if_splits)
qed

lemma pollForDescriptors_bounded:
  assumes "break_stops E" and "0 < unat recordCount"
    and "pollForDescriptors S E timeoutNs correlationId recordCount consumer d tr = Some (r, d', tr')"
  shows "returned_calls E tr' \<le> returned_calls E tr + unat recordCount"
proof -
  let ?d = "descriptor_reset correlationId recordCount consumer d" and ?tr = "ClockRead (env_now E tr) # tr"
  have "loop (descriptors_step S E timeoutNs correlationId recordCount)
      ((?d, recordCount, env_now E tr + timeoutNs), ?tr) = Some (r, d', tr')"
    using assms(3) by (simp add: pollForDescriptors_def call_defs Let_def)
  then have "counted E (unat recordCount) ?tr (fst (snd (r, d', tr'))) (snd (snd (r, d', tr')))"
  proof (rule loop_invariant [where I = "\<lambda>s. counted E (unat recordCount) ?tr (fst (fst s)) (snd s) \<and>
        0 < unat (dp_remainingRecordCount (fst (fst s)))"
      and Q = "\<lambda>r. counted E (unat recordCount) ?tr (fst (snd r)) (snd (snd r))"])
    show "counted E (unat recordCount) ?tr (fst (fst ((?d, recordCount, env_now E tr + timeoutNs), ?tr)))
        (snd ((?d, recordCount, env_now E tr + timeoutNs), ?tr)) \<and>
        0 < unat (dp_remainingRecordCount (fst (fst ((?d, recordCount, env_now E tr + timeoutNs), ?tr))))"
      using assms(2) by (simp add: counted_def descriptor_reset_def)
  qed (use descriptors_step_counted [OF assms(1)] in fastforce)+
  then show ?thesis by (auto simp: counted_def)
qed

context exchange begin

text \<open>The course of a listing, sent or not.\<close>

lemma listing_course:
  assumes "archive_ok a"
    and "callAndPollForDescriptors S E (send S E) recordCount consumer name a tr = Some (res, a', tr')"
  obtains
    (unsent) corr sent tr2 where "sends_request S E (req corr) (px_retryAttempts (aa_proxy a))
        (CorrelationIdDrawn corr # Locked # tr) sent tr2" and "tr' = Unlocked # tr2"
  | (sent) corr tr2 d tr3 where "sends_request S E (req corr) (px_retryAttempts (aa_proxy a))
        (CorrelationIdDrawn corr # Locked # tr) (Inr True) tr2"
      and "pollForDescriptors S E (aa_messageTimeoutNs a) corr recordCount consumer (aa_descriptorPoller a) tr2 =
        Some (res, d, tr3)" and "tr' = Unlocked # tr3"
proof -
  define corr where "corr = env_nextCorrelationId E (Locked # tr)"
  let ?tr1 = "CorrelationIdDrawn corr # Locked # tr"
  obtain x px tr2 where f: "send S E corr (aa_proxy a) ?tr1 = (x, px, tr2)"
    by (metis prod.exhaust)
  have sends: "sends_request S E (req corr) (px_retryAttempts (aa_proxy a)) ?tr1 x tr2"
    using proxy_operation.sends [OF operation _ f] assms(1) by (simp add: archive_ok_def)
  show thesis
  proof (cases "x = Inr True")
    case True
    then show thesis
      using assms(2) f sends sent
      by (auto simp: callAndPollForDescriptors_def call_defs Let_def corr_def split: option.splits)
  next
    case False
    then show thesis
      using assms(2) f sends unsent
      by (auto simp: callAndPollForDescriptors_def call_defs Let_def corr_def split: sum.splits bool.splits)
  qed
qed

lemma listing_bounded:
  assumes "break_stops E" and "archive_ok a" and "0 < unat recordCount"
    and "callAndPollForDescriptors S E (send S E) recordCount consumer name a tr = Some (res, a', tr')"
  shows "returned_calls E tr' \<le> returned_calls E tr + unat recordCount"
  using assms(2,4)
proof (cases rule: listing_course)
  case (unsent corr sent tr2)
  then show ?thesis using sends_request_calls [OF unsent(1)] by simp
next
  case (sent corr tr2 d tr3)
  then show ?thesis
    using sends_request_calls [OF sent(1)] pollForDescriptors_bounded [OF assms(1,3) sent(2)] by simp
qed

end

section \<open>What a listing reports\<close>

lemma listing_at_most:
  assumes "break_stops E" and "archive_ok a" and "perform_listing S E l consumer a tr = Some (Inr n, a', tr')"
  shows "0 < unat (listing_count l) \<Longrightarrow> returned_calls E tr' \<le> returned_calls E tr + unat (listing_count l)"
  using assms(3) listing_exchange.listing_bounded [OF assms(1,2)]
  by (auto simp: perform_listing_exchange narrow_value_def split: option.splits)

lemma listing_answered:
  assumes "break_stops E" and "archive_ok a" and "perform_listing S E l consumer a tr = Some (Inr n, a', tr')"
  shows "let corr = env_nextCorrelationId E (Locked # tr); cs = aa_controlSessionId a
     in same_client a a' \<and>
        (\<exists>bytes offered offers es k.
           tr' = Unlocked # es @ Offered bytes offered # offers @ CorrelationIdDrawn corr # Locked # tr \<and>
           0 <s offered \<and> list_all sending_event offers \<and>
           (\<forall>D. sbe_decodes S D \<longrightarrow>
              D bytes = Some (request_header S (type_of_request (listing_request l cs corr)),
                              listing_request l cs corr)) \<and>
           consumptions es =
             map (\<lambda>body. (consumer, cs, corr, body)) (List.map_filter (descriptor_for S cs corr) (deliveries es)) \<and>
           returned_calls E tr' = returned_calls E tr + k \<and> k \<le> length (consumptions es) \<and>
           n = word_of_nat k \<and>
           (listing_count l \<noteq> 0 \<longrightarrow> k \<le> unat (listing_count l)) \<and>
           (n = listing_count l \<or> (\<exists>f \<in> set (deliveries es). recording_unknown S cs corr f)))"
proof -
  define corr where "corr = env_nextCorrelationId E (Locked # tr)"
  let ?cs = "aa_controlSessionId a" and ?tr1 = "CorrelationIdDrawn corr # Locked # tr"
  let ?count = "listing_count l"
  let ?d = "descriptor_reset corr ?count consumer (aa_descriptorPoller a)"
  have ids: "dp_controlSessionId ?d = ?cs" "dp_correlationId ?d = corr" "dp_consumer ?d = consumer"
      "dp_remainingRecordCount ?d = ?count"
    using assms(2) by (simp_all add: archive_ok_def descriptor_reset_def)
  obtain r where ex: "listed S E a (listing_request l ?cs) ?count consumer (listing_name l) tr r tr'"
      and "Inr n = bind_result r (\<lambda>v. Inr (ucast v))" and same: "same_client a a'"
    using perform_listing_outcome [OF assms] by blast
  then obtain v where v: "r = Inr v" "n = ucast v" by (cases r) auto
  obtain sent tr2 where sends': "sends_request S E (listing_request l ?cs corr)
        (px_retryAttempts (aa_proxy a)) ?tr1 sent tr2"
      and course: "case sent of
          Inl e \<Rightarrow> r = Inl e \<and> tr' = Unlocked # tr2
        | Inr False \<Rightarrow> r = Inl (ArchiveException (listing_name l @ '': failed to send'')) \<and> tr' = Unlocked # tr2
        | Inr True \<Rightarrow> \<exists>d tr3. tr' = Unlocked # tr3 \<and>
            descriptors_outcome S E ?count ?d (ClockRead (env_now E tr2) # tr2) (r, d, tr3)"
    using ex unfolding listed_def Let_def corr_def [symmetric] by blast
  have sent: "sent = Inr True" using course v(1) by (auto split: sum.splits bool.splits)
  note sends = sends' [unfolded sent]
  obtain d tr3 where tr3: "tr' = Unlocked # tr3"
      and out: "descriptors_outcome S E ?count ?d (ClockRead (env_now E tr2) # tr2) (Inr v, d, tr3)"
    using course sent v(1) by auto
  let ?tr2 = "ClockRead (env_now E tr2) # tr2"
  obtain es where es: "tr3 = es @ ?tr2" and cons: "consumptions es =
      map (\<lambda>body. (consumer, ?cs, corr, body)) (List.map_filter (descriptor_for S ?cs corr) (deliveries es))"
    and count: "dp_remainingRecordCount d + word_of_nat (returned_calls E tr3) =
      ?count + word_of_nat (returned_calls E ?tr2)"
    using out unfolding descriptors_outcome_def accounted_def ids by auto
  have done_: "dispatch_done S ?d ?tr2 d tr3" and val: "v = scast (?count - dp_remainingRecordCount d)"
    using out by (auto simp: descriptors_outcome_def)
  obtain k where k: "k \<le> length (consumptions es)" "returned_calls E tr3 = returned_calls E ?tr2 + k"
    using returned_calls_append es by blast
  have "n = ?count - dp_remainingRecordCount d"
    by (simp add: v(2) val)
  moreover have "?count = dp_remainingRecordCount d + word_of_nat k"
    using count k(2) by simp
  ultimately have n: "n = word_of_nat k" "n = ?count \<longleftrightarrow> dp_remainingRecordCount d = 0"
    by simp_all
  have "dp_remainingRecordCount d = 0 \<or> (\<exists>f \<in> set (deliveries es). recording_unknown S ?cs corr f)"
    using done_ es by (auto simp: dispatch_done_def ids)
  then have why: "n = ?count \<or> (\<exists>f \<in> set (deliveries (es @ [ClockRead (env_now E tr2)])). recording_unknown S ?cs corr f)"
    using n(2) by simp
  obtain bytes offered offers where o: "tr2 = Offered bytes offered # offers @ ?tr1" "0 <s offered" "list_all sending_event offers"
      "\<forall>D. sbe_decodes S D \<longrightarrow>
        D bytes = Some (request_header S (type_of_request (listing_request l ?cs corr)), listing_request l ?cs corr)"
    using sends_request_True [OF sends] by blast
  have calls: "returned_calls E tr' = returned_calls E tr + k"
    using k(2) sends_request_calls [OF sends] by (simp add: tr3)
  have "listing_count l \<noteq> 0 \<longrightarrow> k \<le> unat (listing_count l)"
    using listing_at_most [OF assms] calls by (auto simp: unat_gt_0)
  moreover have "tr' = Unlocked # (es @ [ClockRead (env_now E tr2)]) @ Offered bytes offered # offers @ ?tr1"
    using o(1) es tr3 by simp
  moreover have "consumptions (es @ [ClockRead (env_now E tr2)]) =
      map (\<lambda>body. (consumer, ?cs, corr, body))
        (List.map_filter (descriptor_for S ?cs corr) (deliveries (es @ [ClockRead (env_now E tr2)])))"
      and "k \<le> length (consumptions (es @ [ClockRead (env_now E tr2)]))"
    using cons k(1) by simp_all
  ultimately show ?thesis
    using same n(1) why o(2-4) calls unfolding Let_def corr_def [symmetric] by blast
qed

section \<open>Correctness\<close>

text \<open>
  C3: A listing reports what its consumer has seen. When a listing returns a number, then under one
  lock that is released again the request of the listing, with a fresh correlation id and the
  count asked for, was accepted by the publication; since then the consumer was called once,
  in order, for each delivered descriptor of this session and correlation id and for nothing
  else; the number is that of the calls that returned, which is never more than a count asked for
  that is not zero (as an unsigned number); and it is the count asked for, unless the archive answered that it knows no (more) such recordings. The client keeps
  its context, session and limits.
\<close>

theorem listing_returns_what_was_consumed:
  assumes "break_stops E" and "archive_ok a" and "perform_listing S E l consumer a tr = Some (Inr n, a', tr')"
  shows "let corr = env_nextCorrelationId E (Locked # tr); cs = aa_controlSessionId a
     in same_client a a' \<and>
        (\<exists>bytes offered offers es k.
           tr' = Unlocked # es @ Offered bytes offered # offers @ CorrelationIdDrawn corr # Locked # tr \<and>
           0 <s offered \<and> list_all sending_event offers \<and>
           (\<forall>D. sbe_decodes S D \<longrightarrow>
              D bytes = Some (request_header S (type_of_request (listing_request l cs corr)),
                              listing_request l cs corr)) \<and>
           consumptions es =
             map (\<lambda>body. (consumer, cs, corr, body)) (List.map_filter (descriptor_for S cs corr) (deliveries es)) \<and>
           returned_calls E tr' = returned_calls E tr + k \<and> k \<le> length (consumptions es) \<and>
           n = word_of_nat k \<and>
           (listing_count l \<noteq> 0 \<longrightarrow> k \<le> unat (listing_count l)) \<and>
           (n = listing_count l \<or> (\<exists>f \<in> set (deliveries es). recording_unknown S cs corr f)))"
  by (rule listing_answered [OF assms])

lemma listing_returns_what_was_consumed_witness:
  "\<exists>a' tr' es. perform_listing sample_sbe (sample_env (Some sample_descriptor_message)) (ListRecording 3) 2
      sample_archive [] = Some (Inr 1, a', tr') \<and> same_client sample_archive a' \<and>
     set es \<subseteq> set tr' \<and> consumptions es \<noteq> []"
proof -
  let ?E = "sample_env (Some sample_descriptor_message)"
  obtain a' tr' where run: "perform_listing sample_sbe ?E (ListRecording 3) 2 sample_archive [] =
      Some (Inr 1, a', tr')"
    using sample_listing_run by blast
  obtain bytes offered offers es k where "same_client sample_archive a'"
      "tr' = Unlocked # es @ Offered bytes offered # offers @
         [CorrelationIdDrawn (env_nextCorrelationId ?E [Locked]), Locked]"
      "k \<le> length (consumptions es)" "(1 :: int32) = word_of_nat k"
    using listing_returns_what_was_consumed [OF sample_break_stops sample_archive_ok run]
    unfolding Let_def by blast
  moreover from this have "consumptions es \<noteq> []" by (cases k) auto
  ultimately show ?thesis using run by auto
qed

text \<open>
  C8: Every listing returns when the outside is quiet and time goes on: when, after some number of
  calls, no message is delivered any more, and the clock passes every deadline, wherever in the
  bounded stretch of sending or of messages it was set. Each descriptor that counts sets a new
  deadline, so before the messages stop the message timeout bounds only the time between two
  descriptors.
\<close>

theorem listings_return:
  assumes "archive_ok a" and "quiet_after E M"
    and "\<forall>tr2. length tr2 \<le> max (M + 3) (length tr + 2 * nat (max 1 (sint (px_retryAttempts (aa_proxy a)))) + 2) \<longrightarrow>
           clock_passes E (env_now E tr2 + aa_messageTimeoutNs a) N"
  shows "\<exists>res a' tr'. perform_listing S E l consumer a tr = Some (res, a', tr')"
proof -
  obtain r where "callAndPollForDescriptors S E (listing_sender l (aa_controlSessionId a) S E)
      (listing_count l) consumer (listing_name l) a tr = Some r"
    using listing_exchange.listing_returns [OF assms] by blast
  then show ?thesis
    by (cases r rule: prod_cases3) (simp add: perform_listing_exchange narrow_value_def)
qed

lemma listings_return_witness:
  "\<exists>res a' tr'. perform_listing sample_sbe (sample_env None) (ListRecordings 0 10) 2 sample_archive [] =
     Some (res, a', tr')"
proof (rule listings_return [OF sample_archive_ok])
  show "quiet_after (sample_env None) 1"
    by (rule sample_quiet)
  show "\<forall>tr2. length tr2 \<le> max (1 + 3) (length [] +
        2 * nat (max 1 (sint (px_retryAttempts (aa_proxy sample_archive)))) + 2) \<longrightarrow>
      clock_passes (sample_env None) (env_now (sample_env None) tr2 + aa_messageTimeoutNs sample_archive) 200"
    using sample_deadline by (simp add: sample_archive_def sample_proxy_def)
qed

end
