(* ===== verification/ArchiveConnect.thy ===== *)
theory ArchiveConnect
  imports ArchiveListings
begin

text \<open>
  Connecting to an archive as a whole: the registration of the subscription and the publication
  with Aeron, the connect request and the answer that carries the session id. The theorems say
  what a client that was constructed looks like, and when the constructor returns.
\<close>

section \<open>Registering a publication or subscription\<close>

fun looking :: "event \<Rightarrow> bool" where
  "looking (Looked _ _) = True"
| "looking Yielded = True"
| "looking _ = False"

text \<open>Aeron has accepted the resource, and a lookup has found it.\<close>

definition registered :: "env \<Rightarrow> resource \<Rightarrow> string \<Rightarrow> int32 \<Rightarrow> trace \<Rightarrow> int64 \<Rightarrow> trace \<Rightarrow> bool" where
  "registered E res channel streamId tr regId tr' \<longleftrightarrow>
     env_add E tr res channel streamId = Inr regId \<and>
     (\<exists>looks. tr' = Looked res regId # looks @ Added res channel streamId # tr \<and> list_all looking looks \<and>
        env_find E (looks @ Added res channel streamId # tr) res regId = Inr True)"

lemma find_loop_found:
  assumes "loop (find_step E res regId) tr = Some (Inr u, tr')"
  shows "\<exists>looks. tr' = Looked res regId # looks @ tr \<and> list_all looking looks \<and>
     env_find E (looks @ tr) res regId = Inr True"
proof -
  let ?I = "\<lambda>tr1. \<exists>looks. tr1 = looks @ tr \<and> list_all looking looks"
  have "case (Inr u :: unit result, tr') of (x, tr') \<Rightarrow> (\<forall>u. x = Inr u \<longrightarrow>
      (\<exists>looks. tr' = Looked res regId # looks @ tr \<and> list_all looking looks \<and>
        env_find E (looks @ tr) res regId = Inr True))"
    using assms
  proof (rule loop_invariant [where I = ?I])
    fix s s' assume "?I s" and step: "find_step E res regId s = Some (Inl s')"
    then obtain looks where "s = looks @ tr" "list_all looking looks" by blast
    then have "s' = (Yielded # Looked res regId # looks) @ tr" "list_all looking (Yielded # Looked res regId # looks)"
      using step by (auto simp: find_step_def call_defs split: sum.splits if_splits)
    then show "?I s'" by blast
  qed (auto simp: find_step_def call_defs split: sum.splits if_splits)
  then show ?thesis by simp
qed

lemma add_and_find_registered:
  assumes "add_and_find E res channel streamId tr = Some (Inr regId, tr')"
  shows "registered E res channel streamId tr regId tr'"
  using assms find_loop_found [of E res regId "Added res channel streamId # tr"]
  by (auto simp: add_and_find_def registered_def call_defs split: sum.splits option.splits)

text \<open>Every resource is found, or given up with an exception, once \<open>N\<close> calls have been made.\<close>

definition found_after :: "env \<Rightarrow> nat \<Rightarrow> bool" where
  "found_after E N \<longleftrightarrow> (\<forall>tr res regId. N \<le> length tr \<longrightarrow> env_find E tr res regId \<noteq> Inr False)"

lemma add_and_find_returns:
  assumes "found_after E N"
  shows "\<exists>x tr'. add_and_find E res channel streamId tr = Some (x, tr') \<and>
     length tr' \<le> max (length tr) (N + 1) + 2"
proof (cases "env_add E tr res channel streamId")
  case (Inl e)
  then show ?thesis by (auto simp: add_and_find_def call_defs)
next
  case (Inr regId)
  have "\<exists>r. loop (find_step E res regId) (Added res channel streamId # tr) = Some r \<and>
      length (snd r) \<le> max (length tr) (N + 1) + 2"
  proof (rule loop_total [where I = "\<lambda>tr1. length tr1 \<le> max (length tr) (N + 1) + 1" and m = "\<lambda>tr1. N - length tr1"])
    fix tr1 :: trace assume "length tr1 \<le> max (length tr) (N + 1) + 1"
    moreover have "env_find E tr1 res regId \<noteq> Inr False" if "N \<le> length tr1"
      using assms that by (simp add: found_after_def)
    ultimately show "(\<exists>s'. find_step E res regId tr1 = Some (Inl s') \<and>
          length s' \<le> max (length tr) (N + 1) + 1 \<and> N - length s' < N - length tr1) \<or>
        (\<exists>r. find_step E res regId tr1 = Some (Inr r) \<and> length (snd r) \<le> max (length tr) (N + 1) + 2)"
      by (cases "N \<le> length tr1") (auto simp: find_step_def call_defs split: sum.splits)
  qed simp
  then obtain x tr' where "loop (find_step E res regId) (Added res channel streamId # tr) = Some (x, tr')"
      "length tr' \<le> max (length tr) (N + 1) + 2" by auto
  then show ?thesis by (cases x) (auto simp: add_and_find_def call_defs Inr)
qed

section \<open>Connecting\<close>

text \<open>A connect request that was accepted.\<close>

lemma proxy_connect_accepted:
  assumes "proxy_connect_with S E invoker channel streamId correlationId p tr = Some (Inr True, p', tr')"
  shows "px_retryAttempts p' = px_retryAttempts p \<and>
     (\<exists>bytes r es. tr' = Offered bytes r # es @ tr \<and> 0 <s r \<and>
        (\<forall>D. sbe_decodes S D \<longrightarrow> D bytes =
           Some (request_header S T_Connect, ConnectRequest correlationId streamId channel)))"
proof -
  let ?req = "ConnectRequest correlationId streamId channel" and ?tr = "ClockRead (env_now E tr) # tr"
  obtain len where wrap: "wrapAndApplyHeader S ?req p = (Inr len, p')"
    and loop: "timeout_loop E (payload S len p') (env_now E tr + px_connectTimeoutNs p') invoker ?tr =
      Some (Inr True, tr')"
    using assms
    by (auto simp: proxy_connect_with_def offerWithTimeout_def call_defs Let_def split: prod.splits sum.splits option.splits)
  obtain r es es' where tr': "tr' = Offered (payload S len p') r # es" "0 <s r" "tr' = es' @ ?tr"
    using timeout_loop_outcome [OF loop] by (auto simp: timeout_outcome_def extends_def)
  then obtain es2 where "es' = Offered (payload S len p') r # es2" by (cases es') auto
  then have "tr' = Offered (payload S len p') r # (es2 @ [ClockRead (env_now E tr)]) @ tr"
    using tr' by simp
  then show ?thesis
    using tr'(2) wrap_frame [OF wrap] wrap_decodes [OF wrap] by (auto intro!: exI)
qed

lemma conclude_success:
  assumes "conclude E ctx tr = (Inr (), c, tr')"
  shows "ctx_cfg c = ctx_cfg ctx \<and> (\<exists>x. get_aeron c = Some x)"
  using assms by (cases ctx) (auto simp: conclude_def call_defs context_defs Let_def split: option.splits sum.splits if_splits)

text \<open>
  What a session is opened with: the connect request, accepted under a fresh correlation id, and
  the first response to it.
\<close>

definition session_opened ::
  "sbe \<Rightarrow> env \<Rightarrow> string \<Rightarrow> int32 \<Rightarrow> trace \<Rightarrow> int64 \<Rightarrow> trace \<Rightarrow> bool" where
  "session_opened S E channel streamId tr sessionId tr' \<longleftrightarrow>
     (let corr = env_nextCorrelationId E tr
      in \<exists>bytes offered es waits f fs m.
           tr' = waits @ Offered bytes offered # es @ CorrelationIdDrawn corr # tr \<and> 0 <s offered \<and>
           (\<forall>D. sbe_decodes S D \<longrightarrow> D bytes =
              Some (request_header S T_Connect, ConnectRequest corr streamId channel)) \<and>
           list_all waiting_event waits \<and> deliveries waits = f # fs \<and>
           (\<forall>g \<in> set fs. session_decision S corr g = None) \<and>
           decode_response S f = Some m \<and> re_correlationId m = corr \<and> re_code m = code_OK S \<and>
           sessionId = re_controlSessionId m)"

lemma open_session_opened:
  assumes "break_stops E" and "0 <s cp_fragmentLimit (aa_responsePoller a)"
    and "open_session S E a tr = Some (Inr u, a', tr')"
  shows "session_opened S E (get_controlResponseChannel (aa_ctx a)) (get_controlResponseStreamId (aa_ctx a)) tr
       (aa_controlSessionId a') tr' \<and>
     aa_ctx a' = aa_ctx a \<and> aa_aeron a' = aa_aeron a \<and> aa_messageTimeoutNs a' = aa_messageTimeoutNs a \<and>
     px_retryAttempts (aa_proxy a') = px_retryAttempts (aa_proxy a) \<and>
     cp_fragmentLimit (aa_responsePoller a') = cp_fragmentLimit (aa_responsePoller a) \<and>
     dp_fragmentLimit (aa_descriptorPoller a') = FRAGMENT_LIMIT \<and>
     dp_controlSessionId (aa_descriptorPoller a') = aa_controlSessionId a'"
proof -
  define corr where "corr = env_nextCorrelationId E tr"
  let ?channel = "get_controlResponseChannel (aa_ctx a)" and ?stream = "get_controlResponseStreamId (aa_ctx a)"
  obtain px tr2 where send: "proxy_connect_with S E True ?channel ?stream corr (aa_proxy a)
        (CorrelationIdDrawn corr # tr) = Some (Inr True, px, tr2)"
    and rest: "(case awaitSessionOpened S E (aa_ctx a) (aa_messageTimeoutNs a) corr (aa_responsePoller a) tr2 of
        None \<Rightarrow> None
      | Some (Inl e, p, tr3) \<Rightarrow> Some (Inl e, a\<lparr>aa_proxy := px, aa_responsePoller := p\<rparr>, tr3)
      | Some (Inr sessionId, p, tr3) \<Rightarrow>
          Some (Inr (), a\<lparr>aa_proxy := px, aa_responsePoller := p, aa_controlSessionId := sessionId,
            aa_descriptorPoller :=
              mk_RecordingDescriptorPoller (aa_descriptorPoller a) FRAGMENT_LIMIT sessionId\<rparr>, tr3)) =
      Some (Inr u, a', tr')"
    using assms(3)
    by (auto simp: open_session_def call_defs Let_def corr_def proxy_connect_invoking_def
        split: option.splits sum.splits bool.splits)
  from rest obtain sessionId p where await: "awaitSessionOpened S E (aa_ctx a) (aa_messageTimeoutNs a) corr
        (aa_responsePoller a) tr2 = Some (Inr sessionId, p, tr')"
    and a': "a' = a\<lparr>aa_proxy := px, aa_responsePoller := p, aa_controlSessionId := sessionId,
      aa_descriptorPoller := mk_RecordingDescriptorPoller (aa_descriptorPoller a) FRAGMENT_LIMIT sessionId\<rparr>"
    by (auto split: option.splits sum.splits)
  obtain f fs es where f: "tr' = es @ ClockRead (env_now E tr2) # tr2" "list_all waiting_event es"
      "deliveries es = f # fs" "session_decision S corr f = Some (Inr sessionId)"
      "\<forall>g \<in> set fs. session_decision S corr g = None"
    and lim: "cp_fragmentLimit p = cp_fragmentLimit (aa_responsePoller a)"
    using awaitSessionOpened_answered [OF assms(1,2) await] by auto
  obtain m where m: "decode_response S f = Some m" "re_correlationId m = corr" "re_code m = code_OK S"
      "sessionId = re_controlSessionId m"
    using f(4) by (auto simp: session_decision_def split: option.splits if_splits)
  obtain bytes r es2 where o: "tr2 = Offered bytes r # es2 @ CorrelationIdDrawn corr # tr" "0 <s r"
      "\<forall>D. sbe_decodes S D \<longrightarrow> D bytes =
         Some (request_header S T_Connect, ConnectRequest corr ?stream ?channel)"
    and frame: "px_retryAttempts px = px_retryAttempts (aa_proxy a)"
    using proxy_connect_accepted [OF send] by blast
  have "tr' = (es @ [ClockRead (env_now E tr2)]) @ Offered bytes r # es2 @ CorrelationIdDrawn corr # tr"
    using f(1) o(1) by simp
  moreover have "list_all waiting_event (es @ [ClockRead (env_now E tr2)])"
      "deliveries (es @ [ClockRead (env_now E tr2)]) = f # fs"
    using f(2,3) by simp_all
  ultimately have "session_opened S E ?channel ?stream tr sessionId tr'"
    using o(2,3) f(5) m unfolding session_opened_def Let_def corr_def [symmetric] by blast
  then show ?thesis
    using frame lim by (simp add: a' mk_RecordingDescriptorPoller_def)
qed

lemma mk_AeronArchive_ready:
  assumes "break_stops E" and "mk_AeronArchive S E memory ctx tr = Some (Inr a, tr')"
  shows "archive_ok a \<and> aa_messageTimeoutNs a = get_messageTimeoutNs ctx \<and>
     get_aeron (aa_ctx a) = Some (aa_aeron a) \<and>
     (\<exists>tr1 subId tr2 pubId tr3.
        conclude E ctx tr = (Inr (), aa_ctx a, tr1) \<and>
        registered E Sub (get_controlResponseChannel (aa_ctx a)) (get_controlResponseStreamId (aa_ctx a)) tr1 subId tr2 \<and>
        registered E ExclusivePub (get_controlRequestChannel (aa_ctx a)) (get_controlRequestStreamId (aa_ctx a))
          tr2 pubId tr3 \<and>
        session_opened S E (get_controlResponseChannel (aa_ctx a)) (get_controlResponseStreamId (aa_ctx a)) tr3
          (aa_controlSessionId a) tr')"
proof -
  obtain u c tr1 where concl: "conclude E ctx tr = (Inr u, c, tr1)"
    using assms(2) by (auto simp: mk_AeronArchive_def split: prod.splits sum.splits)
  obtain subId tr2 where sub: "add_and_find E Sub (get_controlResponseChannel c) (get_controlResponseStreamId c) tr1 =
      Some (Inr subId, tr2)"
    using assms(2) concl by (auto simp: mk_AeronArchive_def split: option.splits sum.splits)
  obtain pubId tr3 where pub: "add_and_find E ExclusivePub (get_controlRequestChannel c) (get_controlRequestStreamId c) tr2 =
      Some (Inr pubId, tr3)"
    using assms(2) concl sub by (auto simp: mk_AeronArchive_def split: option.splits sum.splits)
  let ?a = "memory\<lparr>aa_ctx := c, aa_messageTimeoutNs := get_messageTimeoutNs ctx, aa_aeron := the (get_aeron c),
    aa_responsePoller := mk_ControlResponsePoller (aa_responsePoller memory) FRAGMENT_LIMIT,
    aa_proxy := mk_ArchiveProxy (get_messageTimeoutNs c) DEFAULT_RETRY_ATTEMPTS\<rparr>"
  obtain v where opn: "open_session S E ?a tr3 = Some (Inr v, a, tr')"
    using assms(2) concl sub pub by (auto simp: mk_AeronArchive_def split: option.splits sum.splits)
  have "0 <s cp_fragmentLimit (aa_responsePoller ?a)"
    by (simp add: mk_ControlResponsePoller_def FRAGMENT_LIMIT_def word_sless_alt)
  note opened = open_session_opened [OF assms(1) this opn]
  obtain x where "get_aeron c = Some x" using conclude_success concl by fastforce
  then show ?thesis
    using opened concl add_and_find_registered [OF sub] add_and_find_registered [OF pub]
    by (auto simp: archive_ok_def mk_ControlResponsePoller_def mk_ArchiveProxy_def FRAGMENT_LIMIT_def
        DEFAULT_RETRY_ATTEMPTS_def word_sless_alt)
qed

text \<open>
  C4: A client that connects is ready. When the constructor returns, the context was concluded;
  the response subscription and the request publication of that context were registered with
  Aeron and found; a connect request with the response channel and stream and a fresh
  correlation id was accepted by the publication; the session id is that of the first response
  to it, whose code is OK; the time limit is that of the context, and the client is in a state
  in which every operation behaves as specified (\<open>archive_ok\<close>).
\<close>

theorem connected_client_is_ready:
  assumes "break_stops E" and "mk_AeronArchive S E memory ctx tr = Some (Inr a, tr')"
  shows "archive_ok a \<and> aa_messageTimeoutNs a = get_messageTimeoutNs ctx \<and>
     get_aeron (aa_ctx a) = Some (aa_aeron a) \<and>
     (\<exists>tr1 subId tr2 pubId tr3.
        conclude E ctx tr = (Inr (), aa_ctx a, tr1) \<and>
        registered E Sub (get_controlResponseChannel (aa_ctx a)) (get_controlResponseStreamId (aa_ctx a)) tr1 subId tr2 \<and>
        registered E ExclusivePub (get_controlRequestChannel (aa_ctx a)) (get_controlRequestStreamId (aa_ctx a))
          tr2 pubId tr3 \<and>
        session_opened S E (get_controlResponseChannel (aa_ctx a)) (get_controlResponseStreamId (aa_ctx a)) tr3
          (aa_controlSessionId a) tr')"
  by (rule mk_AeronArchive_ready [OF assms])

section \<open>A sample connection\<close>

lemma sample_add_and_find:
  "add_and_find (sample_env reply) res channel streamId tr =
     Some (Inr 1, Looked res 1 # Added res channel streamId # tr)"
  by (simp add: add_and_find_def loop_unfold find_step_def call_defs sample_env_def)

lemma sample_connects:
  assumes "wrapAndApplyHeader sample_sbe (ConnectRequest correlationId streamId channel) p = (Inr len, p')"
  shows "\<exists>tr'. proxy_connect_with sample_sbe (sample_env reply) invoker channel streamId correlationId p tr =
     Some (Inr True, p', tr')"
proof -
  have "env_offer (sample_env reply) tr1 bytes = 1" for tr1 bytes by (simp add: sample_env_def)
  then have "timeout_step (sample_env reply) bytes deadline invoker tr1 =
      Some (Inr (Inr True, Offered bytes 1 # tr1))" for bytes deadline tr1
    by (simp add: timeout_step_def call_defs Let_def word_sless_alt)
  then show ?thesis
    using assms by (simp add: proxy_connect_with_def offerWithTimeout_def timeout_loop_def loop_unfold call_defs Let_def)
qed

lemma sample_connected: "\<forall>tr. env_isConnected (sample_env reply) tr"
  by (simp add: sample_env_def)

lemma sample_opens:
  assumes "get_controlResponseStreamId (aa_ctx a) = 20" and "length (get_controlResponseChannel (aa_ctx a)) < 1000"
    and "px_buffer (aa_proxy a) = replicate 4096 0" and "0 <s cp_fragmentLimit (aa_responsePoller a)"
  shows "\<exists>a' tr'. open_session sample_sbe (sample_env (Some sample_response_message)) a tr = Some (Inr (), a', tr')"
proof -
  let ?E = "sample_env (Some sample_response_message)"
  have "\<exists>len p'. wrapAndApplyHeader sample_sbe
      (ConnectRequest 7 20 (get_controlResponseChannel (aa_ctx a))) (aa_proxy a) = (Inr len, p')"
    using assms(2,3) by (simp add: wrapAndApplyHeader_def sample_defs)
  then obtain len px where "wrapAndApplyHeader sample_sbe
      (ConnectRequest 7 20 (get_controlResponseChannel (aa_ctx a))) (aa_proxy a) = (Inr len, px)" by blast
  then obtain tr2 where "proxy_connect_with sample_sbe ?E True (get_controlResponseChannel (aa_ctx a)) 20 7
      (aa_proxy a) (CorrelationIdDrawn 7 # tr) = Some (Inr True, px, tr2)"
    using sample_connects by blast
  moreover have "session_decision sample_sbe 7 sample_response_message = Some (Inr 5)"
    by (simp add: session_decision_def decode_response_def read_response_def sample_response_message_def sample_defs)
  then obtain p tr3 where "awaitSessionOpened sample_sbe ?E (aa_ctx a) (aa_messageTimeoutNs a) 7
      (aa_responsePoller a) tr2 = Some (Inr 5, p, tr3)"
    using awaitSessionOpened_at_once [OF sample_break_stops assms(4), where f = sample_response_message]
      sample_next_message by (metis sample_connected)
  moreover have "env_nextCorrelationId ?E tr = 7" by (simp add: sample_env_def)
  ultimately show ?thesis
    using assms(1) by (simp add: open_session_def call_defs Let_def proxy_connect_invoking_def)
qed

lemma sample_connect:
  "\<exists>a tr'. mk_AeronArchive sample_sbe (sample_env (Some sample_response_message)) sample_archive
      sample_context [] = Some (Inr a, tr')"
proof -
  let ?E = "sample_env (Some sample_response_message)"
  let ?c = "sample_context\<lparr>ctx_aeronDirectoryName := ''/dev/shm/aeron''\<rparr>"
  have c: "conclude ?E sample_context [] = (Inr (), ?c, [])"
    by (simp add: conclude_def sample_context_def sample_env_def)
  let ?a = "sample_archive\<lparr>aa_ctx := ?c, aa_messageTimeoutNs := get_messageTimeoutNs sample_context,
    aa_aeron := the (get_aeron ?c),
    aa_responsePoller := mk_ControlResponsePoller sample_response_poller FRAGMENT_LIMIT,
    aa_proxy := mk_ArchiveProxy (get_messageTimeoutNs ?c) DEFAULT_RETRY_ATTEMPTS\<rparr>"
  have "get_controlResponseStreamId (aa_ctx ?a) = 20" "length (get_controlResponseChannel (aa_ctx ?a)) < 1000"
    by (simp_all add: sample_context_def context_defs default_configuration_def)
  moreover have "px_buffer (aa_proxy ?a) = replicate 4096 0" by (simp add: mk_ArchiveProxy_def)
  moreover have "0 <s cp_fragmentLimit (aa_responsePoller ?a)"
    by (simp add: mk_ControlResponsePoller_def FRAGMENT_LIMIT_def word_sless_alt)
  ultimately obtain a' tr' where "open_session sample_sbe ?E ?a
      (Looked ExclusivePub 1 # Added ExclusivePub (get_controlRequestChannel ?c) (get_controlRequestStreamId ?c) #
       [Looked Sub 1, Added Sub (get_controlResponseChannel ?c) (get_controlResponseStreamId ?c)]) = Some (Inr (), a', tr')"
    using sample_opens by blast
  moreover have "aa_responsePoller sample_archive = sample_response_poller"
    by (simp add: sample_archive_def)
  ultimately show ?thesis
    by (simp add: mk_AeronArchive_def c sample_add_and_find)
qed

lemma connected_client_is_ready_witness:
  "\<exists>a tr'. mk_AeronArchive sample_sbe (sample_env (Some sample_response_message)) sample_archive
      sample_context [] = Some (Inr a, tr') \<and> archive_ok a"
  using sample_connect connected_client_is_ready [OF sample_break_stops] by blast

section \<open>When connecting returns\<close>

text \<open>Every deadline set in the first \<open>B\<close> calls is passed by the clock after \<open>N\<close> calls.\<close>

definition deadlines_pass :: "env \<Rightarrow> int64 \<Rightarrow> nat \<Rightarrow> nat \<Rightarrow> bool" where
  "deadlines_pass E timeoutNs B N \<longleftrightarrow>
     (\<forall>tr. length tr \<le> B \<longrightarrow> clock_passes E (env_now E tr + timeoutNs) N)"

lemma timeout_loop_bounded:
  assumes "clock_passes E deadline N"
  shows "\<exists>res tr'. timeout_loop E bytes deadline invoker tr = Some (res, tr') \<and>
     length tr' \<le> max (length tr) (N + 2) + 2"
proof -
  have "\<exists>r. loop (timeout_step E bytes deadline invoker) tr = Some r \<and> length (snd r) \<le> max (length tr) (N + 2) + 2"
  proof (rule loop_total [where I = "\<lambda>tr1. length tr1 \<le> max (length tr) (N + 2)" and m = "\<lambda>tr1. N - length tr1"])
    fix tr1 :: trace assume "length tr1 \<le> max (length tr) (N + 2)"
    moreover have "deadline <s env_now E (Offered bytes (env_offer E tr1 bytes) # tr1)" if "N \<le> Suc (length tr1)"
      using assms that by (auto simp: clock_passes_def)
    ultimately show "(\<exists>s'. timeout_step E bytes deadline invoker tr1 = Some (Inl s') \<and>
          length s' \<le> max (length tr) (N + 2) \<and> N - length s' < N - length tr1) \<or>
        (\<exists>r. timeout_step E bytes deadline invoker tr1 = Some (Inr r) \<and> length (snd r) \<le> max (length tr) (N + 2) + 2)"
      by (cases "N \<le> Suc (length tr1)") (auto simp: timeout_step_def call_defs Let_def)
  qed simp
  then show ?thesis by (auto simp: timeout_loop_def)
qed

lemma proxy_connect_bounded:
  assumes "deadlines_pass E (px_connectTimeoutNs p) (length tr) N"
  shows "\<exists>res p' tr'. proxy_connect_with S E invoker channel streamId correlationId p tr = Some (res, p', tr') \<and>
     length tr' \<le> max (Suc (length tr)) (N + 2) + 2"
proof -
  obtain x p' where wrap: "wrapAndApplyHeader S (ConnectRequest correlationId streamId channel) p = (x, p')"
    by fastforce
  show ?thesis
  proof (cases x)
    case (Inr len)
    have "clock_passes E (env_now E tr + px_connectTimeoutNs p') N"
      using assms wrap_frame [OF wrap] by (simp add: deadlines_pass_def)
    from timeout_loop_bounded [OF this, of "payload S len p'" invoker "ClockRead (env_now E tr) # tr"]
    show ?thesis
      by (auto simp: proxy_connect_with_def wrap Inr offerWithTimeout_def call_defs Let_def)
  qed (simp add: proxy_connect_with_def wrap)
qed

lemma open_session_returns:
  assumes "break_stops E" and "quiet_after E M" and "0 <s cp_fragmentLimit (aa_responsePoller a)"
    and "deadlines_pass E (px_connectTimeoutNs (aa_proxy a)) (Suc (length tr)) N1"
    and "deadlines_pass E (aa_messageTimeoutNs a) (max (length tr) N1 + 4) N2"
  shows "\<exists>res a' tr'. open_session S E a tr = Some (res, a', tr')"
proof -
  define corr where "corr = env_nextCorrelationId E tr"
  let ?tr1 = "CorrelationIdDrawn corr # tr"
  have "deadlines_pass E (px_connectTimeoutNs (aa_proxy a)) (length ?tr1) N1" using assms(4) by simp
  then obtain res px tr2 where send: "proxy_connect_with S E True (get_controlResponseChannel (aa_ctx a))
        (get_controlResponseStreamId (aa_ctx a)) corr (aa_proxy a) ?tr1 = Some (res, px, tr2)"
      and "length tr2 \<le> max (Suc (length ?tr1)) (N1 + 2) + 2"
    using proxy_connect_bounded by blast
  then have "clock_passes E (env_now E tr2 + aa_messageTimeoutNs a) N2"
    using assms(5) by (simp add: deadlines_pass_def max_def split: if_splits)
  then obtain r where "awaitSessionOpened S E (aa_ctx a) (aa_messageTimeoutNs a) corr (aa_responsePoller a) tr2 = Some r"
    using awaitSessionOpened_returns [OF assms(1,3,2)] by blast
  then show ?thesis
    using send by (cases r rule: prod_cases3)
      (auto simp: open_session_def call_defs Let_def corr_def [symmetric] proxy_connect_invoking_def
        split: sum.split bool.split)
qed

text \<open>
  C9: Connecting returns. When Aeron finds every resource or gives it up, after some number of
  calls, messages stop coming, and the clock passes each deadline of the bounded stretch in which
  it can be set, the constructor returns a client or throws: no lookup, offer or wait goes on
  for ever.
\<close>

theorem connecting_returns:
  assumes "break_stops E" and "found_after E F" and "quiet_after E M"
    and "deadlines_pass E (get_messageTimeoutNs ctx) (max (length tr) F + 7) N1"
    and "deadlines_pass E (get_messageTimeoutNs ctx) (max (max (length tr) F) N1 + 10) N2"
  shows "\<exists>x tr'. mk_AeronArchive S E memory ctx tr = Some (x, tr')"
proof -
  obtain x c tr1 where concl: "conclude E ctx tr = (x, c, tr1)" by (metis prod.exhaust)
  have cfg: "ctx_cfg c = ctx_cfg ctx" and len: "length tr1 \<le> length tr + 1"
    using concl by (auto simp: conclude_def call_defs Let_def split: option.splits sum.splits if_splits)
  obtain y tr2 where sub: "add_and_find E Sub (get_controlResponseChannel c) (get_controlResponseStreamId c) tr1 =
      Some (y, tr2)" and len2: "length tr2 \<le> max (length tr1) (F + 1) + 2"
    using add_and_find_returns [OF assms(2)] by blast
  obtain z tr3 where pub: "add_and_find E ExclusivePub (get_controlRequestChannel c) (get_controlRequestStreamId c) tr2 =
      Some (z, tr3)" and len3: "length tr3 \<le> max (length tr2) (F + 1) + 2"
    using add_and_find_returns [OF assms(2)] by blast
  let ?a = "memory\<lparr>aa_ctx := c, aa_messageTimeoutNs := get_messageTimeoutNs ctx, aa_aeron := the (get_aeron c),
    aa_responsePoller := mk_ControlResponsePoller (aa_responsePoller memory) FRAGMENT_LIMIT,
    aa_proxy := mk_ArchiveProxy (get_messageTimeoutNs c) DEFAULT_RETRY_ATTEMPTS\<rparr>"
  have "0 <s cp_fragmentLimit (aa_responsePoller ?a)"
    by (simp add: mk_ControlResponsePoller_def FRAGMENT_LIMIT_def word_sless_alt)
  moreover have "length tr3 \<le> max (length tr) F + 6" using len len2 len3 by simp
  then have "deadlines_pass E (px_connectTimeoutNs (aa_proxy ?a)) (Suc (length tr3)) N1"
      "deadlines_pass E (aa_messageTimeoutNs ?a) (max (length tr3) N1 + 4) N2"
    using assms(4,5) cfg by (simp_all add: deadlines_pass_def mk_ArchiveProxy_def context_defs)
  ultimately obtain res a tr4 where "open_session S E ?a tr3 = Some (res, a, tr4)"
    using open_session_returns [OF assms(1,3)] by blast
  then show ?thesis
    using concl sub pub by (auto simp: mk_AeronArchive_def split: sum.split)
qed

lemma connecting_returns_witness:
  "\<exists>x tr'. mk_AeronArchive sample_sbe (sample_env None) sample_archive
     (set_messageTimeoutNs 100 sample_context) [] = Some (x, tr')"
proof (rule connecting_returns [OF sample_break_stops _ sample_quiet])
  show "found_after (sample_env None) 0" by (simp add: found_after_def sample_env_def)
  have deadlines: "deadlines_pass (sample_env None) 100 B (B + 101)" if "B \<le> 1000" for B
    unfolding deadlines_pass_def
  proof (intro allI impI sample_clock)
    fix tr :: trace assume "length tr \<le> B"
    with that have "env_now (sample_env None) tr + 100 = word_of_nat (length tr + 100)"
      by (simp add: sample_env_def)
    then have "sint (env_now (sample_env None) tr + 100) = int (length tr) + 100"
      using \<open>length tr \<le> B\<close> that by (simp only: signed_of_nat) (simp add: signed_take_bit_int_eq_self)
    then show "sint (env_now (sample_env None) tr + 100) < 1000000"
      "nat (sint (env_now (sample_env None) tr + 100)) < B + 101"
      using \<open>length tr \<le> B\<close> that by simp_all
  qed
  have t: "get_messageTimeoutNs (set_messageTimeoutNs 100 sample_context) = 100"
    by (simp add: context_defs)
  show "deadlines_pass (sample_env None) (get_messageTimeoutNs (set_messageTimeoutNs 100 sample_context))
      (max (length []) 0 + 7) 108"
    using deadlines [of 7] by (simp add: t)
  show "deadlines_pass (sample_env None) (get_messageTimeoutNs (set_messageTimeoutNs 100 sample_context))
      (max (max (length []) 0) 108 + 10) 219"
    using deadlines [of 118] by (simp add: t)
qed

end
