(* ===== verification/ArchiveStreams.thy ===== *)
theory ArchiveStreams
  imports ArchiveConnect
begin

text \<open>
  The operations of the client that combine an exchange with Aeron's resources, recorded
  publications and replays, and the polls for errors outside an exchange.
\<close>

section \<open>Recorded publications and replays\<close>


lemma perform_value:
  assumes "break_stops E" and "archive_ok a" and "perform S E o' a tr = Some (Inr (Value64 v), a', tr')"
  shows "exchanged S E a (operation_request o' (aa_controlSessionId a)) (operation_name o') tr (Inr v) tr' \<and>
     same_client a a'"
proof -
  obtain r where r: "exchanged S E a (operation_request o' (aa_controlSessionId a)) (operation_name o') tr r tr'"
      "Inr (Value64 v) = bind_result r (\<lambda>v. Inr (operation_answer o' v))" "same_client a a'"
    using perform_outcome [OF assms] by blast
  then obtain w where "r = Inr w" "Value64 v = operation_answer o' w" by (cases r) auto
  then show ?thesis using r by (cases o') auto
qed

text \<open>The channel of a stream with the session id of one of its publications.\<close>

definition session_channel :: "layout \<Rightarrow> string \<Rightarrow> int32 \<Rightarrow> string \<Rightarrow> bool" where
  "session_channel lay channel sessionId chan \<longleftrightarrow>
     (\<exists>u w. parse lay channel = Inr u \<and> parse lay chan = Inr w \<and>
        uri_prefix w = uri_prefix u \<and> uri_media w = uri_media u \<and>
        get w = (get u)(''session-id'' \<mapsto> to_string (sint sessionId)))"

lemma session_channel:
  assumes "addSessionId lay channel sessionId = Inr chan"
  shows "session_channel lay channel sessionId chan"
proof -
  obtain u where "parse lay channel = Inr u" using assms by (auto simp: addSessionId_def split: sum.splits)
  then show ?thesis
    using addSessionId_reads [of lay channel u sessionId] assms by (auto simp: session_channel_def)
qed

lemma replay_course:
  assumes "break_stops E" and "archive_ok a"
    and "archive_replay S E lay recordingId position length' channel streamId a tr = Some (Inr subId, a', tr')"
  shows "same_client a a' \<and>
     (\<exists>replaySessionId tr1 chan.
        exchanged S E a (operation_request (StartReplay recordingId position length' channel streamId)
          (aa_controlSessionId a)) ''start replay'' tr (Inr replaySessionId) tr1 \<and>
        session_channel lay channel (ucast replaySessionId) chan \<and>
        registered E Sub chan streamId tr1 subId tr')"
proof -
  let ?op = "StartReplay recordingId position length' channel streamId"
  obtain v tr1 where start: "archive_startReplay S E recordingId position length' channel streamId a tr =
        Some (Inr v, a', tr1)"
    using assms(3) by (auto simp: archive_replay_def split: option.splits sum.splits)
  obtain chan where chan: "addSessionId lay channel (ucast v) = Inr chan"
      and sub: "add_and_find E Sub chan streamId tr1 = Some (Inr subId, tr')"
    using assms(3) start by (auto simp: archive_replay_def split: option.splits sum.splits)
  have "perform S E ?op a tr = Some (Inr (Value64 v), a', tr1)"
    by (simp add: start answers_def)
  from perform_value [OF assms(1,2) this] session_channel [OF chan] add_and_find_registered [OF sub]
  show ?thesis by auto
qed

text \<open>
  C10: A replay is subscribed to under its own session. When \<^verbatim>\<open>replay\<close> returns a subscription, the
  replay request was exchanged for an answer, and the subscription was registered with Aeron,
  and found, on the stream asked for and on a channel that parses to the replay channel with
  the parameter \<^verbatim>\<open>session-id\<close> bound to the signed decimal text of the low 32 bits of the answer.
\<close>

theorem replay_subscribes_to_its_session:
  assumes "break_stops E" and "archive_ok a"
    and "archive_replay S E lay recordingId position length' channel streamId a tr = Some (Inr subId, a', tr')"
  shows "same_client a a' \<and>
     (\<exists>replaySessionId tr1 chan.
        exchanged S E a (operation_request (StartReplay recordingId position length' channel streamId)
          (aa_controlSessionId a)) ''start replay'' tr (Inr replaySessionId) tr1 \<and>
        session_channel lay channel (ucast replaySessionId) chan \<and>
        registered E Sub chan streamId tr1 subId tr')"
  using replay_course [OF assms] by blast

text \<open>Both methods that add a publication and have it recorded.\<close>

definition add_recorded ::
  "sbe \<Rightarrow> env \<Rightarrow> layout \<Rightarrow> bool \<Rightarrow> string \<Rightarrow> int32 \<Rightarrow>
     aeron_archive \<Rightarrow> trace \<Rightarrow> (int64 result \<times> aeron_archive \<times> trace) option" where
  "add_recorded S E lay exclusive =
     (if exclusive then archive_addRecordedExclusivePublication S E lay
      else archive_addRecordedPublication S E lay)"

text \<open>
  C11: A recorded publication is recorded as itself. When one of the two methods returns a
  publication, Aeron registered it on the channel and stream asked for, a shared one was not
  there before, and then the request to record, from the local driver, the channel with the
  session id of this publication was exchanged for an answer; and stopping the recording by the
  publication asks for the same channel text.
\<close>

theorem recorded_publication_is_recorded:
  assumes "break_stops E" and "archive_ok a"
    and "add_recorded S E lay exclusive channel streamId a tr = Some (Inr pubId, a', tr')"
  shows "same_client a a' \<and> (exclusive \<or> env_isOriginal E pubId) \<and>
     (\<exists>tr1 chan subscriptionId.
        registered E (if exclusive then ExclusivePub else Pub) channel streamId tr pubId tr1 \<and>
        session_channel lay channel (env_sessionId E pubId) chan \<and>
        exchanged S E a (operation_request (StartRecording chan streamId LOCAL) (aa_controlSessionId a))
          ''start recording'' tr1 (Inr subscriptionId) tr' \<and>
        (\<forall>b tr2. archive_stopRecording_publication S E lay
             \<lparr>pub_channel = channel, pub_sessionId = env_sessionId E pubId, pub_streamId = streamId\<rparr> b tr2 =
           archive_stopRecording S E chan streamId b tr2))"
proof -
  let ?res = "if exclusive then ExclusivePub else Pub"
  obtain tr1 where pub: "add_and_find E ?res channel streamId tr = Some (Inr pubId, tr1)"
    and orig: "exclusive \<or> env_isOriginal E pubId"
    using assms(3)
    by (auto simp: add_recorded_def archive_addRecordedPublication_def archive_addRecordedExclusivePublication_def
        bind_result_def split: option.splits sum.splits if_splits)
  obtain chan v where chan: "addSessionId lay channel (env_sessionId E pubId) = Inr chan"
    and start: "archive_startRecording S E chan streamId LOCAL a tr1 = Some (Inr v, a', tr')"
    using assms(3) pub orig
    by (auto simp: add_recorded_def archive_addRecordedPublication_def archive_addRecordedExclusivePublication_def
        bind_result_def split: option.splits sum.splits if_splits)
  have "perform S E (StartRecording chan streamId LOCAL) a tr1 = Some (Inr (Value64 v), a', tr')"
    by (simp add: start answers_def)
  note ex = perform_value [OF assms(1,2) this]
  show ?thesis
    using ex orig session_channel [OF chan] add_and_find_registered [OF pub] chan
    by (intro conjI exI [of _ tr1] exI [of _ chan] exI [of _ v])
      (simp_all add: archive_stopRecording_publication_def)
qed


lemma sample_sends_from:
  assumes "wrapAndApplyHeader sample_sbe req px = (Inr len, p)"
  shows "send_request sample_sbe (sample_env reply) req px tr =
     (Inr True, p, Offered (payload sample_sbe len p) 1 # tr)"
proof -
  have "env_offer (sample_env reply) tr (payload sample_sbe len p) = 1" by (simp add: sample_env_def)
  then show ?thesis
    using assms by (simp add: send_request_def offer_def offer_loop.simps call_defs Let_def word_sless_alt)
qed

lemma sample_exchange_from:
  assumes "wrapAndApplyHeader sample_sbe (operation_request o' 5 7) px = (Inr len, p)"
    and "response_decision sample_sbe 5 7 f = Some r"
  shows "\<exists>a' tr'. perform sample_sbe (sample_env (Some f)) o' (sample_archive\<lparr>aa_proxy := px\<rparr>) tr =
     Some (bind_result r (\<lambda>v. Inr (operation_answer o' v)), a', tr')"
proof -
  let ?E = "sample_env (Some f)"
  let ?tr = "Offered (payload sample_sbe len p) 1 # CorrelationIdDrawn 7 # Locked # tr"
  have "0 <s cp_fragmentLimit sample_response_poller"
    by (simp add: sample_response_poller_def word_sless_alt)
  then obtain q tr1 where "pollForResponse sample_sbe ?E 100 5 7 sample_response_poller ?tr = Some (r, q, tr1)"
    using pollForResponse_at_once [OF sample_break_stops _ sample_next_message assms(2)] by blast
  moreover have "env_nextCorrelationId ?E (Locked # tr) = 7" by (simp add: sample_env_def)
  ultimately show ?thesis
    using assms(1)
    by (simp add: perform_exchange answers_def callAndPollForResponse_def operation_sender_def call_defs Let_def
        sample_archive_def sample_sends_from)
qed

text \<open>A client whose buffer holds a channel.\<close>

definition roomy_archive :: aeron_archive where
  "roomy_archive = sample_archive\<lparr>aa_proxy := sample_proxy\<lparr>px_buffer := replicate 100 0\<rparr>\<rparr>"

lemma roomy_archive_ok: "archive_ok roomy_archive"
  using sample_archive_ok by (simp add: archive_ok_def roomy_archive_def sample_archive_def)

lemma roomy_exchange:
  assumes "length (body_bytes (operation_request o' 5 7)) < 100"
    and "list_all (\<lambda>w. widen (narrow w) = w) (fst (wire (operation_request o' 5 7)))"
  shows "\<exists>a' tr'. perform sample_sbe (sample_env (Some sample_response_message)) o' roomy_archive tr =
     Some (Inr (operation_answer o' 42), a', tr')"
proof -
  have "\<exists>len p. wrapAndApplyHeader sample_sbe (operation_request o' 5 7)
      (sample_proxy\<lparr>px_buffer := replicate 100 0\<rparr>) = (Inr len, p)"
    using assms by (simp add: wrapAndApplyHeader_def sample_sbe_def sample_writeHeader_def sample_write_def put_bytes_def)
  then obtain len p where "wrapAndApplyHeader sample_sbe (operation_request o' 5 7)
      (sample_proxy\<lparr>px_buffer := replicate 100 0\<rparr>) = (Inr len, p)" by blast
  from sample_exchange_from [OF this sample_decides] show ?thesis by (simp add: roomy_archive_def)
qed

lemma replay_subscribes_to_its_session_witness:
  "\<exists>a' tr' v chan tr1. archive_replay sample_sbe (sample_env (Some sample_response_message)) (\<lambda>_ _ _. 0) 3 0 100
      ''aeron:ipc'' 10 roomy_archive [] = Some (Inr 1, a', tr') \<and>
     session_channel (\<lambda>_ _ _. 0) ''aeron:ipc'' (ucast (v :: int64)) chan \<and>
     registered (sample_env (Some sample_response_message)) Sub chan 10 tr1 1 tr'"
proof -
  let ?E = "sample_env (Some sample_response_message)"
  have "list_all (\<lambda>w. widen (narrow w) = w) (fst (wire (ReplayRequest 5 7 3 0 100 10 ''aeron:ipc'')))"
    by (simp add: widen_def narrow_def wide32_def)
  then obtain a' tr1 where "perform sample_sbe ?E (StartReplay 3 0 100 ''aeron:ipc'' 10) roomy_archive [] =
      Some (Inr (Value64 42), a', tr1)"
    using roomy_exchange [of "StartReplay 3 0 100 ''aeron:ipc'' 10" "[]"] by (auto simp: body_bytes_def)
  then have "archive_startReplay sample_sbe ?E 3 0 100 ''aeron:ipc'' 10 roomy_archive [] = Some (Inr 42, a', tr1)"
    by (auto simp: answers_def bind_result_def split: option.splits sum.splits)
  moreover have "addSessionId (\<lambda>_ _ _. 0) ''aeron:ipc'' 42 = Inr ''aeron:ipc?session-id=42''"
    by code_simp
  ultimately obtain tr' where run: "archive_replay sample_sbe ?E (\<lambda>_ _ _. 0) 3 0 100 ''aeron:ipc'' 10 roomy_archive [] =
      Some (Inr 1, a', tr')"
    by (simp add: archive_replay_def sample_add_and_find)
  show ?thesis
    using replay_subscribes_to_its_session [OF sample_break_stops roomy_archive_ok run] run by blast
qed

lemma recorded_publication_is_recorded_witness:
  "\<exists>a' tr' tr1. add_recorded sample_sbe (sample_env (Some sample_response_message)) (\<lambda>_ _ _. 0) False
      ''aeron:ipc'' 10 roomy_archive [] = Some (Inr 1, a', tr') \<and> same_client roomy_archive a' \<and>
     registered (sample_env (Some sample_response_message)) Pub ''aeron:ipc'' 10 [] 1 tr1"
proof -
  let ?E = "sample_env (Some sample_response_message)" and ?rec = "''aeron:ipc?session-id=5''"
  let ?tr = "[Looked Pub 1, Added Pub ''aeron:ipc'' 10]"
  have "list_all (\<lambda>w. widen (narrow w) = w) (fst (wire (StartRecordingRequest 5 7 10 LOCAL ?rec)))"
    by (simp add: widen_def narrow_def wide32_def)
  then obtain a' tr' where "perform sample_sbe ?E (StartRecording ?rec 10 LOCAL) roomy_archive ?tr =
      Some (Inr (Value64 42), a', tr')"
    using roomy_exchange [of "StartRecording ?rec 10 LOCAL" ?tr] by (auto simp: body_bytes_def)
  then have "archive_startRecording sample_sbe ?E ?rec 10 LOCAL roomy_archive ?tr = Some (Inr 42, a', tr')"
    by (auto simp: answers_def bind_result_def split: option.splits sum.splits)
  moreover have "addSessionId (\<lambda>_ _ _. 0) ''aeron:ipc'' 5 = Inr ?rec"
    by code_simp
  moreover have "env_isOriginal ?E 1" "env_sessionId ?E 1 = 5" by (simp_all add: sample_env_def)
  ultimately have run: "add_recorded sample_sbe ?E (\<lambda>_ _ _. 0) False ''aeron:ipc'' 10 roomy_archive [] =
      Some (Inr 1, a', tr')"
    by (simp add: add_recorded_def archive_addRecordedPublication_def sample_add_and_find)
  then show ?thesis
    using recorded_publication_is_recorded [OF sample_break_stops roomy_archive_ok run] by auto
qed

section \<open>The error polls\<close>








end
