(* ===== verification/ArchiveSessions.thy ===== *)
theory ArchiveSessions
  imports ArchiveStreams
begin

text \<open>
  Sessions: the public operations of a connected client as the steps of a transition system, and
  the discipline with which they use the client's mutex. A history is read as a sequence of
  events; the operations are shown to take the lock, do all that is protected, and release it.
\<close>

section \<open>The lock in a history\<close>

text \<open>Whether the lock is held at the end of a history, or \<open>None\<close> if it was misused.\<close>

fun lock_held :: "trace \<Rightarrow> bool option" where
  "lock_held [] = Some False"
| "lock_held (Locked # tr) = (if lock_held tr = Some False then Some True else None)"
| "lock_held (Unlocked # tr) = (if lock_held tr = Some True then Some False else None)"
| "lock_held (e # tr) = lock_held tr"

text \<open>
  The calls that use what the lock protects, the proxy's buffer and the two pollers: drawing a
  correlation id for a request, offering it, polling for its answer, handing a descriptor over.
\<close>

fun protected :: "event \<Rightarrow> bool" where
  "protected (Offered _ _) = True"
| "protected (CorrelationIdDrawn _) = True"
| "protected (PollStarted _) = True"
| "protected (Delivered _) = True"
| "protected (Called _) = True"
| "protected _ = False"

fun guarded :: "trace \<Rightarrow> bool" where
  "guarded [] = True"
| "guarded (e # tr) \<longleftrightarrow> guarded tr \<and> (if protected e then lock_held tr = Some True else True)"

fun lock_event :: "event \<Rightarrow> bool" where
  "lock_event Locked = True"
| "lock_event Unlocked = True"
| "lock_event _ = False"

text \<open>A stretch of the history under the lock, which is taken once.\<close>

definition locks_once :: "trace \<Rightarrow> trace \<Rightarrow> bool" where
  "locks_once tr tr' \<longleftrightarrow> (\<exists>es. tr' = Unlocked # es @ Locked # tr \<and> list_all (\<lambda>e. \<not> lock_event e) es)"

lemma lock_held_silent: "list_all (\<lambda>e. \<not> lock_event e) es \<Longrightarrow> lock_held (es @ tr) = lock_held tr"
proof (induction es)
  case (Cons e es)
  then show ?case by (cases e) simp_all
qed simp

lemma guarded_silent:
  "list_all (\<lambda>e. \<not> lock_event e) es \<Longrightarrow> lock_held tr = Some True \<Longrightarrow> guarded tr \<Longrightarrow> guarded (es @ tr)"
  by (induction es) (simp_all add: lock_held_silent)

text \<open>A stretch of the history that starts and ends with the lock free, and keeps to its rules.\<close>

definition tidy :: "trace \<Rightarrow> trace \<Rightarrow> bool" where
  "tidy tr tr' \<longleftrightarrow> (\<exists>es. tr' = es @ tr \<and> lock_held es = Some False \<and> guarded es)"

lemma lock_held_append: "lock_held ys = Some False \<Longrightarrow> lock_held (xs @ ys) = lock_held xs"
proof (induction xs)
  case (Cons e xs)
  then show ?case by (cases e) simp_all
qed simp

lemma guarded_append: "lock_held ys = Some False \<Longrightarrow> guarded ys \<Longrightarrow> guarded xs \<Longrightarrow> guarded (xs @ ys)"
  by (induction xs) (simp_all add: lock_held_append)

lemma tidy_refl [simp]: "tidy tr tr"
  by (auto simp: tidy_def intro!: exI [of _ "[]"])

lemma tidy_trans [trans]: "tidy a b \<Longrightarrow> tidy b c \<Longrightarrow> tidy a c"
  unfolding tidy_def by (metis append_assoc guarded_append lock_held_append)

lemma locks_once_tidy: "locks_once tr tr' \<Longrightarrow> tidy tr tr'"
proof -
  assume "locks_once tr tr'"
  then obtain es where es: "tr' = (Unlocked # es @ [Locked]) @ tr" "list_all (\<lambda>e. \<not> lock_event e) es"
    by (auto simp: locks_once_def)
  then have "lock_held (Unlocked # es @ [Locked]) = Some False" "guarded (Unlocked # es @ [Locked])"
    by (simp_all add: lock_held_silent guarded_silent)
  then show ?thesis using es(1) unfolding tidy_def by blast
qed

lemma tidy_Cons [simp]: "\<not> lock_event e \<Longrightarrow> \<not> protected e \<Longrightarrow> tidy tr tr1 \<Longrightarrow> tidy tr (e # tr1)"
  by (rule tidy_trans, assumption) (cases e; auto simp: tidy_def intro!: exI [of _ "[_]"])

section \<open>Every exchange takes the lock once\<close>

lemma offer_events_no_lock: "list_all (\<lambda>e. \<not> lock_event e) (offer_events bytes rs)"
  by (induction bytes rs rule: offer_events.induct) simp_all

lemma waiting_no_lock: "waiting_event e \<Longrightarrow> \<not> lock_event e"
  by (cases e) simp_all

lemma sends_request_no_lock:
  assumes "sends_request S E req attempts tr sent tr2"
  shows "\<exists>es. tr2 = es @ tr \<and> list_all (\<lambda>e. \<not> lock_event e) es"
proof -
  from assms consider "tr2 = tr" | bytes rs where "tr2 = offer_events bytes rs @ tr"
    unfolding sends_request_def by blast
  then show ?thesis
  proof cases
    case 1
    then show ?thesis by (intro exI [of _ "[]"]) simp
  qed (use offer_events_no_lock in blast)
qed

lemma answered_no_lock:
  assumes "answered S deadline decision tr (res, p, tr')"
  shows "\<exists>es. tr' = es @ tr \<and> list_all (\<lambda>e. \<not> lock_event e) es"
proof -
  from assms obtain es where "tr' = es @ tr" "list_all waiting_event es"
    by (auto simp: answered_def waited_def split: sum.splits)
  then show ?thesis by (auto simp: list_all_iff dest: waiting_no_lock)
qed

definition no_lock_since :: "trace \<Rightarrow> trace \<Rightarrow> bool" where
  "no_lock_since tr0 tr \<longleftrightarrow> (\<exists>es. tr = es @ tr0 \<and> list_all (\<lambda>e. \<not> lock_event e) es)"

lemma no_lock_since_refl [simp]: "no_lock_since tr tr"
  by (auto simp: no_lock_since_def intro!: exI [of _ "[]"])

lemma no_lock_since_Cons [simp]: "\<not> lock_event e \<Longrightarrow> no_lock_since tr0 tr \<Longrightarrow> no_lock_since tr0 (e # tr)"
  by (auto simp: no_lock_since_def intro: exI [of _ "e # _"])

lemma no_lock_since_trans: "no_lock_since a b \<Longrightarrow> no_lock_since b c \<Longrightarrow> no_lock_since a c"
  by (auto simp: no_lock_since_def)

lemma locks_once_since: "no_lock_since (Locked # tr) tr' \<Longrightarrow> locks_once tr (Unlocked # tr')"
  by (auto simp: no_lock_since_def locks_once_def)

lemma poll_event_no_lock: "poll_event e \<Longrightarrow> \<not> lock_event e"
  by (cases e) simp_all

interpretation dispatch_no_lock: fragment_handler "descriptor_onFragment S E" "\<lambda>_. no_lock_since tr0"
  for S E tr0
proof unfold_locales
  fix e s and tr :: trace
  assume "poll_event e" "no_lock_since tr0 tr"
  then show "no_lock_since tr0 (e # tr)" using poll_event_no_lock by simp
next
  fix s f r s' and tr tr' :: trace
  assume tr: "no_lock_since tr0 tr" and h: "descriptor_onFragment S E s f (Delivered f # tr) = (r, s', tr')"
  from h show "no_lock_since tr0 tr'"
    by (cases rule: descriptor_onFragment_cases) (use tr in simp_all)
qed

lemma descriptors_step_no_lock:
  assumes "descriptors_step S E timeoutNs correlationId recordCount s = Some y" and "no_lock_since tr0 (snd s)"
  shows "case y of Inl s' \<Rightarrow> no_lock_since tr0 (snd s') | Inr r \<Rightarrow> no_lock_since tr0 (snd (snd r))"
proof -
  obtain d existing deadline tr where s: "s = ((d, existing, deadline), tr)"
    by (metis prod.exhaust)
  obtain x d1 tr1 where poll: "descriptor_poll S E d tr = (x, d1, tr1)"
    by (metis prod.exhaust)
  have "no_lock_since tr0 tr1"
  proof (rule dispatch_no_lock.inv_controlledPoll)
    show "controlledPoll E (descriptor_onFragment S E) (dp_fragmentLimit d)
        (d\<lparr>dp_isDispatchComplete := False\<rparr>) tr = (x, d1, tr1)"
      using poll by (simp add: descriptor_poll_def)
  qed (use assms(2) s in simp)
  then show ?thesis
    using assms(1) by (auto simp: s descriptors_step_def poll call_defs Let_def split: sum.splits if_splits)
qed

lemma pollForDescriptors_no_lock:
  assumes "pollForDescriptors S E timeoutNs correlationId recordCount consumer d tr = Some (r, d', tr')"
  shows "no_lock_since tr tr'"
proof -
  have "loop (descriptors_step S E timeoutNs correlationId recordCount)
      ((descriptor_reset correlationId recordCount consumer d, recordCount, env_now E tr + timeoutNs),
       ClockRead (env_now E tr) # tr) = Some (r, d', tr')"
    using assms by (simp add: pollForDescriptors_def call_defs Let_def)
  then have "no_lock_since tr (snd (snd (r, d', tr')))"
    by (rule loop_invariant [where I = "\<lambda>s. no_lock_since tr (snd s)" and Q = "\<lambda>r. no_lock_since tr (snd (snd r))"])
      (auto dest: descriptors_step_no_lock)
  then show ?thesis by simp
qed

lemma sent_no_lock:
  assumes "sends_request S E req attempts (CorrelationIdDrawn corr # Locked # tr) sent tr2"
  shows "no_lock_since (Locked # tr) tr2"
proof -
  have "no_lock_since (CorrelationIdDrawn corr # Locked # tr) tr2"
    using sends_request_no_lock [OF assms] by (simp add: no_lock_since_def)
  then show ?thesis by (rule no_lock_since_trans [rotated]) simp
qed

context exchange begin

lemma exchange_locks:
  assumes "break_stops E" and "archive_ok a"
    and "callAndPollForResponse S E (send S E) name a tr = Some (res, a', tr')"
  shows "locks_once tr tr'"
proof -
  define corr where "corr = env_nextCorrelationId E (Locked # tr)"
  have "exchanged S E a req name tr res tr'"
    using exchange_outcome [OF assms] by blast
  then obtain sent tr2 where sends: "sends_request S E (req corr) (px_retryAttempts (aa_proxy a))
        (CorrelationIdDrawn corr # Locked # tr) sent tr2"
      and course: "case sent of
          Inl e \<Rightarrow> res = Inl e \<and> tr' = Unlocked # tr2
        | Inr False \<Rightarrow> res = Inl (ArchiveException (name @ '': failed to send'')) \<and> tr' = Unlocked # tr2
        | Inr True \<Rightarrow> \<exists>p tr3. tr' = Unlocked # tr3 \<and>
            answered S (env_now E tr2 + aa_messageTimeoutNs a)
              (response_decision S (aa_controlSessionId a) corr) (ClockRead (env_now E tr2) # tr2) (res, p, tr3)"
    unfolding exchanged_def Let_def corr_def [symmetric] by blast
  have tr2: "no_lock_since (Locked # tr) tr2" by (rule sent_no_lock [OF sends])
  show ?thesis
  proof (cases "sent = Inr True")
    case True
    then obtain p tr3 where tr': "tr' = Unlocked # tr3" and "answered S (env_now E tr2 + aa_messageTimeoutNs a)
        (response_decision S (aa_controlSessionId a) corr) (ClockRead (env_now E tr2) # tr2) (res, p, tr3)"
      using course by auto
    then have "no_lock_since (ClockRead (env_now E tr2) # tr2) tr3"
      using answered_no_lock by (simp add: no_lock_since_def)
    moreover have "no_lock_since (Locked # tr) (ClockRead (env_now E tr2) # tr2)" using tr2 by simp
    ultimately have "no_lock_since (Locked # tr) tr3" using no_lock_since_trans by blast
    then show ?thesis using tr' locks_once_since by simp
  next
    case False
    then have "tr' = Unlocked # tr2" using course by (auto split: sum.splits bool.splits)
    then show ?thesis using tr2 locks_once_since by simp
  qed
qed

lemma listing_locks:
  assumes "archive_ok a"
    and "callAndPollForDescriptors S E (send S E) recordCount consumer name a tr = Some (res, a', tr')"
  shows "locks_once tr tr'"
  using assms
proof (cases rule: listing_course)
  case (unsent corr sent tr2)
  then show ?thesis using sent_no_lock [OF unsent(1)] locks_once_since by simp
next
  case (sent corr tr2 d tr3)
  then show ?thesis
    using sent_no_lock [OF sent(1)] pollForDescriptors_no_lock [OF sent(2)] no_lock_since_trans locks_once_since
    by blast
qed

end


section \<open>Sessions\<close>

text \<open>
  What an application does with a connected client, one call of a public operation after the
  other; each call that returns, with a value or an exception, is a step.
\<close>

datatype client_action =
    Request operation
  | Listing listing nat
  | PollForErrorResponse
  | CheckForErrorResponse
  | Replay int64 int64 int64 string int32
  | AddRecorded bool string int32
  | StopRecordingOf publication

inductive client_step ::
  "sbe \<Rightarrow> env \<Rightarrow> layout \<Rightarrow> aeron_archive \<times> trace \<Rightarrow> client_action \<Rightarrow> aeron_archive \<times> trace \<Rightarrow> bool"
  for S E lay
where
  request: "perform S E o' a tr = Some (res, a', tr') \<Longrightarrow> client_step S E lay (a, tr) (Request o') (a', tr')"
| listing: "perform_listing S E l consumer a tr = Some (res32, a', tr') \<Longrightarrow>
    client_step S E lay (a, tr) (Listing l consumer) (a', tr')"
| poll: "archive_pollForErrorResponse S E a tr = (found, a', tr') \<Longrightarrow>
    client_step S E lay (a, tr) PollForErrorResponse (a', tr')"
| check: "archive_checkForErrorResponse S E a tr = (unit_res, a', tr') \<Longrightarrow>
    client_step S E lay (a, tr) CheckForErrorResponse (a', tr')"
| replay: "archive_replay S E lay rid pos len ch sid a tr = Some (sub, a', tr') \<Longrightarrow>
    client_step S E lay (a, tr) (Replay rid pos len ch sid) (a', tr')"
| recorded: "add_recorded S E lay exclusive ch sid a tr = Some (pub, a', tr') \<Longrightarrow>
    client_step S E lay (a, tr) (AddRecorded exclusive ch sid) (a', tr')"
| stop: "archive_stopRecording_publication S E lay p a tr = Some (unit_res, a', tr') \<Longrightarrow>
    client_step S E lay (a, tr) (StopRecordingOf p) (a', tr')"

inductive session_run ::
  "sbe \<Rightarrow> env \<Rightarrow> layout \<Rightarrow> aeron_archive \<times> trace \<Rightarrow> client_action list \<Rightarrow> aeron_archive \<times> trace \<Rightarrow> bool"
  for S E lay s0
where
  start: "session_run S E lay s0 [] s0"
| step: "session_run S E lay s0 acts s \<Longrightarrow> client_step S E lay s act s' \<Longrightarrow>
    session_run S E lay s0 (acts @ [act]) s'"

inductive_cases client_stepE: "client_step S E lay s act s'"
inductive_simps session_run_Nil: "session_run S E lay s0 [] s"

lemma add_and_find_tidy:
  assumes "add_and_find E res channel streamId tr = Some (x, tr')"
  shows "tidy tr tr'"
proof -
  have "tidy tr (snd (y, tr'))" if "loop (find_step E res regId) (Added res channel streamId # tr) = Some (y, tr')"
      for regId and y :: "unit result"
    using that
    by (rule loop_invariant [where I = "tidy tr" and Q = "\<lambda>r. tidy tr (snd r)"])
      (auto simp: find_step_def call_defs split: sum.splits if_splits)
  then show ?thesis
    using assms by (auto simp: add_and_find_def call_defs split: sum.splits option.splits)
qed

lemma perform_locks:
  assumes "break_stops E" and "archive_ok a" and "perform S E o' a tr = Some (res, a', tr')"
  shows "tidy tr tr' \<and> same_client a a'"
proof -
  obtain r where "callAndPollForResponse S E (operation_sender o' (aa_controlSessionId a) S E)
      (operation_name o') a tr = Some (r, a', tr')"
    using assms(3) by (auto simp: perform_exchange answers_def split: option.splits)
  from operation_exchange.exchange_locks [OF assms(1,2) this] operation_exchange.exchange_outcome [OF assms(1,2) this]
  show ?thesis using locks_once_tidy by blast
qed

lemma perform_listing_locks:
  assumes "break_stops E" and "archive_ok a" and "perform_listing S E l consumer a tr = Some (res, a', tr')"
  shows "tidy tr tr' \<and> same_client a a'"
proof -
  obtain r where "callAndPollForDescriptors S E (listing_sender l (aa_controlSessionId a) S E)
      (listing_count l) consumer (listing_name l) a tr = Some (r, a', tr')"
    using assms(3) by (auto simp: perform_listing_exchange narrow_value_def split: option.splits)
  from listing_exchange.listing_locks [OF assms(2) this] listing_exchange.listing_outcome [OF assms(1,2) this]
  show ?thesis using locks_once_tidy by blast
qed

text \<open>Methods that make the call of one operation.\<close>

lemma startRecording_locks:
  assumes "break_stops E" and "archive_ok a" and "archive_startRecording S E ch sid loc a tr = Some (r, a', tr')"
  shows "tidy tr tr' \<and> same_client a a'"
  by (rule perform_locks [OF assms(1,2), of S "StartRecording ch sid loc"]) (simp add: answers_def assms(3))

lemma stopRecording_locks:
  assumes "break_stops E" and "archive_ok a" and "archive_stopRecording S E ch sid a tr = Some (r, a', tr')"
  shows "tidy tr tr' \<and> same_client a a'"
  by (rule perform_locks [OF assms(1,2), of S "StopRecording ch sid"]) (simp add: answers_def assms(3))

lemma startReplay_locks:
  assumes "break_stops E" and "archive_ok a" and "archive_startReplay S E rid pos len ch sid a tr = Some (r, a', tr')"
  shows "tidy tr tr' \<and> same_client a a'"
  by (rule perform_locks [OF assms(1,2), of S "StartReplay rid pos len ch sid"]) (simp add: answers_def assms(3))

lemma error_poll_locks:
  assumes "response_poll S E (aa_responsePoller a) (Locked # tr) = (x, p, tr1)"
  shows "tidy tr (Unlocked # tr1) \<and> same_client a (a\<lparr>aa_responsePoller := p\<rparr>)"
proof -
  obtain es where "tr1 = es @ Locked # tr" "list_all poll_event es"
    using response_poll_quiet [OF assms] by (auto simp: only_polled_def)
  then have "locks_once tr (Unlocked # tr1)"
    by (auto simp: locks_once_def list_all_iff dest: poll_event_no_lock)
  then show ?thesis
    using locks_once_tidy response_poll_quiet [OF assms] by (simp add: same_client_def)
qed

lemma replay_locks:
  assumes "break_stops E" and "archive_ok a" and "archive_replay S E lay rid pos len ch sid a tr = Some (r, a', tr')"
  shows "tidy tr tr' \<and> same_client a a'"
proof -
  obtain x tr1 where start: "archive_startReplay S E rid pos len ch sid a tr = Some (x, a', tr1)"
    using assms(3) by (auto simp: archive_replay_def split: option.splits sum.splits)
  have "tidy tr1 tr'"
    using assms(3) start add_and_find_tidy
    by (auto simp: archive_replay_def split: option.splits sum.splits)
  then show ?thesis using startReplay_locks [OF assms(1,2) start] tidy_trans by blast
qed

lemma add_recorded_locks:
  assumes "break_stops E" and "archive_ok a" and "add_recorded S E lay exclusive ch sid a tr = Some (r, a', tr')"
  shows "tidy tr tr' \<and> same_client a a'"
proof -
  obtain x tr1 where add: "add_and_find E (if exclusive then ExclusivePub else Pub) ch sid tr = Some (x, tr1)"
    using assms(3)
    by (auto simp: add_recorded_def archive_addRecordedPublication_def archive_addRecordedExclusivePublication_def
        split: option.splits sum.splits if_splits)
  have "tidy tr1 tr' \<and> same_client a a'"
    using assms(3) add startRecording_locks [OF assms(1,2)]
    by (cases exclusive)
      (auto simp: add_recorded_def archive_addRecordedPublication_def archive_addRecordedExclusivePublication_def
        split: option.splits sum.splits if_splits)
  then show ?thesis using add_and_find_tidy [OF add] tidy_trans by blast
qed

lemma client_step_keeps:
  assumes "break_stops E" and "client_step S E lay (a, tr) act (a', tr')" and "archive_ok a"
  shows "tidy tr tr' \<and> same_client a a'"
  using assms(2)
proof cases
  case (poll found)
  then show ?thesis
    using error_poll_locks by (auto simp: archive_pollForErrorResponse_def split: prod.splits sum.splits)
next
  case (check unit_res)
  then show ?thesis
    using error_poll_locks by (auto simp: archive_checkForErrorResponse_def split: prod.splits sum.splits)
next
  case (stop p unit_res)
  then show ?thesis
    using stopRecording_locks [OF assms(1,3)]
    by (auto simp: archive_stopRecording_publication_def split: sum.splits)
next
  case (request o' res)
  then show ?thesis using perform_locks [OF assms(1,3)] by simp
next
  case (listing l consumer res32)
  then show ?thesis using perform_listing_locks [OF assms(1,3)] by simp
next
  case (replay rid pos len ch sid sub)
  then show ?thesis using replay_locks [OF assms(1,3)] by simp
next
  case (recorded exclusive ch sid pub)
  then show ?thesis using add_recorded_locks [OF assms(1,3)] by simp
qed

lemma session_run_keeps:
  assumes "break_stops E" and "archive_ok (fst s0)" and "session_run S E lay s0 acts s"
  shows "archive_ok (fst s) \<and> same_client (fst s0) (fst s) \<and> tidy (snd s0) (snd s)"
  using assms(3)
proof (induction rule: session_run.induct)
  case start
  then show ?case using assms(2) by simp
next
  case (step acts s act s')
  have "tidy (snd s) (snd s') \<and> same_client (fst s) (fst s')"
    using client_step_keeps [OF assms(1), of S lay "fst s" "snd s" act "fst s'" "snd s'"] step by simp
  then show ?case
    using step.IH same_client_ok same_client_trans tidy_trans by blast
qed

section \<open>Correctness\<close>

text \<open>
  C5: In a session the lock is kept. Whatever calls of public operations an application makes on a
  connected client, one after the other, and however they end, with a value or an exception:
  the lock is never taken twice nor released when it is free, and is free after each call; every
  correlation id is drawn, every request offered, every poll of the response subscription made
  and every consumer called while it is held; and the client stays usable, with the same
  context, session and limits.
\<close>

theorem sessions_keep_the_lock:
  assumes "break_stops E" and "archive_ok a0" and "session_run S E lay (a0, tr0) acts (a, tr)"
  shows "archive_ok a \<and> same_client a0 a \<and>
     (\<exists>es. tr = es @ tr0 \<and> lock_held es = Some False \<and> guarded es)"
  using session_run_keeps [OF assms(1) _ assms(3)] assms(2) by (simp add: tidy_def)

lemma sessions_keep_the_lock_witness:
  "\<exists>a es. session_run sample_sbe (sample_env (Some sample_error_message)) (\<lambda>_ _ _. 0) (sample_archive, [])
       [Request (GetRecordingPosition 3), CheckForErrorResponse] (a, es) \<and>
     archive_ok a \<and> lock_held es = Some False \<and> guarded es"
proof -
  let ?E = "sample_env (Some sample_error_message)"
  let ?run = "session_run sample_sbe ?E (\<lambda>_ _ _. 0) (sample_archive, [])"
  obtain a1 tr1 where "perform sample_sbe ?E (GetRecordingPosition 3) sample_archive [] =
      Some (Inl (ArchiveException ''response for correlation id: 7, error: no, relevant id: 2''), a1, tr1)"
    using sample_exchange [of "GetRecordingPosition 3", OF _ sample_error_decides] sample_wrap_position
    by auto
  then have "client_step sample_sbe ?E (\<lambda>_ _ _. 0) (sample_archive, []) (Request (GetRecordingPosition 3)) (a1, tr1)"
    by (rule client_step.request)
  then have "?run ([] @ [Request (GetRecordingPosition 3)]) (a1, tr1)"
    by (rule session_run.step [OF session_run.start])
  moreover obtain x a2 tr2 where "archive_checkForErrorResponse sample_sbe ?E a1 tr1 = (x, a2, tr2)"
    by (metis prod.exhaust)
  then have "client_step sample_sbe ?E (\<lambda>_ _ _. 0) (a1, tr1) CheckForErrorResponse (a2, tr2)"
    by (rule client_step.check)
  ultimately have "?run (([] @ [Request (GetRecordingPosition 3)]) @ [CheckForErrorResponse]) (a2, tr2)"
    by (rule session_run.step)
  then have run: "?run [Request (GetRecordingPosition 3), CheckForErrorResponse] (a2, tr2)" by simp
  then show ?thesis
    using sessions_keep_the_lock [OF sample_break_stops sample_archive_ok run] by auto
qed

end
