(* ===== verification/SamplesUtil.thy ===== *)
theory SamplesUtil
  imports ArchiveSessions
begin

text \<open>
  The searches that the sample programs share (\<^verbatim>\<open>samples/SamplesUtil.cpp\<close>, \<^verbatim>\<open>.h\<close>): clients of the listing
  operations, whose consumers remember the last recording. What they print is not modelled.
\<close>

section \<open>The model\<close>

record recording_data =
  rdt_recordingId :: int64
  rdt_stopPosition :: int64
  rdt_initialTermId :: int32
  rdt_termBufferLength :: int64

text \<open>
  The consumers are closures over local variables. They cannot throw; what they have assigned by
  the end is found by running their body over the calls that the history records, oldest first.
\<close>

definition since :: "trace \<Rightarrow> trace \<Rightarrow> trace" where
  "since tr tr' = take (length tr' - length tr) tr'"

definition consumed :: "trace \<Rightarrow> trace \<Rightarrow> descriptor_body list" where
  "consumed tr tr' = map (\<lambda>(_, _, _, body). body) (consumptions (since tr tr'))"

definition data_consumer :: "descriptor_body \<Rightarrow> recording_data \<Rightarrow> recording_data" where
  "data_consumer body result =
     result\<lparr>rdt_recordingId := d_recordingId body, rdt_stopPosition := d_stopPosition body,
       rdt_initialTermId := d_initialTermId body, rdt_termBufferLength := scast (d_termBufferLength body)\<rparr>"

definition getLatestRecordingData ::
  "sbe \<Rightarrow> env \<Rightarrow> nat \<Rightarrow> recording_data \<Rightarrow> string \<Rightarrow> int32 \<Rightarrow>
     aeron_archive \<Rightarrow> trace \<Rightarrow> (recording_data result \<times> aeron_archive \<times> trace) option" where
  "getLatestRecordingData S E consumer memory channel streamId a tr =
     (let result = memory\<lparr>rdt_recordingId := - 1\<rparr>
      in case archive_listRecordingsForUri S E 0 100 channel streamId consumer a tr of
           None \<Rightarrow> None
         | Some (Inl e, a1, tr1) \<Rightarrow> Some (Inl e, a1, tr1)
         | Some (Inr _, a1, tr1) \<Rightarrow> Some (Inr (foldr data_consumer (consumed tr tr1) result), a1, tr1))"

definition id_consumer :: "descriptor_body \<Rightarrow> int64 \<Rightarrow> int64" where
  "id_consumer body lastRecordingId = d_recordingId body"

definition findLatestRecordingId ::
  "sbe \<Rightarrow> env \<Rightarrow> nat \<Rightarrow> string \<Rightarrow> int32 \<Rightarrow>
     aeron_archive \<Rightarrow> trace \<Rightarrow> (int64 result \<times> aeron_archive \<times> trace) option" where
  "findLatestRecordingId S E consumer channel streamId a tr =
     (case archive_listRecordingsForUri S E 0 100 channel streamId consumer a tr of
        None \<Rightarrow> None
      | Some (Inl e, a1, tr1) \<Rightarrow> Some (Inl e, a1, tr1)
      | Some (Inr _, a1, tr1) \<Rightarrow> Some (Inr (foldr id_consumer (consumed tr tr1) (- 1)), a1, tr1))"

definition findAllRecordingIds ::
  "sbe \<Rightarrow> env \<Rightarrow> nat \<Rightarrow> aeron_archive \<Rightarrow> trace \<Rightarrow> (unit result \<times> aeron_archive \<times> trace) option" where
  "findAllRecordingIds S E consumer a tr = drop_value (archive_listRecordings S E 0 100 consumer a tr)"

section \<open>The last descriptor counts\<close>

lemma foldr_data:
  "foldr data_consumer bodies result =
     (case bodies of [] \<Rightarrow> result | body # _ \<Rightarrow> data_consumer body result)"
  by (induction bodies) (auto simp: data_consumer_def split: list.splits)

lemma foldr_id: "foldr id_consumer bodies i = (case bodies of [] \<Rightarrow> i | body # _ \<Rightarrow> d_recordingId body)"
  by (cases bodies) (simp_all add: id_consumer_def)

lemma since_append [simp]: "since tr (es @ tr) = es"
  by (simp add: since_def)


text \<open>The documented behaviour of a consumer that only assigns to variables: it returns.\<close>

definition consumer_returns :: "env \<Rightarrow> nat \<Rightarrow> bool" where
  "consumer_returns E c \<longleftrightarrow> (\<forall>cs corr body tr. env_callback E (Called (Consumer c cs corr body) # tr) = None)"

lemma returned_calls_all:
  assumes "consumer_returns E c" and "\<forall>x \<in> set (consumptions es). fst x = c"
  shows "returned_calls E (es @ tr) = returned_calls E tr + length (consumptions es)"
  using assms(2)
proof (induction es)
  case (Cons e es)
  show ?case
  proof (cases "consumption e")
    case (Some x)
    then obtain cs corr body where "e = Called (Consumer c cs corr body)"
      using Cons.prems by (cases e rule: consumption.cases) auto
    then show ?thesis using Cons assms(1) by (simp add: consumer_returns_def)
  qed (use Cons in simp)
qed simp

lemma sending_deliveries: "list_all sending_event es \<Longrightarrow> deliveries es = []"
  by (induction es) (auto elim!: sending_event.elims)

lemma sending_consumptions: "list_all sending_event es \<Longrightarrow> consumptions es = []"
  by (induction es) (auto elim!: sending_event.elims)

lemma listing_since:
  assumes "break_stops E" and "archive_ok a" and "perform_listing S E l c a tr = Some (Inr n, a', tr')"
    and "consumer_returns E c" and "0 < unat (listing_count l)"
  shows "same_client a a' \<and>
     (let found = List.map_filter (descriptor_for S (aa_controlSessionId a) (env_nextCorrelationId E (Locked # tr)))
            (deliveries (since tr tr'))
      in consumed tr tr' = found \<and> length found \<le> unat (listing_count l) \<and> n = word_of_nat (length found) \<and>
         (n = listing_count l \<or>
          (\<exists>f \<in> set (deliveries (since tr tr')).
             recording_unknown S (aa_controlSessionId a) (env_nextCorrelationId E (Locked # tr)) f)))"
proof -
  define corr where "corr = env_nextCorrelationId E (Locked # tr)"
  let ?cs = "aa_controlSessionId a"
  obtain bytes offered offers es k where same: "same_client a a'"
    and tr': "tr' = Unlocked # es @ Offered bytes offered # offers @ CorrelationIdDrawn corr # Locked # tr"
    and cons: "consumptions es = map (\<lambda>body. (c, ?cs, corr, body)) (List.map_filter (descriptor_for S ?cs corr) (deliveries es))"
    and k: "returned_calls E tr' = returned_calls E tr + k" "k \<le> length (consumptions es)" "n = word_of_nat k"
      "listing_count l \<noteq> 0 \<longrightarrow> k \<le> unat (listing_count l)"
    and sending: "list_all sending_event offers"
    and why: "n = listing_count l \<or> (\<exists>f \<in> set (deliveries es). recording_unknown S ?cs corr f)"
    using listing_answered [OF assms(1-3)] unfolding Let_def corr_def [symmetric] by blast
  have quiet: "deliveries offers = []" "consumptions offers = []"
    using sending_deliveries [OF sending] sending_consumptions [OF sending] by auto
  have since: "since tr tr' = Unlocked # es @ Offered bytes offered # offers @ [CorrelationIdDrawn corr, Locked]"
    using since_append [of tr "Unlocked # es @ Offered bytes offered # offers @ [CorrelationIdDrawn corr, Locked]"]
    by (simp add: tr')
  have "returned_calls E ((Unlocked # es @ Offered bytes offered # offers @ [CorrelationIdDrawn corr, Locked]) @ tr) =
      returned_calls E tr + length (consumptions es)"
    using returned_calls_all [OF assms(4), of "Unlocked # es @ Offered bytes offered # offers @ [CorrelationIdDrawn corr, Locked]"]
    by (simp add: quiet cons)
  then have k': "k = length (consumptions es)" using k(1) by (simp add: tr')
  have "listing_count l \<noteq> 0" using assms(5) by auto
  then show ?thesis
    using same why k k' unfolding Let_def corr_def [symmetric] consumed_def since
    by (simp add: quiet cons comp_def)
qed

lemma findLatest_keeps:
  assumes "break_stops E" and "archive_ok a" and "findLatestRecordingId S E c channel streamId a tr = Some (r, a', tr')"
  shows "tidy tr tr' \<and> same_client a a'"
proof -
  obtain x where "perform_listing S E (ListRecordingsForUri 0 100 channel streamId) c a tr = Some (x, a', tr')"
    using assms(3) by (auto simp: findLatestRecordingId_def split: option.splits sum.splits)
  then show ?thesis by (rule perform_listing_locks [OF assms(1,2)])
qed

section \<open>A sample search\<close>

text \<open>An archive that knows one recording: a descriptor first, then the answer that there are no more.\<close>

definition sample_unknown_message :: fragment where
  "sample_unknown_message = \<lparr>buffer = [1, 5, 7, 0, 2], offset = 0\<rparr>"

definition one_recording_env :: env where
  "one_recording_env = (sample_env (Some sample_descriptor_message))
     \<lparr>env_nextFragment := (\<lambda>tr. case tr of
        PollStarted _ # _ \<Rightarrow>
          Some (if deliveries tr = [] then sample_descriptor_message else sample_unknown_message)
      | _ \<Rightarrow> None)\<rparr>"

lemma one_recording_break_stops: "break_stops one_recording_env"
  by (simp add: break_stops_def one_recording_env_def)

lemma one_recording_consumer: "consumer_returns one_recording_env c"
  by (simp add: consumer_returns_def one_recording_env_def sample_env_def)

definition listing_poller :: "int32 \<Rightarrow> bool \<Rightarrow> recording_descriptor_poller" where
  "listing_poller n b = sample_descriptor_poller\<lparr>dp_correlationId := 7, dp_consumer := 2,
     dp_remainingRecordCount := n, dp_isDispatchComplete := b\<rparr>"

lemma sample_first_poll:
  assumes "deliveries tr = []"
  shows "descriptor_poll sample_sbe one_recording_env (listing_poller 100 b) tr =
     (Inr 1, listing_poller 99 False,
      Polled 1 # Answered CONTINUE # Called (Consumer 2 5 7 (sample_descriptor 3)) #
        Delivered sample_descriptor_message # PollStarted 10 # tr)"
proof -
  have "descriptor_onFragment sample_sbe one_recording_env (listing_poller 100 False) sample_descriptor_message tr1 =
      (Inr CONTINUE, listing_poller 99 False, Called (Consumer 2 5 7 (sample_descriptor 3)) # tr1)" for tr1
    by (simp add: descriptor_onFragment_def listing_poller_def sample_descriptor_poller_def one_recording_env_def
        sample_descriptor_message_def call_defs Let_def sample_defs)
  moreover have "env_nextFragment one_recording_env (PollStarted 10 # tr) = Some sample_descriptor_message"
      "env_nextFragment one_recording_env (Answered act # tr1) = None"
      "env_pollResult one_recording_env (Answered act # tr1) = 1" for act tr1
    using assms by (simp_all add: one_recording_env_def sample_env_def)
  moreover have "nat (sint (10 :: int32)) = Suc (Suc 8)" by simp
  moreover have "dp_fragmentLimit (listing_poller 100 b) = 10"
      "listing_poller 100 b\<lparr>dp_isDispatchComplete := False\<rparr> = listing_poller 100 False"
    by (simp_all add: listing_poller_def sample_descriptor_poller_def)
  ultimately show ?thesis
    unfolding descriptor_poll_def controlledPoll_def
    by (simp only: poll_rounds.simps) (simp add: poll_end_def Let_def)
qed

lemma sample_second_poll:
  assumes "deliveries tr \<noteq> []"
  shows "\<exists>n tr1. descriptor_poll sample_sbe one_recording_env (listing_poller 99 b) tr =
     (Inr n, listing_poller 99 True, tr1)"
proof -
  have "descriptor_onFragment sample_sbe one_recording_env (listing_poller 99 False) sample_unknown_message tr1 =
      (Inr BREAK, listing_poller 99 True, tr1)" for tr1
    by (simp add: descriptor_onFragment_def listing_poller_def sample_descriptor_poller_def
        sample_unknown_message_def call_defs Let_def sample_defs)
  moreover have "env_nextFragment one_recording_env (PollStarted 10 # tr) = Some sample_unknown_message"
    using assms by (simp add: one_recording_env_def)
  moreover have "nat (sint (10 :: int32)) = Suc 9" by simp
  moreover have "dp_fragmentLimit (listing_poller 99 b) = 10"
      "listing_poller 99 b\<lparr>dp_isDispatchComplete := False\<rparr> = listing_poller 99 False"
    by (simp_all add: listing_poller_def sample_descriptor_poller_def)
  ultimately show ?thesis
    unfolding descriptor_poll_def controlledPoll_def
    by (simp only: poll_rounds.simps)
      (simp add: poll_end_def Let_def poll_rounds_break [OF one_recording_break_stops])
qed

lemma sample_search:
  assumes "deliveries tr = []"
  shows "\<exists>d tr1. pollForDescriptors sample_sbe one_recording_env 100 7 100 2 sample_descriptor_poller tr =
     Some (Inr 1, d, tr1)"
proof -
  let ?step = "descriptors_step sample_sbe one_recording_env 100 7 100"
  let ?tr = "ClockRead (env_now one_recording_env tr) # tr"
  let ?tr2 = "Polled 1 # Answered CONTINUE # Called (Consumer 2 5 7 (sample_descriptor 3)) #
        Delivered sample_descriptor_message # PollStarted 10 # ?tr"
  have first: "?step ((listing_poller 100 False, 100, env_now one_recording_env tr + 100), ?tr) =
      Some (Inl ((listing_poller 99 False, 99, env_now one_recording_env ?tr2 + 100),
        Invoked # ClockRead (env_now one_recording_env ?tr2) # ?tr2))"
    using sample_first_poll [of ?tr False] assms
    by (simp add: descriptors_step_def call_defs Let_def) (simp add: listing_poller_def word_sless_alt)
  obtain n tr3 where "descriptor_poll sample_sbe one_recording_env (listing_poller 99 False)
      (Invoked # ClockRead (env_now one_recording_env ?tr2) # ?tr2) = (Inr n, listing_poller 99 True, tr3)"
    using sample_second_poll [of "Invoked # ClockRead (env_now one_recording_env ?tr2) # ?tr2" False]
    by auto
  then have second: "?step ((listing_poller 99 False, 99, env_now one_recording_env ?tr2 + 100),
        Invoked # ClockRead (env_now one_recording_env ?tr2) # ?tr2) =
      Some (Inr (Inr 1, listing_poller 99 True, tr3))"
    by (simp add: descriptors_step_def Let_def) (simp add: listing_poller_def)
  have "descriptor_reset 7 100 2 sample_descriptor_poller = listing_poller 100 False"
    by (simp add: descriptor_reset_def listing_poller_def)
  moreover have "loop ?step ((listing_poller 100 False, 100, env_now one_recording_env tr + 100), ?tr) =
      Some (Inr 1, listing_poller 99 True, tr3)"
    by (subst loop_unfold, subst first, simp, subst loop_unfold, subst second, simp)
  ultimately show ?thesis by (simp add: pollForDescriptors_def call_defs Let_def)
qed

lemma sample_listing_search:
  "\<exists>a' tr'. archive_listRecordingsForUri sample_sbe one_recording_env 0 100 ''aeron:ipc'' 10 2 roomy_archive [] =
     Some (Inr 1, a', tr')"
proof -
  let ?req = "ListRecordingsForUriRequest 5 7 0 100 10 ''aeron:ipc''"
  have "\<exists>len p. wrapAndApplyHeader sample_sbe ?req (sample_proxy\<lparr>px_buffer := replicate 100 0\<rparr>) = (Inr len, p)"
    by (simp add: wrapAndApplyHeader_def sample_defs)
  then obtain len p where wrap: "wrapAndApplyHeader sample_sbe ?req (sample_proxy\<lparr>px_buffer := replicate 100 0\<rparr>) =
      (Inr len, p)" by blast
  let ?tr = "[Offered (payload sample_sbe len p) 1, CorrelationIdDrawn 7, Locked]"
  have "env_offer one_recording_env tr bytes = 1" for tr bytes
    by (simp add: one_recording_env_def sample_env_def)
  then have "send_request sample_sbe one_recording_env ?req (sample_proxy\<lparr>px_buffer := replicate 100 0\<rparr>)
      [CorrelationIdDrawn 7, Locked] = (Inr True, p, ?tr)"
    using wrap by (simp add: send_request_def offer_def offer_loop.simps call_defs Let_def word_sless_alt)
  moreover obtain d tr1 where "pollForDescriptors sample_sbe one_recording_env 100 7 100 2 sample_descriptor_poller ?tr =
      Some (Inr 1, d, tr1)"
    using sample_search [of ?tr] by auto
  moreover have "env_nextCorrelationId one_recording_env [Locked] = 7"
    by (simp add: one_recording_env_def sample_env_def)
  ultimately show ?thesis
    by (simp add: archive_listRecordingsForUri_def narrow_value_def callAndPollForDescriptors_def request_defs
        call_defs Let_def roomy_archive_def sample_archive_def)
qed

section \<open>Correctness\<close>

text \<open>
  C23: The latest recording is the last one listed. When \<^verbatim>\<open>getLatestRecordingData\<close> returns, at most
  100 descriptors for its request were delivered, 100 unless the archive answered that it
  knows no more; the data are those of the last one, or the id is -1 and the other fields were
  never assigned if there was none; and \<^verbatim>\<open>findLatestRecordingId\<close> in the same situation returns
  the same id. So of more than 100 matching recordings the result is the hundredth, not the
  latest.
\<close>

theorem latest_recording_is_the_last_listed:
  assumes "break_stops E" and "archive_ok a" and "consumer_returns E c"
    and "getLatestRecordingData S E c memory channel streamId a tr = Some (Inr result, a', tr')"
  shows "let cs = aa_controlSessionId a; corr = env_nextCorrelationId E (Locked # tr);
         found = List.map_filter (descriptor_for S cs corr) (deliveries (since tr tr'))
     in same_client a a' \<and> length found \<le> 100 \<and>
        (length found = 100 \<or> (\<exists>f \<in> set (deliveries (since tr tr')). recording_unknown S cs corr f)) \<and>
        findLatestRecordingId S E c channel streamId a tr = Some (Inr (rdt_recordingId result), a', tr') \<and>
        result =
          (case found of
             [] \<Rightarrow> memory\<lparr>rdt_recordingId := - 1\<rparr>
           | body # _ \<Rightarrow> memory\<lparr>rdt_recordingId := d_recordingId body, rdt_stopPosition := d_stopPosition body,
               rdt_initialTermId := d_initialTermId body, rdt_termBufferLength := scast (d_termBufferLength body)\<rparr>)"
proof -
  obtain n where list: "archive_listRecordingsForUri S E 0 100 channel streamId c a tr = Some (Inr n, a', tr')"
    and result: "result = foldr data_consumer (consumed tr tr') (memory\<lparr>rdt_recordingId := - 1\<rparr>)"
    using assms(4) by (auto simp: getLatestRecordingData_def Let_def split: option.splits sum.splits)
  have "perform_listing S E (ListRecordingsForUri 0 100 channel streamId) c a tr = Some (Inr n, a', tr')"
    using list by simp
  note since = listing_since [OF assms(1,2) this assms(3)]
  define found where "found = List.map_filter (descriptor_for S (aa_controlSessionId a)
    (env_nextCorrelationId E (Locked # tr))) (deliveries (since tr tr'))"
  have found: "consumed tr tr' = found" "length found \<le> 100" "n = word_of_nat (length found)"
    using since by (simp_all add: Let_def found_def)
  then have "unat n = length found" by (simp add: unat_of_nat)
  then have "n = 100 \<Longrightarrow> length found = 100" by simp
  then show ?thesis
    using since result list found(1,2) unfolding Let_def found_def [symmetric]
    by (auto simp: findLatestRecordingId_def foldr_data foldr_id data_consumer_def split: list.split)
qed

lemma latest_recording_is_the_last_listed_witness:
  "\<exists>result a' tr'. getLatestRecordingData sample_sbe one_recording_env 2 \<lparr>rdt_recordingId = 0, rdt_stopPosition = 1,
       rdt_initialTermId = 2, rdt_termBufferLength = 3\<rparr> ''aeron:ipc'' 10 roomy_archive [] = Some (Inr result, a', tr') \<and>
     findLatestRecordingId sample_sbe one_recording_env 2 ''aeron:ipc'' 10 roomy_archive [] =
       Some (Inr (rdt_recordingId result), a', tr')"
proof -
  let ?m = "\<lparr>rdt_recordingId = 0, rdt_stopPosition = 1, rdt_initialTermId = 2, rdt_termBufferLength = 3\<rparr>"
  obtain result a' tr' where run: "getLatestRecordingData sample_sbe one_recording_env 2 ?m ''aeron:ipc'' 10
      roomy_archive [] = Some (Inr result, a', tr')"
    using sample_listing_search by (auto simp: getLatestRecordingData_def)
  show ?thesis
    using latest_recording_is_the_last_listed [OF one_recording_break_stops roomy_archive_ok
        one_recording_consumer run] run
    by (simp add: Let_def)
qed

end
