(* ===== verification/RecordingPos.thy ===== *)
theory RecordingPos
  imports Prelude
begin

text \<open>
  Finding the position counter of a recording (\<^verbatim>\<open>src/RecordingPos.cpp\<close>, \<^verbatim>\<open>.h\<close>). The counters of
  the media driver are the parameter \<open>counters\<close>: a snapshot of the states and of the metadata
  buffer, with the layout constants of the library.
\<close>

section \<open>The model\<close>

record counters =
  ct_maxCounterId :: int32
  ct_getCounterState :: "int32 \<Rightarrow> int32"
  ct_metadataOffset :: "int32 \<Rightarrow> int32"
  ct_getInt32 :: "int32 \<Rightarrow> int32"
  ct_getInt64 :: "int32 \<Rightarrow> int64"
  ct_RECORD_ALLOCATED :: int32
  ct_KEY_OFFSET :: int32

definition SIZE_OF_INT :: int32 where "SIZE_OF_INT = 4"
definition SIZE_OF_LONG :: int32 where "SIZE_OF_LONG = 8"
definition TYPE_ID_OFFSET :: int32 where "TYPE_ID_OFFSET = SIZE_OF_INT"
definition RECORDING_POSITION_TYPE_ID :: int32 where "RECORDING_POSITION_TYPE_ID = 100"
definition RECORDING_ID_OFFSET :: int32 where "RECORDING_ID_OFFSET = 0"
definition SESSION_ID_OFFSET :: int32 where "SESSION_ID_OFFSET = RECORDING_ID_OFFSET + SIZE_OF_LONG"
definition SOURCE_IDENTITY_LENGTH_OFFSET :: int32 where
  "SOURCE_IDENTITY_LENGTH_OFFSET = SESSION_ID_OFFSET + SIZE_OF_INT"
definition SOURCE_IDENTITY_OFFSET :: int32 where
  "SOURCE_IDENTITY_OFFSET = SOURCE_IDENTITY_LENGTH_OFFSET + SIZE_OF_INT"

text \<open>The loop \<^verbatim>\<open>for (i = 0; i < size; ++i)\<close> that returns the first index that passes the test.\<close>

fun first_counter :: "(int32 \<Rightarrow> bool) \<Rightarrow> nat \<Rightarrow> nat \<Rightarrow> int32" where
  "first_counter test i 0 = - 1"
| "first_counter test i (Suc n) =
     (if test (word_of_nat i) then word_of_nat i else first_counter test (Suc i) n)"

definition findCounterIdByRecording :: "counters \<Rightarrow> int64 \<Rightarrow> int32" where
  "findCounterIdByRecording C recordingId =
     first_counter (\<lambda>i.
         if ct_getCounterState C i = ct_RECORD_ALLOCATED C then
           (let recordOffset = ct_metadataOffset C i
            in ct_getInt32 C (recordOffset + TYPE_ID_OFFSET) = RECORDING_POSITION_TYPE_ID \<and>
               ct_getInt64 C (recordOffset + ct_KEY_OFFSET C + RECORDING_ID_OFFSET) = recordingId)
         else False)
       0 (nat (sint (ct_maxCounterId C)))"

definition findCounterIdBySession :: "counters \<Rightarrow> int32 \<Rightarrow> int32" where
  "findCounterIdBySession C sessionId =
     first_counter (\<lambda>i.
         if ct_getCounterState C i = ct_RECORD_ALLOCATED C then
           (let recordOffset = ct_metadataOffset C i
            in ct_getInt32 C (recordOffset + TYPE_ID_OFFSET) = RECORDING_POSITION_TYPE_ID \<and>
               ct_getInt32 C (recordOffset + ct_KEY_OFFSET C + SESSION_ID_OFFSET) = sessionId)
         else False)
       0 (nat (sint (ct_maxCounterId C)))"

definition getRecordingId :: "counters \<Rightarrow> int32 \<Rightarrow> int64" where
  "getRecordingId C counterId =
     (if ct_getCounterState C counterId = ct_RECORD_ALLOCATED C then
        (let recordOffset = ct_metadataOffset C counterId
         in if ct_getInt32 C (recordOffset + TYPE_ID_OFFSET) = RECORDING_POSITION_TYPE_ID
            then ct_getInt64 C (recordOffset + ct_KEY_OFFSET C + RECORDING_ID_OFFSET)
            else - 1)
      else - 1)"

definition isActive :: "counters \<Rightarrow> int32 \<Rightarrow> int64 \<Rightarrow> bool" where
  "isActive C counterId recordingId \<longleftrightarrow> getRecordingId C counterId = recordingId"

section \<open>The counters of recordings\<close>

text \<open>An allocated counter of the recording position type, with its two keys.\<close>

definition position_counter :: "counters \<Rightarrow> int32 \<Rightarrow> bool" where
  "position_counter C i \<longleftrightarrow>
     ct_getCounterState C i = ct_RECORD_ALLOCATED C \<and> ct_getInt32 C (ct_metadataOffset C i + 4) = 100"

definition recording_key :: "counters \<Rightarrow> int32 \<Rightarrow> int64" where
  "recording_key C i = ct_getInt64 C (ct_metadataOffset C i + ct_KEY_OFFSET C)"

definition session_key :: "counters \<Rightarrow> int32 \<Rightarrow> int32" where
  "session_key C i = ct_getInt32 C (ct_metadataOffset C i + ct_KEY_OFFSET C + 8)"

lemmas pos_constants = SIZE_OF_INT_def SIZE_OF_LONG_def TYPE_ID_OFFSET_def
  RECORDING_POSITION_TYPE_ID_def RECORDING_ID_OFFSET_def SESSION_ID_OFFSET_def

lemma first_counter_cong:
  "(\<And>i. test i = test' i) \<Longrightarrow> first_counter test = first_counter test'"
  by (metis ext)

lemma find_by_recording:
  "findCounterIdByRecording C rid =
     first_counter (\<lambda>i. position_counter C i \<and> recording_key C i = rid) 0 (nat (sint (ct_maxCounterId C)))"
  unfolding findCounterIdByRecording_def
  by (subst first_counter_cong [where test' = "\<lambda>i. position_counter C i \<and> recording_key C i = rid"])
    (auto simp: position_counter_def recording_key_def pos_constants Let_def)

lemma find_by_session:
  "findCounterIdBySession C sid =
     first_counter (\<lambda>i. position_counter C i \<and> session_key C i = sid) 0 (nat (sint (ct_maxCounterId C)))"
  unfolding findCounterIdBySession_def
  by (subst first_counter_cong [where test' = "\<lambda>i. position_counter C i \<and> session_key C i = sid"])
    (auto simp: position_counter_def session_key_def pos_constants Let_def)

lemma getRecordingId_key:
  "getRecordingId C i = (if position_counter C i then recording_key C i else - 1)"
  by (simp add: getRecordingId_def position_counter_def recording_key_def pos_constants Let_def)

text \<open>The index that is found is the least one that passes; \<open>- 1\<close> says that none does.\<close>

definition least_counter :: "(int32 \<Rightarrow> bool) \<Rightarrow> nat \<Rightarrow> int32 \<Rightarrow> bool" where
  "least_counter test n r \<longleftrightarrow>
     (if \<exists>i<n. test (word_of_nat i)
      then \<exists>i<n. r = word_of_nat i \<and> sint r = int i \<and> test r \<and> (\<forall>j<i. \<not> test (word_of_nat j))
      else r = - 1)"

lemma sint_of_small: "i < 2 ^ 31 \<Longrightarrow> sint (word_of_nat i :: int32) = int i"
  by (simp add: signed_of_nat signed_take_bit_int_eq_self)

lemma first_counter_least:
  assumes "i + n < 2 ^ 31" and "\<forall>j<i. \<not> test (word_of_nat j)"
  shows "least_counter test (i + n) (first_counter test i n)"
  using assms
proof (induction n arbitrary: i)
  case 0
  then show ?case by (auto simp: least_counter_def)
next
  case (Suc n)
  show ?case
  proof (cases "test (word_of_nat i)")
    case True
    then show ?thesis
      using Suc.prems sint_of_small [of i] by (auto simp: least_counter_def intro!: exI [of _ i])
  next
    case False
    then have "\<forall>j < Suc i. \<not> test (word_of_nat j)"
      using Suc.prems(2) by (auto simp: less_Suc_eq)
    then show ?thesis using Suc.IH [of "Suc i"] Suc.prems(1) False by simp
  qed
qed

lemma counters_bound: "nat (sint (ct_maxCounterId C)) < 2 ^ 31"
  using sint_lt [of "ct_maxCounterId C"] by simp

section \<open>Correctness\<close>

text \<open>
  C40: The search by recording finds the first counter below the maximum that is allocated, has the
  recording position type and carries the recording id, and gives \<open>- 1\<close> exactly when there
  is none; the same for the search by session id. The index is never cut off.
\<close>

theorem counter_search_correct:
  "least_counter (\<lambda>i. position_counter C i \<and> recording_key C i = rid) (nat (sint (ct_maxCounterId C)))
     (findCounterIdByRecording C rid) \<and>
   least_counter (\<lambda>i. position_counter C i \<and> session_key C i = sid) (nat (sint (ct_maxCounterId C)))
     (findCounterIdBySession C sid)"
  using first_counter_least [of 0 "nat (sint (ct_maxCounterId C))"] counters_bound [of C]
  by (simp add: find_by_recording find_by_session)

text \<open>
  A counter found for a recording is active for it: reading the recording id back gives the
  id that was searched, as long as the counters do not change in between.
\<close>

theorem found_counter_is_active:
  assumes "findCounterIdByRecording C rid \<noteq> - 1"
  shows "isActive C (findCounterIdByRecording C rid) rid"
proof -
  let ?test = "\<lambda>i. position_counter C i \<and> recording_key C i = rid"
  have "least_counter ?test (nat (sint (ct_maxCounterId C))) (findCounterIdByRecording C rid)"
    using first_counter_least [of 0 "nat (sint (ct_maxCounterId C))" ?test] counters_bound [of C]
    by (simp add: find_by_recording)
  then have "?test (findCounterIdByRecording C rid)"
    using assms by (auto simp: least_counter_def split: if_splits)
  then show ?thesis by (simp add: isActive_def getRecordingId_key)
qed

definition sample_counters :: counters where
  "sample_counters =
     \<lparr>ct_maxCounterId = 5, ct_getCounterState = (\<lambda>i. if i = 1 then 0 else 1),
      ct_metadataOffset = (\<lambda>i. i * 512),
      ct_getInt32 = (\<lambda>i. if i = 516 \<or> i = 1540 then 100 else 7),
      ct_getInt64 = (\<lambda>i. if i = 528 \<or> i = 1552 then 42 else 0),
      ct_RECORD_ALLOCATED = 1, ct_KEY_OFFSET = 16\<rparr>"

lemma found_counter_is_active_witness:
  "findCounterIdByRecording sample_counters 42 = 3 \<and> isActive sample_counters 3 42"
proof -
  have n: "nat (sint (ct_maxCounterId sample_counters)) = Suc (Suc (Suc (Suc (Suc 0))))"
    by (simp add: sample_counters_def)
  have found: "findCounterIdByRecording sample_counters 42 = 3"
    unfolding find_by_recording n
    by (simp add: position_counter_def recording_key_def sample_counters_def)
  then show ?thesis using found_counter_is_active [of sample_counters 42] by simp
qed

text \<open>
  The id \<open>- 1\<close> marks a counter that belongs to no recording, so \<^verbatim>\<open>isActive\<close> asked for \<open>- 1\<close>
  holds of every counter that is free, reclaimed or of another type; asked for any other id
  it holds exactly of the allocated position counters of that recording.
\<close>

theorem isActive_characterised:
  "isActive C i rid = (if position_counter C i then recording_key C i = rid else rid = - 1)"
  by (auto simp: isActive_def getRecordingId_key)

end
