(* ===== verification/SamplesEnv.thy ===== *)
theory SamplesEnv
  imports SamplesUtil RecordingPos
begin

text \<open>
  What the sample programs (\<^verbatim>\<open>samples/\<close>) share: the world they run in, which is that of the client and,
  beside it, the counters, the data publication and subscription, the flag that the interrupt
  handler clears, the environment variables and files; their beginning and their exit code. The
  options are those that the option parser of Boost leaves in the variables of \<^verbatim>\<open>main\<close>. What the
  programs print is not modelled.
\<close>

section \<open>The outside\<close>

record samples_env =
  se_env :: env
  se_sbe :: sbe
  se_lexical :: lexical
  se_getenv :: "string \<Rightarrow> string option"
  se_layout :: layout
  se_file :: "string \<Rightarrow> string option"
  se_memory :: aeron_archive
  se_running :: "trace \<Rightarrow> bool"
  se_counters :: "trace \<Rightarrow> counters"
  se_counterValue :: "trace \<Rightarrow> int32 \<Rightarrow> int64"
  se_position :: "trace \<Rightarrow> int64"
  se_offer :: "trace \<Rightarrow> byte list \<Rightarrow> int64 result"
  se_poll :: "trace \<Rightarrow> int32 result"
  se_pollEndOfStreams :: "trace \<Rightarrow> int32"

definition call_offerData :: "samples_env \<Rightarrow> byte list \<Rightarrow> trace \<Rightarrow> int64 result \<times> trace" where
  "call_offerData X bytes tr =
     (let r = se_offer X tr bytes
      in (r, (case r of Inl e \<Rightarrow> Raised e | Inr n \<Rightarrow> DataOffered bytes n) # tr))"

section \<open>What the programs share\<close>

text \<open>
  Each program reads the configuration, from the file that is named or from the environment, and
  connects; each ends with the exit code 1 after an exception.
\<close>

definition connect_configured :: "samples_env \<Rightarrow> string \<Rightarrow> trace \<Rightarrow> (aeron_archive result \<times> trace) option" where
  "connect_configured X configFile tr =
     (case bind_result
             (if configFile \<noteq> [] then Configuration_file (se_lexical X) configFile (se_file X configFile)
              else Configuration_env (se_lexical X) (se_getenv X))
             (mk_Context (se_layout X)) of
        Inl e \<Rightarrow> Some (Inl e, tr)
      | Inr ctx \<Rightarrow> archive_connect (se_sbe X) (se_env X) (se_memory X) ctx tr)"

definition exit_code :: "('a result \<times> trace) option \<Rightarrow> (nat \<times> trace) option" where
  "exit_code x = (case x of None \<Rightarrow> None | Some (r, tr) \<Rightarrow> Some (case r of Inl _ \<Rightarrow> 1 | Inr _ \<Rightarrow> 0, tr))"

lemma configured_ready:
  assumes "break_stops (se_env X)" and "connect_configured X file tr = Some (Inr a, tr')"
  shows "archive_ok a"
  using assms mk_AeronArchive_ready [OF assms(1)]
  by (auto simp: connect_configured_def archive_connect_def split: sum.splits)

end
