(* ===== verification/SampleServer.thy ===== *)
theory SampleServer
  imports SamplesEnv
begin

text \<open>
  A concrete archive, at which the theorems about whole programs are applied: it accepts every offer
  and answers each request that lists recordings with "unknown", and every other one with OK, by
  the type of the request that was offered last; after an offer of data it reports progress to the
  greatest position. Each event takes a millisecond. Nothing here models the repository's code.
\<close>

section \<open>The server\<close>

text \<open>The first byte of the newest offer: in the sample codec, the type of the request; 255 is for data.\<close>

fun last_request :: "trace \<Rightarrow> byte" where
  "last_request [] = 0"
| "last_request (Offered (b # _) _ # tr) = b"
| "last_request (DataOffered _ _ # _) = 255"
| "last_request (_ # tr) = last_request tr"

definition sample_progress_message :: fragment where
  "sample_progress_message = \<lparr>buffer = [102, 42, 0, 255], offset = 0\<rparr>"

definition server_reply :: "byte \<Rightarrow> fragment" where
  "server_reply tag = (if tag = type_tag T_ListRecordings \<or> tag = type_tag T_ListRecordingsForUri
     then sample_unknown_message else if tag = 255 then sample_progress_message else sample_response_message)"

definition server_env :: env where
  "server_env = (sample_env None)
     \<lparr>env_nextFragment := (\<lambda>tr. case tr of PollStarted _ # rest \<Rightarrow> Some (server_reply (last_request rest)) | _ \<Rightarrow> None),
      env_pollResult := (\<lambda>_. 1), env_now := (\<lambda>tr. word_of_nat (length tr) * 1000000), env_rethrows := (\<lambda>_. False)\<rparr>"

lemma server_fields [simp]:
  "env_offer server_env tr bytes = 1"
  "env_nextCorrelationId server_env tr = 7"
  "env_isConnected server_env tr"
  "env_add server_env tr res channel streamId = Inr 1"
  "env_find server_env tr res regId = Inr True"
  "env_connect server_env tr dir = Inr 0"
  "env_sessionId server_env pubId = 5"
  "env_isOriginal server_env pubId"
  "env_nextFragment server_env (PollStarted n # tr) = Some (server_reply (last_request tr))"
  "next_message server_env n tr = Some (server_reply (last_request tr))"
  "env_nextFragment server_env (Answered act # tr) = None"
  by (simp_all add: server_env_def sample_env_def next_message_def)

lemma server_break_stops: "break_stops server_env"
  by (simp add: break_stops_def)

lemma server_consumer: "consumer_returns server_env c"
  by (simp add: consumer_returns_def server_env_def sample_env_def)

lemma server_add_and_find:
  "add_and_find server_env res channel streamId tr = Some (Inr 1, Looked res 1 # Added res channel streamId # tr)"
  by (simp add: add_and_find_def loop_unfold find_step_def call_defs)

section \<open>Clients of the server\<close>

definition served :: "aeron_archive \<Rightarrow> bool" where
  "served a \<longleftrightarrow> archive_ok a \<and> aa_controlSessionId a = 5 \<and> 200 \<le> length (px_buffer (aa_proxy a)) \<and>
     dp_fragmentLimit (aa_descriptorPoller a) = 10"

lemma served_same:
  "same_client a b \<Longrightarrow> served a \<Longrightarrow> 200 \<le> length (px_buffer (aa_proxy b)) \<Longrightarrow> served b"
  using same_client_ok by (auto simp: served_def same_client_def)

definition fits :: "request \<Rightarrow> bool" where
  "fits req \<longleftrightarrow> length (body_bytes req) < 199 \<and> list_all (\<lambda>w. widen (narrow w) = w) (fst (wire req))"

lemma server_wrap:
  assumes "fits req" and "200 \<le> length (px_buffer p)"
  shows "\<exists>len p' bytes. wrapAndApplyHeader sample_sbe req p = (Inr len, p') \<and>
     payload sample_sbe len p' = type_tag (type_of_request req) # bytes \<and> length (px_buffer p') = length (px_buffer p)"
proof -
  have "ucast (ucast (type_tag t) :: uint16) = type_tag t" for t
    by (cases t) simp_all
  then show ?thesis
    using assms
    by (cases "px_buffer p")
      (auto simp: fits_def wrapAndApplyHeader_def payload_def sample_sbe_def sample_writeHeader_def sample_write_def
        put_bytes_def request_header_def)
qed

lemma server_sends:
  assumes "fits req" and "200 \<le> length (px_buffer p)"
  shows "\<exists>p' bytes. send_request sample_sbe server_env req p tr =
       (Inr True, p', Offered (type_tag (type_of_request req) # bytes) 1 # tr) \<and>
     length (px_buffer p') = length (px_buffer p)"
proof -
  obtain len p' bytes where w: "wrapAndApplyHeader sample_sbe req p = (Inr len, p')"
      "payload sample_sbe len p' = type_tag (type_of_request req) # bytes" "length (px_buffer p') = length (px_buffer p)"
    using server_wrap [OF assms] by blast
  then show ?thesis
    by (auto simp: send_request_def offer_def offer_loop.simps call_defs Let_def word_sless_alt)
qed

lemma server_performs:
  assumes "served a" and "fits (operation_request o' 5 7)"
    and "type_of_request (operation_request o' 5 7) \<notin> {T_ListRecordings, T_ListRecordingsForUri}"
  shows "\<exists>a' tr'. perform sample_sbe server_env o' a tr = Some (Inr (operation_answer o' 42), a', tr') \<and> served a'"
proof -
  let ?req = "operation_request o' 5 7"
  obtain p' bytes where sent: "send_request sample_sbe server_env ?req (aa_proxy a) (CorrelationIdDrawn 7 # Locked # tr) =
      (Inr True, p', Offered (type_tag (type_of_request ?req) # bytes) 1 # CorrelationIdDrawn 7 # Locked # tr)"
      "length (px_buffer p') = length (px_buffer (aa_proxy a))"
    using server_sends [OF assms(2)] assms(1) unfolding served_def by blast
  let ?tr = "Offered (type_tag (type_of_request ?req) # bytes) 1 # CorrelationIdDrawn 7 # Locked # tr"
  have "server_reply (type_tag (type_of_request ?req)) = sample_response_message"
    using assms(3) by (cases "type_of_request ?req") (simp_all add: server_reply_def)
  then have "next_message server_env n (ClockRead t # ?tr) = Some sample_response_message" for n t by simp
  then obtain q tr1 where poll: "pollForResponse sample_sbe server_env (aa_messageTimeoutNs a) 5 7 (aa_responsePoller a) ?tr =
      Some (Inr 42, q, tr1)"
    using pollForResponse_at_once [OF server_break_stops _ _ sample_decides] assms(1)
    unfolding served_def archive_ok_def by blast
  let ?a = "a\<lparr>aa_proxy := p', aa_responsePoller := q\<rparr>"
  have run: "perform sample_sbe server_env o' a tr = Some (Inr (operation_answer o' 42), ?a, Unlocked # tr1)"
    using assms(1) sent poll
    by (simp add: perform_exchange answers_def callAndPollForResponse_def operation_sender_def call_defs Let_def served_def)
  have "archive_ok a" using assms(1) by (simp add: served_def)
  from perform_outcome [OF server_break_stops this run] have "served ?a"
    using served_same assms(1) sent(2) by (auto simp: served_def)
  then show ?thesis using run by blast
qed

lemma server_polls_unknown:
  assumes "last_request tr = type_tag T_ListRecordings \<or> last_request tr = type_tag T_ListRecordingsForUri"
    and "dp_fragmentLimit d = 10" and "dp_controlSessionId d = 5" and "dp_correlationId d = 7"
  shows "\<exists>tr1. descriptor_poll sample_sbe server_env d tr = (Inr 1, d\<lparr>dp_isDispatchComplete := True\<rparr>, tr1)"
proof -
  have "descriptor_onFragment sample_sbe server_env (d\<lparr>dp_isDispatchComplete := False\<rparr>) sample_unknown_message tr1 =
      (Inr BREAK, d\<lparr>dp_isDispatchComplete := True\<rparr>, tr1)" for tr1
    using assms(3,4) by (simp add: descriptor_onFragment_def sample_unknown_message_def call_defs Let_def sample_defs)
  moreover have "server_reply (last_request tr) = sample_unknown_message"
    using assms(1) by (auto simp: server_reply_def)
  moreover have "nat (sint (10 :: int32)) = Suc 9" by simp
  moreover have "env_pollResult server_env tr1 = 1" for tr1 by (simp add: server_env_def)
  ultimately show ?thesis
    using assms(2) unfolding descriptor_poll_def controlledPoll_def
    by (simp only: poll_rounds.simps)
      (simp add: poll_end_def Let_def poll_rounds_break [OF server_break_stops])
qed

lemma server_lists:
  assumes "served a" and "fits (listing_request l 5 7)" and "\<forall>rid. l \<noteq> ListRecording rid"
  shows "\<exists>a' tr'. perform_listing sample_sbe server_env l c a tr = Some (Inr 0, a', tr') \<and> served a'"
proof -
  let ?req = "listing_request l 5 7"
  obtain p' bytes where sent: "send_request sample_sbe server_env ?req (aa_proxy a) (CorrelationIdDrawn 7 # Locked # tr) =
      (Inr True, p', Offered (type_tag (type_of_request ?req) # bytes) 1 # CorrelationIdDrawn 7 # Locked # tr)"
      "length (px_buffer p') = length (px_buffer (aa_proxy a))"
    using server_sends [OF assms(2)] assms(1) unfolding served_def by blast
  let ?tr = "Offered (type_tag (type_of_request ?req) # bytes) 1 # CorrelationIdDrawn 7 # Locked # tr"
  let ?d = "descriptor_reset 7 (listing_count l) c (aa_descriptorPoller a)"
  have "type_of_request ?req = T_ListRecordings \<or> type_of_request ?req = T_ListRecordingsForUri"
    using assms(3) by (cases l) auto
  then obtain tr1 where "descriptor_poll sample_sbe server_env ?d (ClockRead (env_now server_env ?tr) # ?tr) =
      (Inr 1, ?d\<lparr>dp_isDispatchComplete := True\<rparr>, tr1)"
    using server_polls_unknown [of "ClockRead (env_now server_env ?tr) # ?tr" ?d] assms(1)
    by (auto simp: served_def archive_ok_def descriptor_reset_def)
  from pollForDescriptors_at_once [OF this]
  have poll: "pollForDescriptors sample_sbe server_env (aa_messageTimeoutNs a) 7 (listing_count l) c
      (aa_descriptorPoller a) ?tr = Some (Inr 0, ?d\<lparr>dp_isDispatchComplete := True\<rparr>, tr1)"
    by (simp add: descriptor_reset_def)
  let ?a = "a\<lparr>aa_proxy := p', aa_descriptorPoller := ?d\<lparr>dp_isDispatchComplete := True\<rparr>\<rparr>"
  have run: "perform_listing sample_sbe server_env l c a tr = Some (Inr 0, ?a, Unlocked # tr1)"
    using assms(1) sent poll
    by (simp add: perform_listing_exchange narrow_value_def callAndPollForDescriptors_def listing_sender_def
        call_defs Let_def served_def)
  have "archive_ok a" using assms(1) by (simp add: served_def)
  from perform_listing_outcome [OF server_break_stops this run] have "served ?a"
    using served_same assms(1) sent(2) by (auto simp: served_def descriptor_reset_def)
  then show ?thesis using run by blast
qed

section \<open>Connecting to the server\<close>

lemma server_connects:
  assumes "fits (ConnectRequest 7 streamId channel)" and "200 \<le> length (px_buffer p)"
  shows "\<exists>p' bytes tr0. proxy_connect_with sample_sbe server_env invoker channel streamId 7 p tr =
       Some (Inr True, p', Offered (type_tag T_Connect # bytes) 1 # tr0) \<and>
     length (px_buffer p') = length (px_buffer p) \<and> px_retryAttempts p' = px_retryAttempts p"
proof -
  obtain len p' bytes where w: "wrapAndApplyHeader sample_sbe (ConnectRequest 7 streamId channel) p = (Inr len, p')"
      "payload sample_sbe len p' = type_tag T_Connect # bytes" "length (px_buffer p') = length (px_buffer p)"
    using server_wrap [OF assms] by fastforce
  have "timeout_step server_env (type_tag T_Connect # bytes) deadline invoker tr1 =
      Some (Inr (Inr True, Offered (type_tag T_Connect # bytes) 1 # tr1))" for deadline tr1
    by (simp add: timeout_step_def call_defs Let_def word_sless_alt)
  then show ?thesis
    using w wrap_frame [OF w(1)]
    by (simp add: proxy_connect_with_def offerWithTimeout_def timeout_loop_def loop_unfold call_defs Let_def)
qed

lemma server_opens:
  assumes "fits (ConnectRequest 7 (get_controlResponseStreamId (aa_ctx a)) (get_controlResponseChannel (aa_ctx a)))"
    and "200 \<le> length (px_buffer (aa_proxy a))" and "0 <s cp_fragmentLimit (aa_responsePoller a)"
    and "- (2 ^ 31) < sint (px_retryAttempts (aa_proxy a))"
  shows "\<exists>a' tr'. open_session sample_sbe server_env a tr = Some (Inr (), a', tr') \<and> served a'"
proof -
  let ?channel = "get_controlResponseChannel (aa_ctx a)" and ?stream = "get_controlResponseStreamId (aa_ctx a)"
  obtain px bytes tr0 where px: "proxy_connect_with sample_sbe server_env True ?channel ?stream 7 (aa_proxy a)
        (CorrelationIdDrawn 7 # tr) = Some (Inr True, px, Offered (type_tag T_Connect # bytes) 1 # tr0)"
      "length (px_buffer px) = length (px_buffer (aa_proxy a))" "px_retryAttempts px = px_retryAttempts (aa_proxy a)"
    using server_connects [OF assms(1,2)] by blast
  let ?tr = "Offered (type_tag T_Connect # bytes) 1 # tr0"
  have dec: "session_decision sample_sbe 7 sample_response_message = Some (Inr 5)"
    by (simp add: session_decision_def decode_response_def read_response_def sample_response_message_def sample_defs)
  have "read_response sample_sbe sample_response_message =
      Inr (Some \<lparr>re_controlSessionId = 5, re_correlationId = 7, re_relevantId = 42, re_code = 0, re_errorMessage = []\<rparr>)"
    by (simp add: read_response_def sample_response_message_def sample_defs)
  moreover have "next_message server_env n (ConnectedRead True # ClockRead t # ?tr) = Some sample_response_message" for n t
    by (simp add: server_reply_def)
  ultimately obtain p1 tr1 where next': "pollNextResponse sample_sbe server_env 7 (env_now server_env ?tr + aa_messageTimeoutNs a)
        (aa_responsePoller a) (ConnectedRead True # ClockRead (env_now server_env ?tr) # ?tr) = Some (Inr (), p1, tr1)"
      "shows_message sample_sbe p1 sample_response_message" "cp_fragmentLimit p1 = cp_fragmentLimit (aa_responsePoller a)"
    using pollNextResponse_message [OF server_break_stops assms(3)] by blast
  then have "session_step sample_sbe server_env 7 (env_now server_env ?tr + aa_messageTimeoutNs a)
      (aa_responsePoller a, ConnectedRead True # ClockRead (env_now server_env ?tr) # ?tr) = Some (Inr (Inr 5, p1, tr1))"
    using session_loop.step_message [OF next'(1,2)] dec by simp
  then have "awaitSessionOpened sample_sbe server_env (aa_ctx a) (aa_messageTimeoutNs a) 7 (aa_responsePoller a) ?tr =
      Some (Inr 5, p1, tr1)"
    by (simp add: awaitSessionOpened_def awaitConnection_def connection_step_def call_defs Let_def loop_unfold)
  then show ?thesis
    using px next'(3) assms(2-4)
    by (simp add: open_session_def call_defs Let_def proxy_connect_invoking_def served_def archive_ok_def
        mk_RecordingDescriptorPoller_def FRAGMENT_LIMIT_def)
qed

lemma server_constructs:
  assumes "fits (ConnectRequest 7 (get_controlResponseStreamId ctx) (get_controlResponseChannel ctx))"
  shows "\<exists>a tr'. mk_AeronArchive sample_sbe server_env memory ctx tr = Some (Inr a, tr') \<and> served a"
proof -
  obtain x c tr1 where concl: "conclude server_env ctx tr = (x, c, tr1)" by (metis prod.exhaust)
  then have "x = Inr ()" and cfg: "ctx_cfg c = ctx_cfg ctx"
    by (auto simp: conclude_def call_defs Let_def split: option.splits)
  let ?a = "memory\<lparr>aa_ctx := c, aa_messageTimeoutNs := get_messageTimeoutNs ctx, aa_aeron := the (get_aeron c),
    aa_responsePoller := mk_ControlResponsePoller (aa_responsePoller memory) FRAGMENT_LIMIT,
    aa_proxy := mk_ArchiveProxy (get_messageTimeoutNs c) DEFAULT_RETRY_ATTEMPTS\<rparr>"
  have "fits (ConnectRequest 7 (get_controlResponseStreamId (aa_ctx ?a)) (get_controlResponseChannel (aa_ctx ?a)))"
    using assms cfg by (simp add: context_defs)
  moreover have "0 <s cp_fragmentLimit (aa_responsePoller ?a)" "200 \<le> length (px_buffer (aa_proxy ?a))"
      "- (2 ^ 31) < sint (px_retryAttempts (aa_proxy ?a))"
    by (simp_all add: mk_ControlResponsePoller_def FRAGMENT_LIMIT_def word_sless_alt mk_ArchiveProxy_def
        DEFAULT_RETRY_ATTEMPTS_def)
  ultimately obtain a tr' where "open_session sample_sbe server_env ?a
      (Looked ExclusivePub 1 # Added ExclusivePub (get_controlRequestChannel c) (get_controlRequestStreamId c) #
        Looked Sub 1 # Added Sub (get_controlResponseChannel c) (get_controlResponseStreamId c) # tr1) =
      Some (Inr (), a, tr')" "served a"
    using server_opens by blast
  then show ?thesis
    using concl \<open>x = Inr ()\<close> by (simp add: mk_AeronArchive_def server_add_and_find)
qed

section \<open>Programs in the world of the server\<close>

definition server_counters :: counters where
  "server_counters = sample_counters\<lparr>ct_getInt32 := (\<lambda>i. if i = 516 \<or> i = 1540 then 100 else 5)\<rparr>"

lemma server_counter: "findCounterIdBySession server_counters 5 = 3" "getRecordingId server_counters 3 = 42"
proof -
  have n: "nat (sint (ct_maxCounterId server_counters)) = Suc (Suc (Suc (Suc (Suc 0))))"
    by (simp add: server_counters_def sample_counters_def)
  show "findCounterIdBySession server_counters 5 = 3"
    unfolding find_by_session n
    by (simp add: position_counter_def session_key_def server_counters_def sample_counters_def)
  show "getRecordingId server_counters 3 = 42"
    by (simp add: getRecordingId_key position_counter_def recording_key_def server_counters_def sample_counters_def)
qed

definition server_world :: samples_env where
  "server_world =
     \<lparr>se_env = server_env, se_sbe = sample_sbe, se_lexical = decimal_casts, se_getenv = (\<lambda>_. None),
      se_layout = (\<lambda>_ _ _. 0), se_file = (\<lambda>_. None), se_memory = sample_archive,
      se_running = (\<lambda>_. True), se_counters = (\<lambda>_. server_counters), se_counterValue = (\<lambda>_ _. 0),
      se_position = (\<lambda>_. 0), se_offer = (\<lambda>_ _. Inr 1), se_poll = (\<lambda>_. Inr 0), se_pollEndOfStreams = (\<lambda>_. 1)\<rparr>"

lemma server_world_fields [simp]:
  "se_env server_world = server_env" "se_sbe server_world = sample_sbe" "se_running server_world tr"
  "se_counters server_world tr = server_counters" "se_counterValue server_world tr cid = 0"
  "se_position server_world tr = 0" "se_offer server_world tr bytes = Inr 1" "se_poll server_world tr = Inr 0"
  "se_pollEndOfStreams server_world tr = 1"
  by (simp_all add: server_world_def)

lemma server_configured:
  "\<exists>a tr'. connect_configured server_world [] tr = Some (Inr a, tr') \<and> served a"
proof -
  have "Configuration_env decimal_casts (\<lambda>_. None) = Inr default_configuration"
    by (simp add: Configuration_env_def getEnvVarOrDefault_def property_defs default_configuration_def)
  moreover have "\<exists>ctx. mk_Context (\<lambda>_ _ _. 0) default_configuration = Inr ctx \<and> ctx_cfg ctx = default_configuration"
  proof -
    have "grammar (controlChannel default_configuration) \<noteq> None"
      unfolding default_configuration_def by code_simp
    then obtain u where "parse (\<lambda>_ _ _. 0) (controlChannel default_configuration) = Inr u"
      using parse_by_grammar [where str = "controlChannel default_configuration" and lay = "\<lambda>_ _ _. 0"] by auto
    then show ?thesis by (simp add: mk_Context_def set_controlRequestChannel_def bind_result_def Let_def)
  qed
  then obtain ctx where ctx: "mk_Context (\<lambda>_ _ _. 0) default_configuration = Inr ctx" "ctx_cfg ctx = default_configuration"
    by blast
  have "fits (ConnectRequest 7 (get_controlResponseStreamId ctx) (get_controlResponseChannel ctx))"
    using ctx(2) by (simp add: context_defs default_configuration_def fits_def body_bytes_def widen_def narrow_def wide32_def)
  from server_constructs [OF this] ctx(1) show ?thesis
    using calculation by (simp add: connect_configured_def server_world_def archive_connect_def)
qed

end
