(* ===== verification/RecordedBasicPublisher.thy ===== *)
theory RecordedBasicPublisher
  imports SampleServer
begin

text \<open>
  The sample that publishes to a recorded stream (\<^verbatim>\<open>samples/RecordedBasicPublisher.cpp\<close>): the
  computation of the place where a recording stopped, the channel that continues it, and the
  program with its three waits.
\<close>

section \<open>Positions\<close>

text \<open>The \<^verbatim>\<open>switch\<close> over the lengths a term buffer can have.\<close>

definition positionBitsToShift :: "int32 \<Rightarrow> int32 result" where
  "positionBitsToShift termBufferLength =
     (if termBufferLength = 64 * 1024 then Inr 16
      else if termBufferLength = 128 * 1024 then Inr 17
      else if termBufferLength = 256 * 1024 then Inr 18
      else if termBufferLength = 512 * 1024 then Inr 19
      else if termBufferLength = 1024 * 1024 then Inr 20
      else if termBufferLength = 2 * 1024 * 1024 then Inr 21
      else if termBufferLength = 4 * 1024 * 1024 then Inr 22
      else if termBufferLength = 8 * 1024 * 1024 then Inr 23
      else if termBufferLength = 16 * 1024 * 1024 then Inr 24
      else if termBufferLength = 32 * 1024 * 1024 then Inr 25
      else if termBufferLength = 64 * 1024 * 1024 then Inr 26
      else if termBufferLength = 128 * 1024 * 1024 then Inr 27
      else if termBufferLength = 256 * 1024 * 1024 then Inr 28
      else if termBufferLength = 512 * 1024 * 1024 then Inr 29
      else if termBufferLength = 1024 * 1024 * 1024 then Inr 30
      else Inl (IllegalArgumentException (''Invalid term buffer length: '' @ to_string (sint termBufferLength))))"

definition computeTermIdFromPosition :: "int64 \<Rightarrow> int32 \<Rightarrow> int32 \<Rightarrow> int32" where
  "computeTermIdFromPosition position bitsToShift initialTermId =
     ucast (signed_drop_bit (unat bitsToShift) position) + initialTermId"

text \<open>The channel that continues the stream of a recording where it stopped.\<close>

unbundle bit_operations_syntax

definition term_offset :: "recording_data \<Rightarrow> int32" where
  "term_offset recording = ucast (rdt_stopPosition recording AND (rdt_termBufferLength recording - 1))"

definition extend_channel :: "string \<Rightarrow> recording_data \<Rightarrow> string result" where
  "extend_channel channel recording =
     bind_result (positionBitsToShift (ucast (rdt_termBufferLength recording))) (\<lambda>bitsToShift.
       Inr (channel @ ''|init-term-id='' @ to_string (sint (rdt_initialTermId recording)) @
            ''|term-length='' @ to_string (sint (rdt_termBufferLength recording)) @
            ''|term-id='' @ to_string (sint (computeTermIdFromPosition (rdt_stopPosition recording) bitsToShift
                                        (rdt_initialTermId recording))) @
            ''|term-offset='' @ to_string (sint (term_offset recording)) @ ''|mtu=1408''))"

section \<open>Publishing\<close>

text \<open>Waiting for the counter of the recording; \<open>None\<close> when the program is interrupted.\<close>

definition counter_step ::
  "samples_env \<Rightarrow> int32 \<Rightarrow> int32 \<times> trace \<Rightarrow> (int32 \<times> trace + int32 option \<times> trace) option" where
  "counter_step X sessionId = (\<lambda>(counterId, tr).
     Some (if counterId = - 1 then
             (if \<not> se_running X tr then Inr (None, tr)
              else
                (let tr1 = call_yield tr
                 in Inl (findCounterIdBySession (se_counters X tr1) sessionId, tr1)))
           else Inr (Some counterId, tr)))"

definition await_counter :: "samples_env \<Rightarrow> int32 \<Rightarrow> trace \<Rightarrow> (int32 option \<times> trace) option" where
  "await_counter X sessionId tr =
     loop (counter_step X sessionId) (findCounterIdBySession (se_counters X tr) sessionId, tr)"

definition hello :: "int32 \<Rightarrow> byte list" where
  "hello i = map (\<lambda>c. word_of_nat (of_char c)) (take 255 (''Hello World! '' @ to_string (sint i)))"

definition publish_step ::
  "samples_env \<Rightarrow> int32 \<Rightarrow> (int32 \<times> aeron_archive) \<times> trace \<Rightarrow>
     ((int32 \<times> aeron_archive) \<times> trace + unit result \<times> aeron_archive \<times> trace) option" where
  "publish_step X messagesCount = (\<lambda>((i, a), tr).
     Some (if i <s messagesCount \<and> se_running X tr then
             (case call_offerData X (hello i) tr of
                (Inl e, tr1) \<Rightarrow> Inr (Inl e, a, tr1)
              | (Inr _, tr1) \<Rightarrow>
                  (case archive_pollForErrorResponse (se_sbe X) (se_env X) a tr1 of
                     (Inl e, a1, tr2) \<Rightarrow> Inr (Inl e, a1, tr2)
                   | (Inr (Some errorMessage), a1, tr2) \<Rightarrow> Inr (Inl (IllegalStateException errorMessage), a1, tr2)
                   | (Inr None, a1, tr2) \<Rightarrow> Inl ((i + 1, a1), Slept # tr2)))
           else Inr (Inr (), a, tr)))"

text \<open>Waiting until the recording has reached the publication's position.\<close>

definition recorded_step ::
  "samples_env \<Rightarrow> int32 \<Rightarrow> int64 \<Rightarrow> trace \<Rightarrow> (trace + bool \<times> trace) option" where
  "recorded_step X counterId recordingId tr =
     Some (if se_counterValue X tr counterId <s se_position X tr then
             (if \<not> isActive (se_counters X tr) counterId recordingId then Inr (False, tr)
              else Inl (call_yield tr))
           else Inr (True, tr))"

definition await_recorded :: "samples_env \<Rightarrow> int32 \<Rightarrow> int64 \<Rightarrow> trace \<Rightarrow> (bool \<times> trace) option" where
  "await_recorded X counterId recordingId tr = loop (recorded_step X counterId recordingId) tr"

definition publishData ::
  "samples_env \<Rightarrow> int32 \<Rightarrow> recording_data \<Rightarrow> int64 \<Rightarrow> aeron_archive \<Rightarrow> trace \<Rightarrow>
     (unit result \<times> aeron_archive \<times> trace) option" where
  "publishData X messagesCount recording pubId a tr =
     (case await_counter X (env_sessionId (se_env X) pubId) tr of
        None \<Rightarrow> None
      | Some (None, tr1) \<Rightarrow> Some (Inr (), a, tr1)
      | Some (Some counterId, tr1) \<Rightarrow>
          (case loop (publish_step X messagesCount) ((0, a), tr1) of
             None \<Rightarrow> None
           | Some (Inl e, a1, tr2) \<Rightarrow> Some (Inl e, a1, tr2)
           | Some (Inr _, a1, tr2) \<Rightarrow>
               (case await_recorded X counterId (rdt_recordingId recording) tr2 of
                  None \<Rightarrow> None
                | Some (_, tr3) \<Rightarrow> Some (Inr (), a1, tr3))))"

text \<open>The program, from the parsed options on.\<close>

record publisher_options =
  po_help :: bool
  po_channel :: string
  po_streamId :: int32
  po_messagesCount :: int32
  po_extendRecording :: bool
  po_file :: string

definition publisher_defaults :: publisher_options where
  "publisher_defaults = \<lparr>po_help = False, po_channel = ''aeron:udp?endpoint=localhost:40123'', po_streamId = 10,
     po_messagesCount = 1000000, po_extendRecording = False, po_file = []\<rparr>"

definition extend_and_publish ::
  "samples_env \<Rightarrow> publisher_options \<Rightarrow> recording_data \<Rightarrow> aeron_archive \<Rightarrow> trace \<Rightarrow>
     (unit result \<times> aeron_archive \<times> trace) option" where
  "extend_and_publish X opt recording a tr =
     (case extend_channel (po_channel opt) recording of
        Inl e \<Rightarrow> Some (Inl e, a, tr)
      | Inr extendChannel \<Rightarrow>
          (case add_and_find (se_env X) ExclusivePub extendChannel (po_streamId opt) tr of
             None \<Rightarrow> None
           | Some (Inl e, tr1) \<Rightarrow> Some (Inl e, a, tr1)
           | Some (Inr pubId, tr1) \<Rightarrow>
               (case archive_extendRecording (se_sbe X) (se_env X) (rdt_recordingId recording) (po_channel opt)
                       (po_streamId opt) LOCAL a tr1 of
                  None \<Rightarrow> None
                | Some (Inl e, a1, tr2) \<Rightarrow> Some (Inl e, a1, tr2)
                | Some (Inr _, a1, tr2) \<Rightarrow> publishData X (po_messagesCount opt) recording pubId a1 tr2)))"

definition start_and_publish ::
  "samples_env \<Rightarrow> publisher_options \<Rightarrow> recording_data \<Rightarrow> aeron_archive \<Rightarrow> trace \<Rightarrow>
     (unit result \<times> aeron_archive \<times> trace) option" where
  "start_and_publish X opt recording a tr =
     (case add_and_find (se_env X) Pub (po_channel opt) (po_streamId opt) tr of
        None \<Rightarrow> None
      | Some (Inl e, tr1) \<Rightarrow> Some (Inl e, a, tr1)
      | Some (Inr pubId, tr1) \<Rightarrow>
          (case archive_startRecording (se_sbe X) (se_env X) (po_channel opt) (po_streamId opt) LOCAL a tr1 of
             None \<Rightarrow> None
           | Some (Inl e, a1, tr2) \<Rightarrow> Some (Inl e, a1, tr2)
           | Some (Inr _, a1, tr2) \<Rightarrow> publishData X (po_messagesCount opt) recording pubId a1 tr2))"

definition publisher_body ::
  "samples_env \<Rightarrow> recording_data \<Rightarrow> publisher_options \<Rightarrow> trace \<Rightarrow> (unit result \<times> trace) option" where
  "publisher_body X memory opt tr =
     (case connect_configured X (po_file opt) tr of
        None \<Rightarrow> None
      | Some (Inl e, tr1) \<Rightarrow> Some (Inl e, tr1)
      | Some (Inr a, tr1) \<Rightarrow>
          (case getLatestRecordingData (se_sbe X) (se_env X) 0 memory (po_channel opt) (po_streamId opt) a tr1 of
             None \<Rightarrow> None
           | Some (Inl e, _, tr2) \<Rightarrow> Some (Inl e, tr2)
           | Some (Inr recording, a1, tr2) \<Rightarrow>
               (case (if po_extendRecording opt \<and> rdt_recordingId recording \<noteq> - 1
                      then extend_and_publish X opt recording a1 tr2
                      else start_and_publish X opt recording a1 tr2) of
                  None \<Rightarrow> None
                | Some (Inl e, _, tr3) \<Rightarrow> Some (Inl e, tr3)
                | Some (Inr _, a2, tr3) \<Rightarrow>
                    (case archive_stopRecording (se_sbe X) (se_env X) (po_channel opt) (po_streamId opt) a2 tr3 of
                       None \<Rightarrow> None
                     | Some (r, _, tr4) \<Rightarrow> Some (r, tr4)))))"

definition publisher_main ::
  "samples_env \<Rightarrow> recording_data \<Rightarrow> publisher_options \<Rightarrow> trace \<Rightarrow> (nat \<times> trace) option" where
  "publisher_main X memory opt tr =
     (if po_help opt then Some (1, tr) else exit_code (publisher_body X memory opt tr))"

section \<open>Terms and positions\<close>

lemma positionBits_iff:
  "positionBitsToShift l = Inr n \<longleftrightarrow> (\<exists>k. 16 \<le> k \<and> k \<le> 30 \<and> l = 2 ^ k \<and> n = word_of_nat k)"
proof
  assume "positionBitsToShift l = Inr n"
  then have "l = 2 ^ unat n \<and> 16 \<le> unat n \<and> unat n \<le> 30"
    by (auto simp: positionBitsToShift_def split: if_splits)
  then show "\<exists>k. 16 \<le> k \<and> k \<le> 30 \<and> l = 2 ^ k \<and> n = word_of_nat k"
    by (intro exI [of _ "unat n"]) simp
next
  assume "\<exists>k. 16 \<le> k \<and> k \<le> 30 \<and> l = 2 ^ k \<and> n = word_of_nat k"
  then obtain k where k: "16 \<le> k" "k \<le> 30" "l = 2 ^ k" "n = word_of_nat k" by blast
  moreover have "list_all (\<lambda>k. positionBitsToShift (2 ^ k) = Inr (word_of_nat k)) [16..<31]"
    by code_simp
  ultimately show "positionBitsToShift l = Inr n"
    unfolding list_all_iff set_upt by simp
qed

lemma nonneg_word:
  assumes "0 \<le> sint (w :: int64)"
  shows "uint w = sint w"
proof -
  have "sint w < 2 ^ 64" using sint_less [of w] by simp
  then show ?thesis
    using assms uint_sint [of w] by (simp add: take_bit_int_eq_self)
qed

lemma int_div_less: "(p :: int) < b * 2 ^ k \<Longrightarrow> p div 2 ^ k < b"
proof (rule ccontr)
  assume p: "p < b * 2 ^ k" and "\<not> p div 2 ^ k < b"
  then have "b * 2 ^ k \<le> p div 2 ^ k * 2 ^ k" by (simp add: mult_right_mono)
  also have "\<dots> \<le> p" by (simp add: minus_mod_eq_div_mult [symmetric])
  finally show False using p by simp
qed

lemma sint_small: "0 \<le> i \<Longrightarrow> i < 2 ^ 31 \<Longrightarrow> sint (word_of_int i :: int32) = i"
  by (simp add: signed_of_int signed_take_bit_int_eq_self)

lemma term_count:
  assumes "0 \<le> sint position" and "sint position < 2 ^ (31 + k)" and "k \<le> 30" and "n = word_of_nat k"
  shows "sint (computeTermIdFromPosition position n initialTermId - initialTermId) = sint position div 2 ^ k"
proof -
  have n: "unat n = k" using assms(3,4) by (simp add: unat_of_nat)
  let ?q = "signed_drop_bit k position"
  have q: "sint ?q = sint position div 2 ^ k"
    by (simp add: sint_signed_drop_bit_eq drop_bit_eq_div)
  have "sint position div 2 ^ k < 2 ^ 31"
    using assms(2) by (intro int_div_less) (simp add: power_add)
  moreover have "0 \<le> sint position div 2 ^ k" using assms(1) by (simp add: pos_imp_zdiv_nonneg_iff)
  ultimately have bound: "0 \<le> sint ?q" "sint ?q < 2 ^ 31" by (simp_all add: q)
  have "(ucast ?q :: int32) = word_of_int (sint ?q)"
    using nonneg_word [OF bound(1)] by (metis of_int_uint)
  then have "sint (ucast ?q :: int32) = sint ?q"
    using sint_small [OF bound] by (simp only:)
  then show ?thesis by (simp add: computeTermIdFromPosition_def n q)
qed

lemma term_offset_value:
  assumes "0 \<le> sint (rdt_stopPosition recording)" and "rdt_termBufferLength recording = 2 ^ k" and "k \<le> 30"
  shows "sint (term_offset recording) = sint (rdt_stopPosition recording) mod 2 ^ k"
proof -
  let ?p = "rdt_stopPosition recording"
  have "?p AND (2 ^ k - 1) = take_bit k ?p"
    by (simp add: take_bit_eq_mask mask_eq_exp_minus_1)
  then have off: "term_offset recording = ucast (take_bit k ?p)"
    using assms(2) by (simp add: term_offset_def)
  have v: "uint (take_bit k ?p) = sint ?p mod 2 ^ k"
    by (subst unsigned_take_bit_eq) (simp only: nonneg_word [OF assms(1)] take_bit_eq_mod)
  have "(2 :: int) ^ k \<le> 2 ^ 30" using assms(3) by (intro power_increasing) simp_all
  then have small: "sint ?p mod 2 ^ k < 2 ^ 31"
    by (intro order_less_le_trans [OF pos_mod_bound]) simp_all
  have "(ucast (take_bit k ?p) :: int32) = word_of_int (sint ?p mod 2 ^ k)"
    using v by (metis of_int_uint)
  then show ?thesis
    using small by (simp add: off sint_small)
qed

section \<open>The extended channel\<close>

text \<open>Parameters appended to a channel that has parameters.\<close>

lemma takeWhile_append_free:
  "x \<in> set xs \<Longrightarrow> takeWhile (\<lambda>c. c \<noteq> x) (xs @ ys) = takeWhile (\<lambda>c. c \<noteq> x) xs"
  "x \<in> set xs \<Longrightarrow> dropWhile (\<lambda>c. c \<noteq> x) (xs @ ys) = dropWhile (\<lambda>c. c \<noteq> x) xs @ ys"
  by auto

lemma split_params_unfold:
  "split_params t =
     (case dropWhile (\<lambda>c. c \<noteq> CHR ''='') t of
        [] \<Rightarrow> None
      | _ # r \<Rightarrow>
          (let k = takeWhile (\<lambda>c. c \<noteq> CHR ''='') t; v = takeWhile (\<lambda>c. c \<noteq> CHR ''|'') r
           in case dropWhile (\<lambda>c. c \<noteq> CHR ''|'') r of
                [] \<Rightarrow> Some [(k, v)]
              | _ # q \<Rightarrow> map_option ((#) (k, v)) (split_params q)))"
  by (subst split_params.simps) (simp only: Let_def)

lemma split_params_append:
  "split_params q = Some kvs \<Longrightarrow> split_params (q @ CHR ''|'' # t) = map_option ((@) kvs) (split_params t)"
proof (induction q arbitrary: kvs rule: split_params.induct)
  case (1 q)
  let ?k = "takeWhile (\<lambda>c. c \<noteq> CHR ''='') q"
  obtain c r where r: "dropWhile (\<lambda>c. c \<noteq> CHR ''='') q = c # r"
  proof (cases "dropWhile (\<lambda>c. c \<noteq> CHR ''='') q")
    case Nil
    then have "split_params q = None" by (subst split_params_unfold) (simp only: list.case)
    then show ?thesis using 1(2) by simp
  qed
  then have "c = CHR ''=''" by (rule drop_while_split(1))
  then have eq: "CHR ''='' \<in> set q"
    using r set_dropWhileD [of "CHR ''=''" "\<lambda>c. c \<noteq> CHR ''=''" q] by simp
  let ?v = "takeWhile (\<lambda>c. c \<noteq> CHR ''|'') r"
  show ?case
  proof (cases "dropWhile (\<lambda>c. c \<noteq> CHR ''|'') r")
    case Nil
    then have "CHR ''|'' \<notin> set r" "?v = r" using drop_while_none [OF Nil] by simp_all
    moreover have "kvs = [(?k, r)]"
      using 1(2) r Nil \<open>?v = r\<close> by (subst (asm) split_params_unfold) (simp add: Let_def)
    ultimately show ?thesis
      using r by (subst split_params_unfold)
        (cases "split_params t"; simp add: Let_def takeWhile_append_free [OF eq] takeWhile_free dropWhile_free)
  next
    case (Cons c' q')
    then have bar: "CHR ''|'' \<in> set r"
      using drop_while_split(1) [OF Cons] set_dropWhileD [of "CHR ''|''" "\<lambda>c. c \<noteq> CHR ''|''" r] Cons by simp
    obtain kvs' where kvs': "split_params q' = Some kvs'" "kvs = (?k, ?v) # kvs'"
      using 1(2) r Cons by (subst (asm) split_params_unfold) (auto simp: Let_def)
    have "split_params (q' @ CHR ''|'' # t) = map_option ((@) kvs') (split_params t)"
      by (rule 1(1) [OF refl refl r refl refl Cons kvs'(1)])
    then show ?thesis
      using r Cons kvs'(2)
      by (subst split_params_unfold)
        (cases "split_params t"; simp add: Let_def takeWhile_append_free [OF eq] takeWhile_append_free [OF bar])
  qed
qed

text \<open>The parameters that \<open>extend_channel\<close> appends.\<close>

definition extension_params :: "recording_data \<Rightarrow> (string \<times> string) list" where
  "extension_params recording =
     [(''init-term-id'', to_string (sint (rdt_initialTermId recording))),
      (''term-length'', to_string (sint (rdt_termBufferLength recording))),
      (''term-id'', to_string (sint (computeTermIdFromPosition (rdt_stopPosition recording)
         (projr (positionBitsToShift (ucast (rdt_termBufferLength recording)))) (rdt_initialTermId recording)))),
      (''term-offset'', to_string (sint (term_offset recording))), (''mtu'', ''1408'')]"

lemma extend_channel_appends:
  assumes "extend_channel channel recording = Inr chan"
  shows "chan = channel @ CHR ''|'' # print_params (length (extension_params recording)) (extension_params recording)"
  using assms
  by (auto simp: extend_channel_def bind_result_def extension_params_def split: sum.splits)

lemma digits_free: "CHR ''='' \<notin> set (to_string i)" "CHR ''|'' \<notin> set (to_string i)"
    "CHR ''?'' \<notin> set (to_string i)" "CHR '':'' \<notin> set (to_string i)"
  by (rule to_string_free; simp add: is_digit_def)+

lemma extension_params_parse:
  "split_params (print_params (length (extension_params recording)) (extension_params recording)) =
     Some (extension_params recording)"
  by (rule split_params_print) (auto simp: extension_params_def digits_free)

lemma extension_text_free:
  "CHR ''?'' \<notin> set (print_params (length (extension_params recording)) (extension_params recording))"
  "CHR '':'' \<notin> set (print_params (length (extension_params recording)) (extension_params recording))"
  by (simp_all add: extension_params_def digits_free)

lemma grammar_body_append:
  assumes "grammar_body body = Some (med, kvs)" and "split_params ext = Some params"
    and "CHR ''?'' \<notin> set ext" and "CHR '':'' \<notin> set ext"
  shows "grammar_body (body @ CHR ''|'' # ext) =
     (if CHR ''?'' \<in> set body then Some (med, kvs @ params) else Some (med @ CHR ''|'' # ext, []))"
proof (cases "CHR ''?'' \<in> set body")
  case True
  note here = takeWhile_append_free [OF True]
  obtain c q where q: "dropWhile (\<lambda>c. c \<noteq> CHR ''?'') body = c # q"
    using True by (cases "dropWhile (\<lambda>c. c \<noteq> CHR ''?'') body") auto
  then have "split_params q = Some kvs" and "med = takeWhile (\<lambda>c. c \<noteq> CHR ''?'') body"
      and "CHR '':'' \<notin> set med"
    using assms(1) by (auto simp: grammar_body_def Let_def split: if_splits)
  then show ?thesis
    using True q split_params_append [of q kvs ext] assms(2) by (simp add: grammar_body_def Let_def here)
next
  case False
  then have "med = body" "kvs = []" "CHR '':'' \<notin> set body"
    using assms(1) unfolding grammar_body_def Let_def takeWhile_all [OF False] dropWhile_all [OF False]
    by (simp_all split: if_splits)
  moreover have free: "CHR ''?'' \<notin> set (body @ CHR ''|'' # ext)" using False assms(3) by simp
  ultimately show ?thesis
    using False assms(4) unfolding grammar_body_def Let_def takeWhile_all [OF free] dropWhile_all [OF free] by simp
qed

lemma prefix_append:
  assumes "take (length p) s = p"
  shows "take (length p) (s @ t) = p" and "drop (length p) (s @ t) = drop (length p) s @ t"
proof -
  have "length p \<le> length s" using assms by (metis length_take min.cobounded1)
  then show "take (length p) (s @ t) = p" "drop (length p) (s @ t) = drop (length p) s @ t"
    using assms by simp_all
qed

lemma uri_prefix_lengths: "length AERON_PREFIX \<le> length SPY_PREFIX"
  by (simp add: uri_constants)

lemma uri_prefix_question: "CHR ''?'' \<notin> set AERON_PREFIX" "CHR ''?'' \<notin> set SPY_PREFIX"
  by (simp_all add: uri_constants)

lemma aeron_not_spy:
  assumes "take (length AERON_PREFIX) s = AERON_PREFIX"
  shows "take (length SPY_PREFIX) s \<noteq> SPY_PREFIX"
proof
  assume spy: "take (length SPY_PREFIX) s = SPY_PREFIX"
  have "take (length AERON_PREFIX) s = take (length AERON_PREFIX) (take (length SPY_PREFIX) s)"
    using uri_prefix_lengths by (simp add: min_def)
  then have "AERON_PREFIX = take (length AERON_PREFIX) SPY_PREFIX"
    using assms by (simp only: spy)
  then show False by (simp add: uri_constants)
qed

lemma grammar_append:
  assumes "grammar channel = Some (pre, med, kvs)" and "split_params ext = Some params"
    and "CHR ''?'' \<notin> set ext" and "CHR '':'' \<notin> set ext"
  shows "grammar (channel @ CHR ''|'' # ext) =
     Some (if CHR ''?'' \<in> set channel then (pre, med, kvs @ params) else (pre, med @ CHR ''|'' # ext, []))"
proof -
  define spy where "spy \<longleftrightarrow> take (length SPY_PREFIX) channel = SPY_PREFIX"
  define rest where "rest = (if spy then drop (length SPY_PREFIX) channel else channel)"
  let ?body = "drop (length AERON_PREFIX) rest"
  have aeron: "take (length AERON_PREFIX) rest = AERON_PREFIX" and pre: "pre = (if spy then SPY_QUALIFIER else [])"
    and body: "grammar_body ?body = Some (med, kvs)"
    using assms(1) by (auto simp: grammar_def Let_def spy_def rest_def split: if_splits)
  have spy': "take (length SPY_PREFIX) (channel @ CHR ''|'' # ext) = SPY_PREFIX \<longleftrightarrow> spy"
  proof (cases spy)
    case True
    then show ?thesis using prefix_append(1) unfolding spy_def by blast
  next
    case False
    then have "take (length AERON_PREFIX) (channel @ CHR ''|'' # ext) = AERON_PREFIX"
      using aeron by (intro prefix_append(1)) (simp add: rest_def)
    then show ?thesis using aeron_not_spy False by blast
  qed
  have rest': "(if spy then drop (length SPY_PREFIX) (channel @ CHR ''|'' # ext) else channel @ CHR ''|'' # ext) =
      rest @ CHR ''|'' # ext"
    using prefix_append(2) [of SPY_PREFIX channel] by (simp only: rest_def spy_def split: if_split) blast
  have rest_split: "rest = AERON_PREFIX @ ?body"
    using aeron append_take_drop_id [of "length AERON_PREFIX" rest] by simp
  have "channel = (if spy then SPY_PREFIX else []) @ rest"
  proof (cases spy)
    case True
    then show ?thesis
      using append_take_drop_id [of "length SPY_PREFIX" channel] unfolding spy_def rest_def by simp
  qed (simp add: rest_def)
  then have "channel = (if spy then SPY_PREFIX else []) @ AERON_PREFIX @ ?body"
    using rest_split by simp
  then have "CHR ''?'' \<in> set channel \<longleftrightarrow> CHR ''?'' \<in> set ?body"
    by (smt (verit) Un_iff set_append uri_prefix_question empty_iff list.set(1))
  then show ?thesis
    using prefix_append [OF aeron, of "CHR ''|'' # ext"] grammar_body_append [OF body assms(2-4)] pre
    unfolding grammar_def Let_def spy' rest' by simp
qed

section \<open>Correctness\<close>

text \<open>
  C24: An extension starts where the recording stopped. Exactly the powers of two from 64 KiB to
  1 GiB have a shift; and for a recording with such a term length whose stop position is not
  negative and lies in its first \<open>2 ^ 31\<close> terms, the position is the number of whole terms between
  the initial term id and the computed term id, times the length, plus the computed offset,
  which lies inside a term.
\<close>

theorem extension_starts_at_the_stop_position:
  assumes "16 \<le> k" and "k \<le> 30" and "rdt_termBufferLength recording = 2 ^ k"
    and "0 \<le> sint (rdt_stopPosition recording)" and "sint (rdt_stopPosition recording) < 2 ^ (31 + k)"
  shows "(\<forall>l n. positionBitsToShift l = Inr n \<longleftrightarrow> (\<exists>j. 16 \<le> j \<and> j \<le> 30 \<and> l = 2 ^ j \<and> n = word_of_nat j)) \<and>
     (\<exists>n. positionBitsToShift (ucast (rdt_termBufferLength recording)) = Inr n \<and>
        (let terms = computeTermIdFromPosition (rdt_stopPosition recording) n (rdt_initialTermId recording) -
               rdt_initialTermId recording
         in 0 \<le> sint terms \<and>
            sint (rdt_stopPosition recording) = sint terms * 2 ^ k + sint (term_offset recording) \<and>
            0 \<le> sint (term_offset recording) \<and> sint (term_offset recording) < 2 ^ k))"
proof -
  have "(ucast (2 ^ k :: int64) :: int32) = 2 ^ k"
    by (rule bit_word_eqI) (auto simp: bit_simps)
  then have shift: "positionBitsToShift (ucast (rdt_termBufferLength recording)) = Inr (word_of_nat k)"
    using assms(1-3) by (auto simp: positionBits_iff)
  have terms: "sint (computeTermIdFromPosition (rdt_stopPosition recording) (word_of_nat k) (rdt_initialTermId recording) -
      rdt_initialTermId recording) = sint (rdt_stopPosition recording) div 2 ^ k"
    by (rule term_count [OF assms(4,5,2) refl])
  show ?thesis
  proof (intro conjI exI [of _ "word_of_nat k"])
    show "\<forall>l n. positionBitsToShift l = Inr n \<longleftrightarrow> (\<exists>j. 16 \<le> j \<and> j \<le> 30 \<and> l = 2 ^ j \<and> n = word_of_nat j)"
      by (simp add: positionBits_iff)
  next
    show "positionBitsToShift (ucast (rdt_termBufferLength recording)) = Inr (word_of_nat k)" by (rule shift)
  next
    show "let terms = computeTermIdFromPosition (rdt_stopPosition recording) (word_of_nat k)
            (rdt_initialTermId recording) - rdt_initialTermId recording
         in 0 \<le> sint terms \<and>
            sint (rdt_stopPosition recording) = sint terms * 2 ^ k + sint (term_offset recording) \<and>
            0 \<le> sint (term_offset recording) \<and> sint (term_offset recording) < 2 ^ k"
      unfolding Let_def terms term_offset_value [OF assms(4,3,2)]
      using assms(4) div_mult_mod_eq [of "sint (rdt_stopPosition recording)" "2 ^ k", symmetric]
      by (intro conjI) (simp_all only: pos_imp_zdiv_nonneg_iff pos_mod_sign pos_mod_bound zero_less_power zero_less_numeral)
  qed
qed

lemma extension_starts_at_the_stop_position_witness:
  "\<exists>n. positionBitsToShift 65536 = Inr n \<and> computeTermIdFromPosition 200000 n 7 = 10 \<and>
     sint (computeTermIdFromPosition 200000 n 7 - 7) * 2 ^ 16 +
       sint (term_offset \<lparr>rdt_recordingId = 1, rdt_stopPosition = 200000, rdt_initialTermId = 7,
         rdt_termBufferLength = 65536\<rparr>) = 200000"
proof -
  let ?r = "\<lparr>rdt_recordingId = 1, rdt_stopPosition = 200000, rdt_initialTermId = 7, rdt_termBufferLength = 65536\<rparr>"
  obtain n where "positionBitsToShift (ucast (rdt_termBufferLength ?r)) = Inr n"
      "sint (rdt_stopPosition ?r) = sint (computeTermIdFromPosition (rdt_stopPosition ?r) n (rdt_initialTermId ?r) -
         rdt_initialTermId ?r) * 2 ^ 16 + sint (term_offset ?r)"
    using extension_starts_at_the_stop_position [of 16 ?r] by (auto simp: Let_def)
  moreover from this have "n = 16" by (simp add: positionBitsToShift_def)
  moreover have "computeTermIdFromPosition 200000 16 7 = 10" by code_simp
  ultimately show ?thesis by (intro exI [of _ n]) simp
qed

text \<open>
  C25: The channel of an extension carries the recording's place, if it has parameters to add to.
  For a channel that parses, the extended one parses, with the same prefix. When the channel
  has a question mark, the media and all other parameters are kept, and the initial term id, the
  term length, the term id, the term offset and the MTU are bound. When it has none, as
  \<^verbatim>\<open>aeron:ipc\<close>, the whole text of the parameters becomes part of the media, and there are no
  parameters at all.
\<close>

theorem extend_channel_parses:
  assumes "parse lay channel = Inr u" and "extend_channel channel recording = Inr chan"
  shows "\<exists>w. parse lay chan = Inr w \<and> uri_prefix w = uri_prefix u \<and>
     (if CHR ''?'' \<in> set channel
      then uri_media w = uri_media u \<and> get w = get u ++ map_of (rev (extension_params recording))
      else uri_media w = uri_media u @ drop (length channel) chan \<and> get w = Map.empty)"
proof -
  let ?ext = "print_params (length (extension_params recording)) (extension_params recording)"
  have chan: "chan = channel @ CHR ''|'' # ?ext" by (rule extend_channel_appends [OF assms(2)])
  obtain pre med kvs where g: "grammar channel = Some (pre, med, kvs)"
    using assms(1) parse_by_grammar [where str = channel and lay = lay] by (cases "grammar channel") auto
  then have u: "uri_prefix u = pre" "uri_media u = med" "get u = map_of (rev kvs)"
    using assms(1) parse_by_grammar [where str = channel and lay = lay] by auto
  have "grammar chan = Some (if CHR ''?'' \<in> set channel then (pre, med, kvs @ extension_params recording)
      else (pre, med @ CHR ''|'' # ?ext, []))"
    unfolding chan by (rule grammar_append [OF g extension_params_parse extension_text_free])
  then show ?thesis
    using parse_by_grammar [where str = chan and lay = lay] u by (cases "CHR ''?'' \<in> set channel") (auto simp: chan)
qed

lemma digit_chars: "digit_char 0 = CHR ''0''" "digit_char (Suc 0) = CHR ''1''" "digit_char 2 = CHR ''2''"
    "digit_char 3 = CHR ''3''" "digit_char 4 = CHR ''4''" "digit_char 5 = CHR ''5''" "digit_char 6 = CHR ''6''"
    "digit_char 7 = CHR ''7''" "digit_char 8 = CHR ''8''" "digit_char 9 = CHR ''9''"
  by code_simp+

lemma extend_channel_parses_witness:
  "\<exists>chan w. extend_channel ''aeron:ipc'' \<lparr>rdt_recordingId = 1, rdt_stopPosition = 200000, rdt_initialTermId = 7,
       rdt_termBufferLength = 65536\<rparr> = Inr chan \<and>
     parse (\<lambda>_ _ _. 0) chan = Inr w \<and> get w = Map.empty \<and>
     uri_media w = ''ipc|init-term-id=7|term-length=65536|term-id=10|term-offset=3392|mtu=1408''"
proof -
  let ?r = "\<lparr>rdt_recordingId = 1, rdt_stopPosition = 200000, rdt_initialTermId = 7, rdt_termBufferLength = 65536\<rparr>"
  let ?chan = "''aeron:ipc|init-term-id=7|term-length=65536|term-id=10|term-offset=3392|mtu=1408''"
  have "computeTermIdFromPosition 200000 16 7 = 10" by code_simp
  moreover have "term_offset ?r = 3392" by (simp add: term_offset_def)
  moreover have "positionBitsToShift 65536 = Inr 16" by (simp add: positionBitsToShift_def)
  moreover have "to_string 200000 = ''200000''" "to_string 65536 = ''65536''" "to_string 10 = ''10''"
      "to_string 3392 = ''3392''" "to_string 7 = ''7''"
    by (simp_all add: to_string_def decimal.simps digit_chars)
  ultimately have ext: "extend_channel ''aeron:ipc'' ?r = Inr ?chan" by (simp add: extend_channel_def)
  obtain u where u: "parse (\<lambda>_ _ _. 0) ''aeron:ipc'' = Inr u" "uri_media u = ''ipc''"
  proof -
    have "grammar ''aeron:ipc'' = Some ([], ''ipc'', [])" by code_simp
    then show ?thesis
      using that parse_by_grammar [where str = "''aeron:ipc''" and lay = "\<lambda>_ _ _. 0"] by auto
  qed
  have none: "CHR ''?'' \<notin> set ''aeron:ipc''" by simp
  from extend_channel_parses [OF u(1) ext, unfolded if_not_P [OF none]] obtain w where "parse (\<lambda>_ _ _. 0) ?chan = Inr w" "get w = Map.empty"
      "uri_media w = uri_media u @ drop (length ''aeron:ipc'') ?chan"
    by blast
  moreover from this u(2)
  have "uri_media w = ''ipc|init-term-id=7|term-length=65536|term-id=10|term-offset=3392|mtu=1408''" by simp
  ultimately show ?thesis using ext by blast
qed

section \<open>The wait for the recording\<close>

definition recorded_at :: "samples_env \<Rightarrow> int32 \<Rightarrow> trace \<Rightarrow> bool" where
  "recorded_at X counterId tr \<longleftrightarrow> \<not> se_counterValue X tr counterId <s se_position X tr"

lemma await_recorded_outcome:
  assumes "await_recorded X counterId recordingId tr = Some (b, tr')"
  shows "(if b then recorded_at X counterId tr'
     else \<not> recorded_at X counterId tr' \<and> \<not> isActive (se_counters X tr') counterId recordingId) \<and> tidy tr tr'"
proof -
  have "case (b, tr') of (b, tr') \<Rightarrow> (if b then recorded_at X counterId tr'
     else \<not> recorded_at X counterId tr' \<and> \<not> isActive (se_counters X tr') counterId recordingId) \<and> tidy tr tr'"
    using assms unfolding await_recorded_def
    by (rule loop_invariant [where I = "tidy tr"])
      (auto simp: recorded_step_def recorded_at_def call_defs split: if_splits)
  then show ?thesis by simp
qed

text \<open>
  C26: A new recording is not waited for. The last wait of the program is for the counter to reach
  the publication's position as long as it belongs to the recording, but the id it asks for is
  that of the latest recording found before. When the counter belongs to another recording, as
  for every recording that was started anew, the wait ends at once, without a pass, whether the
  position was reached or not; with the counter's own recording it would end only when the
  position was reached.
\<close>

theorem new_recording_is_not_awaited:
  assumes "\<forall>tr. getRecordingId (se_counters X tr) counterId = recordingId" and "recordingId \<noteq> rdt_recordingId recording"
  shows "await_recorded X counterId (rdt_recordingId recording) tr = Some (recorded_at X counterId tr, tr) \<and>
     (case await_recorded X counterId recordingId tr of
        None \<Rightarrow> True
      | Some (reached, tr') \<Rightarrow> reached \<and> recorded_at X counterId tr')"
proof
  have "\<not> isActive (se_counters X tr) counterId (rdt_recordingId recording)"
    using assms by (auto simp: isActive_def)
  then show "await_recorded X counterId (rdt_recordingId recording) tr = Some (recorded_at X counterId tr, tr)"
    by (simp add: await_recorded_def loop_unfold recorded_step_def recorded_at_def)
  show "case await_recorded X counterId recordingId tr of
        None \<Rightarrow> True
      | Some (reached, tr') \<Rightarrow> reached \<and> recorded_at X counterId tr'"
  proof (cases "await_recorded X counterId recordingId tr")
    case (Some r)
    then obtain b tr' where r: "await_recorded X counterId recordingId tr = Some (b, tr')" by (cases r) auto
    have "isActive (se_counters X tr') counterId recordingId" using assms(1) by (simp add: isActive_def)
    then show ?thesis using await_recorded_outcome [OF r] r by (auto split: if_splits)
  qed simp
qed

lemma new_recording_is_not_awaited_witness:
  "await_recorded (server_world\<lparr>se_position := \<lambda>_. 100\<rparr>) 3 7 [] = Some (False, []) \<and>
   getRecordingId server_counters 3 = 42"
proof -
  let ?X = "server_world\<lparr>se_position := \<lambda>_. 100\<rparr>"
  let ?r = "\<lparr>rdt_recordingId = 7, rdt_stopPosition = 0, rdt_initialTermId = 0, rdt_termBufferLength = 65536\<rparr>"
  have "\<forall>tr. getRecordingId (se_counters ?X tr) 3 = 42" using server_counter(2) by simp
  then have "await_recorded ?X 3 (rdt_recordingId ?r) [] = Some (recorded_at ?X 3 [], [])"
    using new_recording_is_not_awaited [of ?X 3 42 ?r "[]"] by simp
  moreover have "\<not> recorded_at ?X 3 []" by (simp add: recorded_at_def word_sless_alt)
  ultimately show ?thesis using server_counter(2) by simp
qed

section \<open>The course of the program\<close>

lemma call_offerData_tidy: "call_offerData X bytes tr = (r, tr') \<Longrightarrow> tidy tr tr'"
  by (auto simp: call_offerData_def Let_def split: sum.splits)

lemma await_counter_tidy:
  assumes "await_counter X sessionId tr = Some (r, tr')"
  shows "tidy tr tr'"
proof -
  have "case (r, tr') of (r, tr') \<Rightarrow> tidy tr tr'"
    using assms unfolding await_counter_def
    by (rule loop_invariant [where I = "\<lambda>s. tidy tr (snd s)"])
      (auto simp: counter_step_def call_defs Let_def split: if_splits)
  then show ?thesis by simp
qed

lemma error_poll_keeps:
  assumes "break_stops E" and "archive_ok a" and "archive_pollForErrorResponse S E a tr = (x, a', tr')"
  shows "tidy tr tr' \<and> same_client a a'"
  by (rule client_step_keeps [OF assms(1) client_step.poll [OF assms(3)] assms(2)])

definition keeps_client :: "aeron_archive \<Rightarrow> trace \<Rightarrow> aeron_archive \<Rightarrow> trace \<Rightarrow> bool" where
  "keeps_client a tr a' tr' \<longleftrightarrow> tidy tr tr' \<and> same_client a a'"

lemma keeps_client_refl [simp]: "keeps_client a tr a tr"
  by (simp add: keeps_client_def)

lemma keeps_client_trans [trans]: "keeps_client a tr b tr1 \<Longrightarrow> keeps_client b tr1 c tr2 \<Longrightarrow> keeps_client a tr c tr2"
  using tidy_trans same_client_trans unfolding keeps_client_def by blast

lemma keeps_client_ok: "keeps_client a tr a' tr' \<Longrightarrow> archive_ok a \<Longrightarrow> archive_ok a'"
  using same_client_ok by (auto simp: keeps_client_def)

lemma publish_step_keeps:
  assumes "break_stops (se_env X)" and "archive_ok a" and "publish_step X n ((i, a), tr) = Some y"
  shows "case y of Inl ((_, a'), tr') \<Rightarrow> keeps_client a tr a' tr' | Inr (_, a', tr') \<Rightarrow> keeps_client a tr a' tr'"
proof -
  obtain r tr1 where offer: "call_offerData X (hello i) tr = (r, tr1)" by (metis prod.exhaust)
  obtain x a1 tr2 where poll: "archive_pollForErrorResponse (se_sbe X) (se_env X) a tr1 = (x, a1, tr2)"
    by (metis prod.exhaust)
  have "tidy tr tr1" "tidy tr1 tr2 \<and> same_client a a1"
    using call_offerData_tidy [OF offer] error_poll_keeps [OF assms(1,2) poll] by auto
  then have "keeps_client a tr a tr1" "keeps_client a tr a1 tr2" "keeps_client a tr a1 (Slept # tr2)"
    using tidy_trans by (auto simp: keeps_client_def)
  then show ?thesis
    using assms(3) by (auto simp: publish_step_def offer poll split: if_splits sum.splits option.splits)
qed

lemma publishData_keeps:
  assumes "break_stops (se_env X)" and "archive_ok a"
    and "publishData X n recording pubId a tr = Some (r, a', tr')"
  shows "keeps_client a tr a' tr'"
proof -
  obtain c tr1 where counter: "await_counter X (env_sessionId (se_env X) pubId) tr = Some (c, tr1)"
    using assms(3) by (auto simp: publishData_def split: option.splits)
  have k1: "keeps_client a tr a tr1" using await_counter_tidy [OF counter] by (simp add: keeps_client_def)
  show ?thesis
  proof (cases c)
    case None
    then show ?thesis using assms(3) counter k1 by (simp add: publishData_def)
  next
    case (Some counterId)
    obtain y a1 tr2 where run: "loop (publish_step X n) ((0, a), tr1) = Some (y, a1, tr2)"
      using assms(3) counter Some by (auto simp: publishData_def split: option.splits)
    have "case (y, a1, tr2) of (y, a1, tr2) \<Rightarrow> keeps_client a tr1 a1 tr2"
    proof (rule loop_invariant [OF run, where I = "\<lambda>s. keeps_client a tr1 (snd (fst s)) (snd s)"])
      fix s s' assume I: "keeps_client a tr1 (snd (fst s)) (snd s)" and "publish_step X n s = Some (Inl s')"
      then show "keeps_client a tr1 (snd (fst s')) (snd s')"
        using publish_step_keeps [OF assms(1) keeps_client_ok [OF I assms(2)], of n "fst (fst s)" "snd s" "Inl s'"]
          keeps_client_trans by (auto split: prod.splits)
    next
      fix s r assume I: "keeps_client a tr1 (snd (fst s)) (snd s)" and "publish_step X n s = Some (Inr r)"
      then show "case r of (y, a1, tr2) \<Rightarrow> keeps_client a tr1 a1 tr2"
        using publish_step_keeps [OF assms(1) keeps_client_ok [OF I assms(2)], of n "fst (fst s)" "snd s" "Inr r"]
          keeps_client_trans by (auto split: prod.splits)
    qed simp
    then have k2: "keeps_client a tr a1 tr2" using k1 keeps_client_trans by auto
    show ?thesis
    proof (cases y)
      case (Inl e)
      then show ?thesis using assms(3) counter Some run k2 by (simp add: publishData_def)
    next
      case (Inr u)
      then obtain b where wait: "await_recorded X counterId (rdt_recordingId recording) tr2 = Some (b, tr')" "a' = a1"
        using assms(3) counter Some run by (auto simp: publishData_def split: option.splits)
      then have "keeps_client a1 tr2 a' tr'" using await_recorded_outcome by (simp add: keeps_client_def)
      then show ?thesis using k2 keeps_client_trans by blast
    qed
  qed
qed

text \<open>The request that opens the recording: an extension, or a new one.\<close>

definition opening_operation :: "publisher_options \<Rightarrow> recording_data \<Rightarrow> operation" where
  "opening_operation opt recording =
     (if po_extendRecording opt \<and> rdt_recordingId recording \<noteq> - 1
      then ExtendRecording (rdt_recordingId recording) (po_channel opt) (po_streamId opt) LOCAL
      else StartRecording (po_channel opt) (po_streamId opt) LOCAL)"

lemma recording_opened:
  assumes "break_stops (se_env X)" and "archive_ok a"
    and "(if po_extendRecording opt \<and> rdt_recordingId recording \<noteq> - 1 then extend_and_publish X opt recording a tr
          else start_and_publish X opt recording a tr) = Some (Inr u, a', tr')"
  shows "\<exists>tr1 v tr2. tidy tr tr1 \<and>
     exchanged (se_sbe X) (se_env X) a (operation_request (opening_operation opt recording) (aa_controlSessionId a))
       (operation_name (opening_operation opt recording)) tr1 (Inr v) tr2 \<and> tidy tr2 tr' \<and> same_client a a'"
proof -
  obtain res chan pubId tr1 v a1 tr2 where found: "add_and_find (se_env X) res chan (po_streamId opt) tr = Some (Inr pubId, tr1)"
    and op: "perform (se_sbe X) (se_env X) (opening_operation opt recording) a tr1 = Some (Inr (Value64 v), a1, tr2)"
    and publish: "publishData X (po_messagesCount opt) recording pubId a1 tr2 = Some (Inr u, a', tr')"
    using assms(3)
    by (auto simp: extend_and_publish_def start_and_publish_def opening_operation_def answers_def
        split: if_splits option.splits sum.splits)
  have "keeps_client a1 tr2 a' tr'"
  proof (rule publishData_keeps [OF assms(1) _ publish])
    show "archive_ok a1" using perform_locks [OF assms(1,2) op] same_client_ok assms(2) by blast
  qed
  then show ?thesis
    using add_and_find_tidy [OF found] perform_value [OF assms(1,2) op] same_client_trans
    unfolding keeps_client_def by blast
qed

text \<open>
  C12: The program ends the recording it began. When it exits with 0, then on the session of a client
  that is ready the recording was extended, if this was asked for and one was found, or else a
  new one was started, by a request that was answered; and the last thing it did was to stop
  the recording of the same channel and stream, by a request that was answered too. In between
  the lock was kept, and the client stayed the same.
\<close>

theorem publisher_stops_what_it_started:
  assumes "break_stops (se_env X)" and "publisher_main X memory opt tr = Some (0, tr')"
  shows "\<exists>a b recording tr1 v tr2 tr3 w.
     archive_ok a \<and> same_client a b \<and>
     exchanged (se_sbe X) (se_env X) a (operation_request (opening_operation opt recording) (aa_controlSessionId a))
       (operation_name (opening_operation opt recording)) tr1 (Inr v) tr2 \<and>
     tidy tr2 tr3 \<and>
     exchanged (se_sbe X) (se_env X) b
       (operation_request (StopRecording (po_channel opt) (po_streamId opt)) (aa_controlSessionId a))
       ''stop recording'' tr3 (Inr w) tr'"
proof -
  have body: "\<exists>u. publisher_body X memory opt tr = Some (Inr u, tr')"
    using assms(2) by (auto simp: publisher_main_def exit_code_def split: if_splits option.splits sum.splits)
  then obtain a0 tr0 where conn: "connect_configured X (po_file opt) tr = Some (Inr a0, tr0)"
    by (auto simp: publisher_body_def split: option.splits sum.splits)
  have ok0: "archive_ok a0" by (rule configured_ready [OF assms(1) conn])
  obtain recording a1 tr1 where latest: "getLatestRecordingData (se_sbe X) (se_env X) 0 memory (po_channel opt)
      (po_streamId opt) a0 tr0 = Some (Inr recording, a1, tr1)"
    using body conn by (auto simp: publisher_body_def split: option.splits sum.splits)
  then obtain n where "perform_listing (se_sbe X) (se_env X) (ListRecordingsForUri 0 100 (po_channel opt) (po_streamId opt))
      0 a0 tr0 = Some (Inr n, a1, tr1)"
    by (auto simp: getLatestRecordingData_def Let_def split: option.splits sum.splits)
  then have ok1: "archive_ok a1"
    using perform_listing_locks [OF assms(1) ok0] same_client_ok ok0 by blast
  obtain u a2 tr2 where opn: "(if po_extendRecording opt \<and> rdt_recordingId recording \<noteq> - 1
      then extend_and_publish X opt recording a1 tr1 else start_and_publish X opt recording a1 tr1) = Some (Inr u, a2, tr2)"
    using body conn latest by (auto simp: publisher_body_def simp del: if_split split: option.splits sum.splits)
  obtain tr3 v tr4 where o: "exchanged (se_sbe X) (se_env X) a1
        (operation_request (opening_operation opt recording) (aa_controlSessionId a1))
        (operation_name (opening_operation opt recording)) tr3 (Inr v) tr4" "tidy tr4 tr2" "same_client a1 a2"
    using recording_opened [OF assms(1) ok1 opn] by blast
  obtain r a3 where "archive_stopRecording (se_sbe X) (se_env X) (po_channel opt) (po_streamId opt) a2 tr2 =
      Some (Inr r, a3, tr')"
    using body conn latest opn by (auto simp: publisher_body_def simp del: if_split split: option.splits sum.splits)
  then have "perform (se_sbe X) (se_env X) (StopRecording (po_channel opt) (po_streamId opt)) a2 tr2 =
      Some (Inr Done, a3, tr')"
    by (simp add: answers_def)
  from perform_outcome [OF assms(1) same_client_ok [OF o(3) ok1] this]
  obtain w' where w': "exchanged (se_sbe X) (se_env X) a2
      (operation_request (StopRecording (po_channel opt) (po_streamId opt)) (aa_controlSessionId a2))
      ''stop recording'' tr2 w' tr'" "Inr Done = bind_result w' (\<lambda>_. Inr Done)"
    by auto
  then obtain w where "w' = Inr w" by (cases w') auto
  with w'(1) have "exchanged (se_sbe X) (se_env X) a2
      (operation_request (StopRecording (po_channel opt) (po_streamId opt)) (aa_controlSessionId a2))
      ''stop recording'' tr2 (Inr w) tr'" by simp
  moreover have "aa_controlSessionId a2 = aa_controlSessionId a1" using o(3) by (simp add: same_client_def)
  ultimately show ?thesis using ok1 o by metis
qed

definition sample_options :: publisher_options where
  "sample_options = publisher_defaults\<lparr>po_channel := ''aeron:ipc'', po_messagesCount := 0\<rparr>"

definition sample_memory :: recording_data where
  "sample_memory = \<lparr>rdt_recordingId = 0, rdt_stopPosition = 0, rdt_initialTermId = 0, rdt_termBufferLength = 0\<rparr>"

lemma publisher_stops_what_it_started_witness:
  "\<exists>tr' (a :: aeron_archive) b v w tr1 tr2 tr3. publisher_main server_world sample_memory sample_options [] = Some (0, tr') \<and>
     exchanged sample_sbe server_env a (operation_request (StartRecording ''aeron:ipc'' 10 LOCAL) (aa_controlSessionId a))
       ''start recording'' tr1 (Inr v) tr2 \<and>
     exchanged sample_sbe server_env b (operation_request (StopRecording ''aeron:ipc'' 10) (aa_controlSessionId a))
       ''stop recording'' tr3 (Inr w) tr'"
proof -
  have small: "fits (listing_request (ListRecordingsForUri 0 100 ''aeron:ipc'' 10) 5 7)"
      "fits (operation_request (StartRecording ''aeron:ipc'' 10 LOCAL) 5 7)"
      "fits (operation_request (StopRecording ''aeron:ipc'' 10) 5 7)"
    by (simp_all add: fits_def body_bytes_def widen_def narrow_def wide32_def)
  obtain a0 tr0 where conn: "connect_configured server_world [] [] = Some (Inr a0, tr0)" "served a0"
    using server_configured by blast
  obtain a1 tr1 where list: "perform_listing sample_sbe server_env (ListRecordingsForUri 0 100 ''aeron:ipc'' 10) 0 a0 tr0 =
      Some (Inr 0, a1, tr1)" "served a1"
    using server_lists [OF conn(2) small(1)] by blast
  then obtain recording where latest: "getLatestRecordingData sample_sbe server_env 0 sample_memory ''aeron:ipc'' 10 a0 tr0 =
      Some (Inr recording, a1, tr1)"
    by (simp add: getLatestRecordingData_def Let_def)
  let ?tr2 = "Looked Pub 1 # Added Pub ''aeron:ipc'' 10 # tr1"
  obtain a2 tr3 where "perform sample_sbe server_env (StartRecording ''aeron:ipc'' 10 LOCAL) a1 ?tr2 =
      Some (Inr (Value64 42), a2, tr3)" "served a2"
    using server_performs [OF list(2) small(2)] by fastforce
  then have start: "archive_startRecording sample_sbe server_env ''aeron:ipc'' 10 LOCAL a1 ?tr2 = Some (Inr 42, a2, tr3)"
    by (auto simp: answers_def bind_result_def split: option.splits sum.splits)
  have publish: "publishData server_world 0 recording 1 a2 tr3 = Some (Inr (), a2, tr3)"
    by (simp add: publishData_def await_counter_def loop_unfold counter_step_def publish_step_def await_recorded_def
        recorded_step_def server_counter(1))
  obtain a3 tr4 where "perform sample_sbe server_env (StopRecording ''aeron:ipc'' 10) a2 tr3 = Some (Inr Done, a3, tr4)"
    using server_performs [OF \<open>served a2\<close> small(3)] by fastforce
  then have stop: "archive_stopRecording sample_sbe server_env ''aeron:ipc'' 10 a2 tr3 = Some (Inr (), a3, tr4)"
    by (auto simp: answers_def bind_result_def split: option.splits sum.splits)
  have run: "publisher_main server_world sample_memory sample_options [] = Some (0, tr4)"
    by (simp add: publisher_main_def sample_options_def publisher_defaults_def exit_code_def publisher_body_def conn latest
        start_and_publish_def server_add_and_find start publish stop)
  show ?thesis
    using publisher_stops_what_it_started [OF _ run] server_break_stops run
    by (fastforce simp: opening_operation_def sample_options_def publisher_defaults_def)
qed

end
