(* ===== verification/ReplayedBasicSubscriber.thy ===== *)
theory ReplayedBasicSubscriber
  imports SampleServer
begin

text \<open>
  The sample that replays a recording and reads it to its end (\<^verbatim>\<open>samples/ReplayedBasicSubscriber.cpp\<close>):
  the program with its polling loop. The option \<^verbatim>\<open>frame-count-limit\<close> is parsed there and never used.
\<close>

section \<open>The model\<close>

record subscriber_options =
  so_help :: bool
  so_channel :: string
  so_streamId :: int32
  so_frameCountLimit :: int32
  so_recId :: int64
  so_position :: int64
  so_file :: string

definition subscriber_defaults :: subscriber_options where
  "subscriber_defaults = \<lparr>so_help = False, so_channel = ''aeron:udp?endpoint=localhost:40123'', so_streamId = 10,
     so_frameCountLimit = 20, so_recId = - 1, so_position = 0, so_file = []\<rparr>"

definition call_pollData :: "samples_env \<Rightarrow> trace \<Rightarrow> int32 result \<times> trace" where
  "call_pollData X tr =
     (let r = se_poll X tr in (r, (case r of Inl e \<Rightarrow> Raised e | Inr n \<Rightarrow> DataPolled n) # tr))"

definition call_pollEndOfStreams :: "samples_env \<Rightarrow> trace \<Rightarrow> int32 \<times> trace" where
  "call_pollEndOfStreams X tr = (let n = se_pollEndOfStreams X tr in (n, EndPolled n # tr))"

definition replay_poll_step ::
  "samples_env \<Rightarrow> bool \<times> trace \<Rightarrow> (bool \<times> trace + unit result \<times> trace) option" where
  "replay_poll_step X = (\<lambda>(reachedEos, tr).
     Some (if se_running X tr \<and> \<not> reachedEos then
             (case call_pollData X tr of
                (Inl e, tr1) \<Rightarrow> Inr (Inl e, tr1)
              | (Inr fragmentsRead, tr1) \<Rightarrow>
                  (if fragmentsRead = 0 then
                     (case call_pollEndOfStreams X tr1 of
                        (n, tr2) \<Rightarrow> Inl (if n \<noteq> 0 then True else reachedEos, call_idle tr2))
                   else Inl (reachedEos, call_idle tr1)))
           else Inr (Inr (), tr)))"

definition subscriber_body ::
  "samples_env \<Rightarrow> subscriber_options \<Rightarrow> trace \<Rightarrow> (unit result \<times> trace) option" where
  "subscriber_body X opt tr =
     (let replayStreamId = so_streamId opt + 1
      in case connect_configured X (so_file opt) tr of
           None \<Rightarrow> None
         | Some (Inl e, tr1) \<Rightarrow> Some (Inl e, tr1)
         | Some (Inr a, tr1) \<Rightarrow>
             (case (if so_recId opt \<noteq> - 1 then Some (Inr (so_recId opt), a, tr1)
                    else findLatestRecordingId (se_sbe X) (se_env X) 0 (so_channel opt) (so_streamId opt) a tr1) of
                None \<Rightarrow> None
              | Some (Inl e, _, tr2) \<Rightarrow> Some (Inl e, tr2)
              | Some (Inr recordingId, a1, tr2) \<Rightarrow>
                  (case archive_replay (se_sbe X) (se_env X) (se_layout X) recordingId (so_position opt)
                          (2 ^ 63 - 1) (so_channel opt) replayStreamId a1 tr2 of
                     None \<Rightarrow> None
                   | Some (Inl e, _, tr3) \<Rightarrow> Some (Inl e, tr3)
                   | Some (Inr _, _, tr3) \<Rightarrow> loop (replay_poll_step X) (False, tr3))))"

definition subscriber_main :: "samples_env \<Rightarrow> subscriber_options \<Rightarrow> trace \<Rightarrow> (nat \<times> trace) option" where
  "subscriber_main X opt tr = (if so_help opt then Some (1, tr) else exit_code (subscriber_body X opt tr))"

section \<open>The polling loop\<close>

text \<open>A pass of the loop: how many fragments the poll gave, and, if none, how many streams had ended.\<close>

fun poll_round :: "int32 \<times> int32 \<Rightarrow> trace" where
  "poll_round (n, m) = (if n = 0 then [Idled, EndPolled m, DataPolled 0] else [Idled, DataPolled n])"

fun ends_stream :: "int32 \<times> int32 \<Rightarrow> bool" where
  "ends_stream (n, m) \<longleftrightarrow> n = 0 \<and> m \<noteq> 0"

definition polled_rounds :: "trace \<Rightarrow> bool \<Rightarrow> trace \<Rightarrow> bool" where
  "polled_rounds tr0 eos tr \<longleftrightarrow>
     (\<exists>rounds. tr = concat (map poll_round rounds) @ tr0 \<and> list_all (\<lambda>r. \<not> ends_stream r) (if eos then tl rounds else rounds) \<and>
        (eos \<longrightarrow> rounds \<noteq> [] \<and> ends_stream (hd rounds)))"

lemma polled_rounds_Nil: "polled_rounds tr False tr"
  by (auto simp: polled_rounds_def intro: exI [of _ "[]"])

lemma polled_rounds_Cons:
  assumes "polled_rounds tr0 False tr"
  shows "polled_rounds tr0 (ends_stream r) (poll_round r @ tr)"
proof -
  obtain rounds where "tr = concat (map poll_round rounds) @ tr0" "list_all (\<lambda>r. \<not> ends_stream r) rounds"
    using assms by (auto simp: polled_rounds_def)
  then show ?thesis
    unfolding polled_rounds_def by (intro exI [of _ "r # rounds"]) auto
qed

lemma replay_loop_course:
  assumes "loop (replay_poll_step X) (False, tr) = Some (Inr u, tr')"
  shows "\<exists>eos. polled_rounds tr eos tr' \<and> (eos \<or> \<not> se_running X tr')"
proof -
  have "case (Inr u :: unit result, tr') of (r, tr') \<Rightarrow> \<not> isl r \<longrightarrow> (\<exists>eos. polled_rounds tr eos tr' \<and> (eos \<or> \<not> se_running X tr'))"
  proof (rule loop_invariant [OF assms, where I = "\<lambda>(eos, tr1). polled_rounds tr eos tr1"
      and Q = "\<lambda>(r :: unit result, tr'). \<not> isl r \<longrightarrow> (\<exists>eos. polled_rounds tr eos tr' \<and> (eos \<or> \<not> se_running X tr'))"])
    fix s s' assume I: "case s of (eos, tr1) \<Rightarrow> polled_rounds tr eos tr1" and step: "replay_poll_step X s = Some (Inl s')"
    obtain eos tr1 where s: "s = (eos, tr1)" by (cases s)
    then have go: "\<not> eos" "polled_rounds tr False tr1"
      using step I by (cases eos; auto simp: replay_poll_step_def)+
    show "case s' of (eos, tr1) \<Rightarrow> polled_rounds tr eos tr1"
      using step go polled_rounds_Cons [OF go(2), of "(projr (se_poll X tr1), se_pollEndOfStreams X (DataPolled 0 # tr1))"]
      by (cases "se_poll X tr1")
        (auto simp: s replay_poll_step_def call_pollData_def call_pollEndOfStreams_def call_defs Let_def split: if_splits)
  next
    fix s r assume "case s of (eos, tr1) \<Rightarrow> polled_rounds tr eos tr1" and "replay_poll_step X s = Some (Inr r)"
    then show "case r of (r, tr') \<Rightarrow> \<not> isl r \<longrightarrow> (\<exists>eos. polled_rounds tr eos tr' \<and> (eos \<or> \<not> se_running X tr'))"
      by (cases s) (auto simp: replay_poll_step_def split: if_splits sum.splits prod.splits)
  qed (simp add: polled_rounds_Nil)
  then show ?thesis by simp
qed

section \<open>The course of the program\<close>

text \<open>
  C13: A replay is read to its end. When the program exits with 0, it connected; it took the recording
  that was asked for, or the latest one listed for the channel and stream; it had the archive
  replay it from the position given, for the greatest length, on the next stream id, and
  subscribed to the session of this replay; and then it polled, asking after each empty poll
  whether a stream had ended, until the first such answer that was not 0, unless it was
  interrupted before.
\<close>

theorem subscriber_replays_to_the_end:
  assumes "break_stops (se_env X)" and "subscriber_main X opt tr = Some (0, tr')"
  shows "\<exists>a tr0 recordingId b tr1 v tr2 chan subId tr3 rounds.
     connect_configured X (so_file opt) tr = Some (Inr a, tr0) \<and> archive_ok a \<and> same_client a b \<and>
     (if so_recId opt \<noteq> - 1 then recordingId = so_recId opt \<and> b = a \<and> tr1 = tr0
      else findLatestRecordingId (se_sbe X) (se_env X) 0 (so_channel opt) (so_streamId opt) a tr0 =
        Some (Inr recordingId, b, tr1)) \<and>
     exchanged (se_sbe X) (se_env X) b
       (operation_request (StartReplay recordingId (so_position opt) (2 ^ 63 - 1) (so_channel opt) (so_streamId opt + 1))
         (aa_controlSessionId a)) ''start replay'' tr1 (Inr v) tr2 \<and>
     session_channel (se_layout X) (so_channel opt) (ucast v) chan \<and>
     registered (se_env X) Sub chan (so_streamId opt + 1) tr2 subId tr3 \<and>
     tr' = concat (map poll_round rounds) @ tr3 \<and>
     list_all (\<lambda>r. \<not> ends_stream r) (tl rounds) \<and>
     (rounds \<noteq> [] \<and> ends_stream (hd rounds) \<or> list_all (\<lambda>r. \<not> ends_stream r) rounds \<and> \<not> se_running X tr')"
proof -
  have body: "\<exists>u. subscriber_body X opt tr = Some (Inr u, tr')"
    using assms(2) by (auto simp: subscriber_main_def exit_code_def split: if_splits option.splits sum.splits)
  then obtain a tr0 where conn: "connect_configured X (so_file opt) tr = Some (Inr a, tr0)"
    by (auto simp: subscriber_body_def Let_def split: option.splits sum.splits)
  have ok: "archive_ok a" by (rule configured_ready [OF assms(1) conn])
  let ?search = "if so_recId opt \<noteq> - 1 then Some (Inr (so_recId opt), a, tr0)
     else findLatestRecordingId (se_sbe X) (se_env X) 0 (so_channel opt) (so_streamId opt) a tr0"
  obtain recordingId b tr1 where search: "?search = Some (Inr recordingId, b, tr1)"
    using body conn by (auto simp: subscriber_body_def Let_def simp del: if_split split: option.splits sum.splits)
  have same: "same_client a b"
    using search findLatest_keeps [OF assms(1) ok] by (auto simp: same_client_def split: if_splits)
  obtain subId c tr3 where replay: "archive_replay (se_sbe X) (se_env X) (se_layout X) recordingId (so_position opt)
      (2 ^ 63 - 1) (so_channel opt) (so_streamId opt + 1) b tr1 = Some (Inr subId, c, tr3)"
    and run: "\<exists>u. loop (replay_poll_step X) (False, tr3) = Some (Inr u, tr')"
    using body unfolding subscriber_body_def Let_def conn option.case sum.case prod.case search
    by (auto split: option.splits sum.splits)
  obtain v tr2 chan where v: "exchanged (se_sbe X) (se_env X) b
       (operation_request (StartReplay recordingId (so_position opt) (2 ^ 63 - 1) (so_channel opt) (so_streamId opt + 1))
         (aa_controlSessionId b)) ''start replay'' tr1 (Inr v) tr2"
      "session_channel (se_layout X) (so_channel opt) (ucast v) chan"
      "registered (se_env X) Sub chan (so_streamId opt + 1) tr2 subId tr3"
    using replay_course [OF assms(1) same_client_ok [OF same ok] replay] by blast
  have cs: "aa_controlSessionId b = aa_controlSessionId a" using same by (simp add: same_client_def)
  obtain eos where eos: "polled_rounds tr3 eos tr'" "eos \<or> \<not> se_running X tr'"
    using run replay_loop_course by blast
  then obtain rounds where rounds: "tr' = concat (map poll_round rounds) @ tr3"
      "list_all (\<lambda>r. \<not> ends_stream r) (if eos then tl rounds else rounds)"
      "eos \<longrightarrow> rounds \<noteq> [] \<and> ends_stream (hd rounds)"
    unfolding polled_rounds_def by blast
  have "list_all (\<lambda>r. \<not> ends_stream r) (tl rounds)"
    using rounds(2) by (cases rounds) (auto split: if_splits)
  moreover have "rounds \<noteq> [] \<and> ends_stream (hd rounds) \<or> list_all (\<lambda>r. \<not> ends_stream r) rounds \<and> \<not> se_running X tr'"
    using rounds(2,3) eos(2) by (auto split: if_splits)
  moreover have "if so_recId opt \<noteq> - 1 then recordingId = so_recId opt \<and> b = a \<and> tr1 = tr0
      else findLatestRecordingId (se_sbe X) (se_env X) 0 (so_channel opt) (so_streamId opt) a tr0 =
        Some (Inr recordingId, b, tr1)"
    using search by (auto split: if_splits)
  ultimately show ?thesis using conn ok same v [unfolded cs] rounds(1) by blast
qed

definition sample_subscriber_options :: subscriber_options where
  "sample_subscriber_options = subscriber_defaults\<lparr>so_channel := ''aeron:ipc'', so_recId := 3\<rparr>"

lemma server_replays:
  assumes "served a" and "fits (operation_request (StartReplay rid pos len ''aeron:ipc'' streamId) 5 7)"
  shows "\<exists>b tr1. archive_replay sample_sbe server_env (\<lambda>_ _ _. 0) rid pos len ''aeron:ipc'' streamId a tr =
     Some (Inr 1, b, tr1)"
proof -
  let ?op = "StartReplay rid pos len ''aeron:ipc'' streamId"
  obtain b tr1 where "perform sample_sbe server_env ?op a tr = Some (Inr (Value64 42), b, tr1)"
    using server_performs [OF assms] by fastforce
  then have "archive_startReplay sample_sbe server_env rid pos len ''aeron:ipc'' streamId a tr = Some (Inr 42, b, tr1)"
    by (auto simp: answers_def bind_result_def split: option.splits sum.splits)
  moreover have "addSessionId (\<lambda>_ _ _. 0) ''aeron:ipc'' 42 = Inr ''aeron:ipc?session-id=42''"
    by code_simp
  ultimately show ?thesis by (simp add: archive_replay_def server_add_and_find)
qed

lemma server_stream_ends: "loop (replay_poll_step server_world) (False, tr) = Some (Inr (), poll_round (0, 1) @ tr)"
  by (simp add: loop_unfold replay_poll_step_def call_pollData_def call_pollEndOfStreams_def call_defs Let_def)

lemma subscriber_replays_to_the_end_witness:
  "\<exists>tr' (a :: aeron_archive) b v tr1 tr2 chan subId tr3. subscriber_main server_world sample_subscriber_options [] = Some (0, tr') \<and>
     exchanged sample_sbe server_env b (operation_request (StartReplay 3 0 (2 ^ 63 - 1) ''aeron:ipc'' 11)
       (aa_controlSessionId a)) ''start replay'' tr1 (Inr v) tr2 \<and>
     registered server_env Sub chan 11 tr2 subId tr3"
proof -
  obtain a tr0 where conn: "connect_configured server_world [] [] = Some (Inr a, tr0)" "served a"
    using server_configured by blast
  have "fits (operation_request (StartReplay 3 0 (2 ^ 63 - 1) ''aeron:ipc'' 11) 5 7)"
    by (simp add: fits_def body_bytes_def widen_def narrow_def wide32_def)
  then obtain b tr1 where "archive_replay sample_sbe server_env (\<lambda>_ _ _. 0) 3 0 (2 ^ 63 - 1) ''aeron:ipc'' 11 a tr0 =
      Some (Inr 1, b, tr1)"
    using server_replays [OF conn(2)] by blast
  then have "subscriber_body server_world sample_subscriber_options [] = Some (Inr (), poll_round (0, 1) @ tr1)"
    using conn(1) server_stream_ends [of tr1]
    by (simp add: subscriber_body_def sample_subscriber_options_def subscriber_defaults_def server_world_def)
  then have run: "subscriber_main server_world sample_subscriber_options [] = Some (0, poll_round (0, 1) @ tr1)"
    by (simp add: subscriber_main_def sample_subscriber_options_def subscriber_defaults_def exit_code_def)
  let ?opt = sample_subscriber_options
  have stops: "break_stops (se_env server_world)" by (simp add: server_break_stops)
  have recId: "so_recId ?opt \<noteq> - 1" by (simp add: sample_subscriber_options_def subscriber_defaults_def)
  obtain a :: aeron_archive and b recordingId v tr1' tr2 chan subId tr3 where ex:
      "exchanged sample_sbe server_env b (operation_request (StartReplay recordingId (so_position ?opt) (2 ^ 63 - 1)
         (so_channel ?opt) (so_streamId ?opt + 1)) (aa_controlSessionId a)) ''start replay'' tr1' (Inr v) tr2"
      "registered server_env Sub chan (so_streamId ?opt + 1) tr2 subId tr3"
      "recordingId = so_recId ?opt"
    using subscriber_replays_to_the_end [OF stops run] unfolding if_P [OF recId] server_world_fields
    by blast
  moreover have "recordingId = 3" using ex(3) by (simp add: sample_subscriber_options_def subscriber_defaults_def)
  moreover have "so_position ?opt = 0" "so_channel ?opt = ''aeron:ipc''" "so_streamId ?opt + 1 = 11"
    by (simp_all add: sample_subscriber_options_def subscriber_defaults_def)
  ultimately show ?thesis using run by metis
qed

end
