(* ===== verification/DriverControl.thy ===== *)
theory DriverControl
  imports SampleServer
begin

text \<open>
  The sample that controls an archive from the command line (\<^verbatim>\<open>samples/DriverControl.cpp\<close>): the choice
  by the command, and the program.
\<close>

section \<open>The model\<close>

record control_options =
  co_help :: bool
  co_channel :: string
  co_streamId :: int32
  co_remoteLocation :: bool
  co_command :: string
  co_recId :: int64
  co_file :: string

definition control_defaults :: control_options where
  "control_defaults = \<lparr>co_help = False, co_channel = ''aeron:udp?endpoint=localhost:40123'', co_streamId = 10,
     co_remoteLocation = False, co_command = [], co_recId = - 1, co_file = []\<rparr>"

text \<open>What a call of the client leaves for the program: whether it threw, and the history.\<close>

definition outcome :: "('a result \<times> aeron_archive \<times> trace) option \<Rightarrow> (unit result \<times> trace) option" where
  "outcome x = (case x of None \<Rightarrow> None | Some (r, _, tr) \<Rightarrow> Some (map_sum id (\<lambda>_. ()) r, tr))"

definition control_dispatch ::
  "samples_env \<Rightarrow> control_options \<Rightarrow> aeron_archive \<Rightarrow> trace \<Rightarrow> (unit result \<times> trace) option" where
  "control_dispatch X opt a tr =
     (let location = if co_remoteLocation opt then REMOTE else LOCAL
      in if ''start'' = co_command opt then
           outcome (archive_startRecording (se_sbe X) (se_env X) (co_channel opt) (co_streamId opt) location a tr)
         else if ''stop'' = co_command opt then
           outcome (archive_stopRecording (se_sbe X) (se_env X) (co_channel opt) (co_streamId opt) a tr)
         else if ''list'' = co_command opt then
           outcome (findLatestRecordingId (se_sbe X) (se_env X) 0 (co_channel opt) (co_streamId opt) a tr)
         else if ''list-all'' = co_command opt then
           outcome (findAllRecordingIds (se_sbe X) (se_env X) 0 a tr)
         else if ''delete'' = co_command opt then
           (if co_recId opt \<noteq> - 1
            then outcome (archive_truncateRecording (se_sbe X) (se_env X) (co_recId opt) 0 a tr)
            else Some (Inr (), tr))
         else Some (Inr (), tr))"

definition control_body :: "samples_env \<Rightarrow> control_options \<Rightarrow> trace \<Rightarrow> (unit result \<times> trace) option" where
  "control_body X opt tr =
     (case connect_configured X (co_file opt) tr of
        None \<Rightarrow> None
      | Some (Inl e, tr1) \<Rightarrow> Some (Inl e, tr1)
      | Some (Inr a, tr1) \<Rightarrow> control_dispatch X opt a tr1)"

definition control_main :: "samples_env \<Rightarrow> control_options \<Rightarrow> trace \<Rightarrow> (nat \<times> trace) option" where
  "control_main X opt tr =
     (if co_help opt \<or> co_command opt = [] then Some (1, tr) else exit_code (control_body X opt tr))"

section \<open>What the commands ask for\<close>

text \<open>The meaning of the command line: one operation of the client, one listing, or nothing.\<close>

datatype effect = Operation operation | Listing listing | Nothing

definition command_table :: "control_options \<Rightarrow> (string \<times> effect) list" where
  "command_table opt =
     [(''start'', Operation (StartRecording (co_channel opt) (co_streamId opt) (if co_remoteLocation opt then REMOTE else LOCAL))),
      (''stop'', Operation (StopRecording (co_channel opt) (co_streamId opt))),
      (''list'', Listing (ListRecordingsForUri 0 100 (co_channel opt) (co_streamId opt))),
      (''list-all'', Listing (ListRecordings 0 100)),
      (''delete'', if co_recId opt = - 1 then Nothing else Operation (TruncateRecording (co_recId opt) 0))]"

definition command_effect :: "control_options \<Rightarrow> effect" where
  "command_effect opt = (case map_of (command_table opt) (co_command opt) of None \<Rightarrow> Nothing | Some x \<Rightarrow> x)"

fun perform_effect ::
  "samples_env \<Rightarrow> effect \<Rightarrow> aeron_archive \<Rightarrow> trace \<Rightarrow> (unit result \<times> trace) option" where
  "perform_effect X (Operation o') a tr = outcome (perform (se_sbe X) (se_env X) o' a tr)"
| "perform_effect X (Listing l) a tr = outcome (perform_listing (se_sbe X) (se_env X) l 0 a tr)"
| "perform_effect X Nothing a tr = Some (Inr (), tr)"

lemma outcome_answers: "outcome (answers f x) = outcome x"
  by (auto simp: outcome_def answers_def bind_result_def split: option.splits sum.splits)

lemma outcome_drop: "outcome (drop_value x) = outcome x"
  by (auto simp: outcome_def drop_value_def bind_result_def split: option.splits sum.splits)

lemma outcome_findLatest:
  "outcome (findLatestRecordingId S E c channel streamId a tr) =
     outcome (archive_listRecordingsForUri S E 0 100 channel streamId c a tr)"
  by (auto simp: outcome_def findLatestRecordingId_def split: option.splits sum.splits)

lemma control_dispatch_effect: "control_dispatch X opt a tr = perform_effect X (command_effect opt) a tr"
  by (auto simp: control_dispatch_def Let_def command_effect_def command_table_def outcome_answers outcome_drop
      outcome_findLatest findAllRecordingIds_def)

section \<open>The course of the program\<close>

lemma outcome_perform:
  assumes "break_stops E" and "archive_ok a" and "outcome (perform S E o' a tr) = Some (r, tr')"
  shows "\<exists>x. exchanged S E a (operation_request o' (aa_controlSessionId a)) (operation_name o') tr x tr' \<and>
     (isl r \<longleftrightarrow> isl x)"
proof -
  obtain y a' where y: "perform S E o' a tr = Some (y, a', tr')" "r = map_sum id (\<lambda>_. ()) y"
    using assms(3) by (auto simp: outcome_def split: option.splits)
  obtain x where "exchanged S E a (operation_request o' (aa_controlSessionId a)) (operation_name o') tr x tr'"
      "y = bind_result x (\<lambda>v. Inr (operation_answer o' v))"
    using perform_outcome [OF assms(1,2) y(1)] by blast
  then show ?thesis using y(2) by (intro exI [of _ x]) (cases x; simp)
qed

lemma outcome_perform_listing:
  assumes "break_stops E" and "archive_ok a" and "outcome (perform_listing S E l c a tr) = Some (r, tr')"
  shows "(isl r \<longleftrightarrow> (\<nexists>n a'. perform_listing S E l c a tr = Some (Inr n, a', tr'))) \<and> tidy tr tr'"
proof -
  obtain y a' where y: "perform_listing S E l c a tr = Some (y, a', tr')" "r = map_sum id (\<lambda>_. ()) y"
    using assms(3) by (auto simp: outcome_def split: option.splits)
  then show ?thesis using perform_listing_locks [OF assms(1,2) y(1)] by (cases y) auto
qed

text \<open>
  C14: The control program does what its command says. With \<^verbatim>\<open>help\<close> or without a command it exits with 1
  and does nothing else. Otherwise, if the client cannot be made it exits with 1; else, on a
  client that is ready, \<^verbatim>\<open>start\<close>, \<^verbatim>\<open>stop\<close> and \<^verbatim>\<open>delete\<close> with a recording id make one exchange, whose
  request is that of the operation with the arguments of the options (\<^verbatim>\<open>delete\<close> truncates to 0), and
  the exit code is 0 exactly when the answer was no error; \<^verbatim>\<open>list\<close> and \<^verbatim>\<open>list-all\<close> make the listing of
  100 recordings, with 0 exactly when it returned a number; and every other command, as \<^verbatim>\<open>delete\<close>
  without an id, does nothing with the client and exits with 0.
\<close>

theorem control_performs_its_command:
  assumes "break_stops (se_env X)" and "control_main X opt tr = Some (c, tr')"
  shows "if co_help opt \<or> co_command opt = [] then c = 1 \<and> tr' = tr
     else (\<exists>e. connect_configured X (co_file opt) tr = Some (Inl e, tr')) \<and> c = 1 \<or>
       (\<exists>a tr0. connect_configured X (co_file opt) tr = Some (Inr a, tr0) \<and> archive_ok a \<and> c \<le> 1 \<and>
          (case command_effect opt of
             Nothing \<Rightarrow> c = 0 \<and> tr' = tr0
           | Operation o' \<Rightarrow>
               (\<exists>x. exchanged (se_sbe X) (se_env X) a (operation_request o' (aa_controlSessionId a)) (operation_name o')
                  tr0 x tr' \<and> (c = 1 \<longleftrightarrow> isl x))
           | Listing l \<Rightarrow>
               tidy tr0 tr' \<and>
               (c = 1 \<longleftrightarrow> (\<nexists>n b. perform_listing (se_sbe X) (se_env X) l 0 a tr0 = Some (Inr n, b, tr')))))"
proof (cases "co_help opt \<or> co_command opt = []")
  case False
  then obtain r where r: "control_body X opt tr = Some (r, tr')" "c = (case r of Inl _ \<Rightarrow> 1 | Inr _ \<Rightarrow> 0)"
    using assms(2) by (auto simp: control_main_def exit_code_def split: option.splits)
  then have c: "c \<le> 1" "c = 1 \<longleftrightarrow> isl r" by (auto split: sum.splits)
  obtain y tr0 where conn: "connect_configured X (co_file opt) tr = Some (y, tr0)"
    using r(1) by (auto simp: control_body_def split: option.splits)
  show ?thesis
  proof (cases y)
    case (Inl e)
    then show ?thesis using False conn r c(2) by (auto simp: control_body_def)
  next
    case (Inr a)
    then have ok: "archive_ok a" using configured_ready [OF assms(1)] conn by blast
    have "perform_effect X (command_effect opt) a tr0 = Some (r, tr')"
      using r(1) conn Inr by (simp add: control_body_def control_dispatch_effect)
    then have "case command_effect opt of
         Nothing \<Rightarrow> c = 0 \<and> tr' = tr0
       | Operation o' \<Rightarrow>
           (\<exists>x. exchanged (se_sbe X) (se_env X) a (operation_request o' (aa_controlSessionId a)) (operation_name o')
              tr0 x tr' \<and> (c = 1 \<longleftrightarrow> isl x))
       | Listing l \<Rightarrow>
           tidy tr0 tr' \<and>
           (c = 1 \<longleftrightarrow> (\<nexists>n b. perform_listing (se_sbe X) (se_env X) l 0 a tr0 = Some (Inr n, b, tr')))"
      using outcome_perform [OF assms(1) ok] outcome_perform_listing [OF assms(1) ok] r(2)
      unfolding c(2) by (cases "command_effect opt") auto
    then show ?thesis using False conn Inr ok c(1) by auto
  qed
qed (use assms(2) in \<open>simp add: control_main_def\<close>)

lemma control_performs_its_command_witness:
  "\<exists>tr' a tr0 v. control_main server_world (control_defaults\<lparr>co_channel := ''aeron:ipc'', co_remoteLocation := True, co_command := ''start''\<rparr>) [] = Some (0, tr') \<and>
     exchanged sample_sbe server_env a (operation_request (StartRecording ''aeron:ipc'' 10 REMOTE) (aa_controlSessionId a))
       ''start recording'' tr0 (Inr v) tr'"
proof -
  let ?opt = "control_defaults\<lparr>co_channel := ''aeron:ipc'', co_remoteLocation := True, co_command := ''start''\<rparr>"
  let ?op = "StartRecording ''aeron:ipc'' 10 REMOTE"
  obtain a tr0 where conn: "connect_configured server_world [] [] = Some (Inr a, tr0)" "served a"
    using server_configured by blast
  have "fits (operation_request ?op 5 7)"
    by (simp add: fits_def body_bytes_def widen_def narrow_def wide32_def)
  then obtain b tr' where "perform sample_sbe server_env ?op a tr0 = Some (Inr (Value64 42), b, tr')"
    using server_performs [OF conn(2)] by fastforce
  moreover have eff: "command_effect ?opt = Operation ?op" by (simp add: command_effect_def command_table_def control_defaults_def)
  ultimately have run: "control_main server_world ?opt [] = Some (0, tr')"
    using conn(1) by (simp add: control_main_def control_body_def control_dispatch_effect outcome_def exit_code_def
      control_defaults_def)
  have stops: "break_stops (se_env server_world)" by (simp add: server_break_stops)
  obtain a1 tr1 x where "exchanged sample_sbe server_env a1 (operation_request ?op (aa_controlSessionId a1))
      (operation_name ?op) tr1 x tr'" "\<not> isl x"
    using control_performs_its_command [OF stops run] unfolding eff by (auto simp: control_defaults_def)
  then show ?thesis using run by (cases x) auto
qed

end
