(* ===== verification/RecordingEventsAdapter.thy ===== *)
theory RecordingEventsAdapter
  imports ControlResponsePoller
begin

text \<open>
  The adapter that turns recording event messages into callbacks
  (\<^verbatim>\<open>src/RecordingEventsAdapter.cpp\<close>, \<^verbatim>\<open>.h\<close>). Its poll is the uncontrolled one: the handler
  always goes on. \<open>event_callback\<close> is the callback that one message asks for.
\<close>

section \<open>The model\<close>

record recording_events_adapter =
  ea_fragmentLimit :: int32

definition mk_RecordingEventsAdapter :: "int32 \<Rightarrow> recording_events_adapter" where
  "mk_RecordingEventsAdapter fragmentLimit = \<lparr>ea_fragmentLimit = fragmentLimit\<rparr>"

definition call_and_continue ::
  "env \<Rightarrow> callback \<Rightarrow> recording_events_adapter \<Rightarrow> trace \<Rightarrow>
     ControlledPollAction result \<times> recording_events_adapter \<times> trace" where
  "call_and_continue E cb a tr =
     (case call_callback E cb tr of
        (Inl e, tr1) \<Rightarrow> (Inl e, a, tr1)
      | (Inr _, tr1) \<Rightarrow> (Inr CONTINUE, a, tr1))"

definition events_fragmentHandler :: "sbe \<Rightarrow> env \<Rightarrow> recording_events_adapter handler" where
  "events_fragmentHandler S E a f tr =
     (case sbe_readHeader S (buffer f) (offset f) of
        Inl e \<Rightarrow> (Inl e, a, tr)
      | Inr hdr \<Rightarrow>
          (if templateId hdr = sbe_RecordingStarted S then
             (case sbe_readRecordingStarted S (buffer f) (offset f + sbe_headerLength S)
                     (blockLength hdr) (version hdr) of
                Inl e \<Rightarrow> (Inl e, a, tr)
              | Inr msg \<Rightarrow> call_and_continue E (OnStart msg) a tr)
           else if templateId hdr = sbe_RecordingProgress S then
             (case sbe_readRecordingProgress S (buffer f) (offset f + sbe_headerLength S)
                     (blockLength hdr) (version hdr) of
                Inl e \<Rightarrow> (Inl e, a, tr)
              | Inr msg \<Rightarrow>
                  call_and_continue E
                    (OnProgress (rp_recordingId msg) (rp_startPosition msg) (rp_position msg)) a tr)
           else if templateId hdr = sbe_RecordingStopped S then
             (case sbe_readRecordingStopped S (buffer f) (offset f + sbe_headerLength S)
                     (blockLength hdr) (version hdr) of
                Inl e \<Rightarrow> (Inl e, a, tr)
              | Inr msg \<Rightarrow>
                  call_and_continue E
                    (OnStop (rp_recordingId msg) (rp_startPosition msg) (rp_position msg)) a tr)
           else (Inl (unknown_template (templateId hdr)), a, tr)))"

definition events_poll ::
  "sbe \<Rightarrow> env \<Rightarrow> recording_events_adapter \<Rightarrow> trace \<Rightarrow> int32 result \<times> recording_events_adapter \<times> trace"
where
  "events_poll S E a tr = controlledPoll E (events_fragmentHandler S E) (ea_fragmentLimit a) a tr"

section \<open>The callback of a message\<close>

definition event_callback :: "sbe \<Rightarrow> fragment \<Rightarrow> callback result" where
  "event_callback S f =
     bind_result (sbe_readHeader S (buffer f) (offset f)) (\<lambda>hdr.
       let body = offset f + sbe_headerLength S
       in if templateId hdr = sbe_RecordingStarted S then
            bind_result (sbe_readRecordingStarted S (buffer f) body (blockLength hdr) (version hdr))
              (\<lambda>m. Inr (OnStart m))
          else if templateId hdr = sbe_RecordingProgress S then
            bind_result (sbe_readRecordingProgress S (buffer f) body (blockLength hdr) (version hdr))
              (\<lambda>m. Inr (OnProgress (rp_recordingId m) (rp_startPosition m) (rp_position m)))
          else if templateId hdr = sbe_RecordingStopped S then
            bind_result (sbe_readRecordingStopped S (buffer f) body (blockLength hdr) (version hdr))
              (\<lambda>m. Inr (OnStop (rp_recordingId m) (rp_startPosition m) (rp_position m)))
          else Inl (unknown_template (templateId hdr)))"

fun successful :: "'a result \<Rightarrow> 'a option" where
  "successful (Inl _) = None"
| "successful (Inr x) = Some x"

lemma events_fragmentHandler_calls:
  "events_fragmentHandler S E a f tr =
     (case event_callback S f of
        Inl e \<Rightarrow> (Inl e, a, tr)
      | Inr cb \<Rightarrow>
          (case env_callback E (Called cb # tr) of
             None \<Rightarrow> (Inr CONTINUE, a, Called cb # tr)
           | Some e \<Rightarrow> (Inl e, a, Called cb # tr)))"
  by (auto simp: events_fragmentHandler_def event_callback_def call_and_continue_def call_defs Let_def
      bind_result_def split: sum.splits option.splits)

text \<open>Since the history \<open>tr0\<close>, the callbacks made are those the delivered messages ask for.\<close>

definition events_dispatched :: "sbe \<Rightarrow> trace \<Rightarrow> trace \<Rightarrow> bool" where
  "events_dispatched S tr0 tr \<longleftrightarrow>
     (\<exists>es. tr = es @ tr0 \<and>
        callbacks es = List.map_filter (\<lambda>f. successful (event_callback S f)) (deliveries es))"

lemma events_dispatched_step:
  assumes "events_dispatched S tr0 tr" and
    "callbacks es = List.map_filter (\<lambda>f. successful (event_callback S f)) (deliveries es)"
  shows "events_dispatched S tr0 (es @ tr)"
proof -
  obtain xs where "tr = xs @ tr0"
      "callbacks xs = List.map_filter (\<lambda>f. successful (event_callback S f)) (deliveries xs)"
    using assms(1) by (auto simp: events_dispatched_def)
  then show ?thesis
    using assms(2) unfolding events_dispatched_def
    by (intro exI [of _ "es @ xs"]) (simp add: List.map_filter_def)
qed

interpretation events_dispatch: fragment_handler "events_fragmentHandler S E"
  "\<lambda>a tr. a = a0 \<and> events_dispatched S tr0 tr" for S E a0 tr0
proof unfold_locales
  fix e s and tr :: trace
  assume "poll_event e" "\<not> is_delivery e" "s = a0 \<and> events_dispatched S tr0 tr"
  then show "s = a0 \<and> events_dispatched S tr0 (e # tr)"
    using events_dispatched_step [of S tr0 tr "[e]"] by (cases e) (auto simp: List.map_filter_simps)
next
  fix s f r s' and tr tr' :: trace
  assume inv: "s = a0 \<and> events_dispatched S tr0 tr"
    and h: "events_fragmentHandler S E s f (Delivered f # tr) = (r, s', tr')"
  show "s' = a0 \<and> events_dispatched S tr0 tr'"
  proof (cases "event_callback S f")
    case (Inl e)
    then show ?thesis
      using inv h events_dispatched_step [of S tr0 tr "[Delivered f]"]
      by (auto simp: events_fragmentHandler_calls List.map_filter_simps)
  next
    case (Inr cb)
    then have "s' = a0 \<and> tr' = [Called cb, Delivered f] @ tr"
      using inv h by (auto simp: events_fragmentHandler_calls split: option.splits)
    then show ?thesis
      using inv Inr events_dispatched_step [of S tr0 tr "[Called cb, Delivered f]"]
      by (simp add: List.map_filter_simps)
  qed
qed

section \<open>Correctness\<close>

text \<open>
  C35: A poll of the adapter makes exactly the callbacks that the delivered messages ask for, in
  their order: started, progress and stopped messages call the callback of their kind with the
  fields of the message. A message of another kind, or one that does not decode, makes none.
  The adapter keeps no state.
\<close>

theorem events_poll_dispatches:
  "case events_poll S E a tr of (x, a', tr') \<Rightarrow>
     a' = a \<and>
     (\<exists>es. tr' = es @ tr \<and>
        callbacks es = List.map_filter (\<lambda>f. successful (event_callback S f)) (deliveries es))"
proof -
  obtain x a' tr' where run: "events_poll S E a tr = (x, a', tr')"
    by (cases "events_poll S E a tr")
  have "events_dispatched S tr tr"
    by (auto simp: events_dispatched_def List.map_filter_simps intro!: exI [of _ "[]"])
  then have "a' = a \<and> events_dispatched S tr tr'"
    using events_dispatch.inv_controlledPoll [of a a S tr tr E] run by (auto simp: events_poll_def)
  then show ?thesis by (simp add: run events_dispatched_def)
qed

end
