(* ===== verification/RecordingThroughput.thy ===== *)
theory RecordingThroughput
  imports SampleServer RecordingEventsAdapter "HOL-Library.Signed_Division"
begin

text \<open>
  The sample that measures the throughput of a recording (\<^verbatim>\<open>samples/RecordingThroughput.cpp\<close>): an object
  that the main thread and a polling thread share. The process is a step relation. A step of a
  thread goes from one access to the shared members to the next; an exchange with the archive
  and a poll are one step each, as the threads share nothing else. The members are taken to be
  sequentially consistent (in the code they are plain, and racing on them is undefined). What is undefined
  in C++ otherwise, a division by 0 and the first element of an empty vector, ends the process in
  the state \<open>Undefined\<close>.
\<close>

section \<open>The messages and the rates\<close>

definition FRAGMENTS_LIMIT :: int32 where "FRAGMENTS_LIMIT = 10"

text \<open>The bytes that \<^verbatim>\<open>putInt32\<close> leaves in memory on a little-endian machine.\<close>

definition int32_bytes :: "int32 \<Rightarrow> byte list" where
  "int32_bytes w = map (\<lambda>k. ucast (drop_bit (8 * k) w)) [0..<4]"

definition message_value :: "int32 \<Rightarrow> int32" where
  "message_value i = 97 + word_of_int (sint i smod (122 - 97))"

definition message_bytes :: "int32 \<Rightarrow> int32 \<Rightarrow> byte list" where
  "message_bytes messageLength i = int32_bytes (message_value i) @ replicate (nat (sint messageLength) - 4) 0"

text \<open>Durations are nanoseconds; \<^verbatim>\<open>duration_cast\<close> cuts towards zero.\<close>

definition duration_ms :: "int64 \<Rightarrow> int64" where
  "duration_ms d = word_of_int (sint d sdiv 1000000)"

text \<open>The integer division of C++, undefined for the divisor 0.\<close>

definition message_rate :: "int32 \<Rightarrow> int64 \<Rightarrow> int64 option" where
  "message_rate n durationMs =
     (if durationMs = 0 then None else Some (word_of_int (sint n sdiv sint durationMs) * 1000))"

section \<open>The object and the two threads\<close>

record throughput =
  rt_disableRecording :: bool
  rt_archive :: aeron_archive
  rt_channel :: string
  rt_streamId :: int32
  rt_numberOfMessages :: int32
  rt_messageLength :: int32
  rt_stopPosition :: int64
  rt_isRecording :: bool
  rt_recordingStartTime :: int64

text \<open>
  Where the main thread is: in \<^verbatim>\<open>startRecording\<close>; in \<^verbatim>\<open>streamMessagesForRecording\<close>, at one of the
  places between which the other thread may run; at the question whether to repeat; in the
  destructor, with the exit code it is on its way to; or at the end of the process.
\<close>

datatype main_pc =
    Starting
  | Adding
  | Arming int64
  | Limiting int64
  | Timing int64
  | Publishing int64 int64 int32
  | Positioning int64 int64
  | Rating int64
  | Waiting
  | Asking
  | Joining nat
  | Stopping nat
  | Exited nat
  | Terminated
  | Undefined

text \<open>Where the polling thread is; a poll has made its calls, and the handlers are to run.\<close>

datatype poller_pc =
    Subscribing
  | Polling
  | Handling "callback list" "int32 result"
  | Ended

record throughput_system = throughput +
  rt_main :: main_pc
  rt_poller :: poller_pc
  rt_running :: bool
  rt_history :: trace

section \<open>The handlers\<close>

fun OnStartHandler :: "recording_started \<Rightarrow> throughput_system \<Rightarrow> throughput_system" where
  "OnStartHandler _ s = s"

definition OnProgressHandler ::
  "samples_env \<Rightarrow> int64 \<Rightarrow> int64 \<Rightarrow> int64 \<Rightarrow> throughput_system \<Rightarrow> throughput_system" where
  "OnProgressHandler X recordingId startPosition position s =
     (if rt_stopPosition s \<le>s position then
        (case call_now (se_env X) (rt_history s) of
           (t, tr) \<Rightarrow>
             (case message_rate (rt_numberOfMessages s) (duration_ms (t - rt_recordingStartTime s)) of
                None \<Rightarrow> s\<lparr>rt_history := tr, rt_main := Undefined\<rparr>
              | Some _ \<Rightarrow> s\<lparr>rt_history := tr, rt_isRecording := False\<rparr>))
      else s)"

definition OnStopHandler :: "int64 \<Rightarrow> int64 \<Rightarrow> int64 \<Rightarrow> throughput_system \<Rightarrow> throughput_system" where
  "OnStopHandler recordingId startPosition position s = s\<lparr>rt_isRecording := False\<rparr>"

fun handle :: "samples_env \<Rightarrow> callback \<Rightarrow> throughput_system \<Rightarrow> throughput_system" where
  "handle X (OnStart m) s = OnStartHandler m s"
| "handle X (OnProgress r p q) s = OnProgressHandler X r p q s"
| "handle X (OnStop r p q) s = OnStopHandler r p q s"
| "handle X (Consumer _ _ _ _) s = s"

section \<open>The polling thread\<close>

definition poller_step :: "samples_env \<Rightarrow> throughput_system \<Rightarrow> throughput_system option" where
  "poller_step X s =
     (case rt_poller s of
        Subscribing \<Rightarrow>
          (if rt_disableRecording s then Some (s\<lparr>rt_poller := Ended\<rparr>)
           else
             (case add_and_find (se_env X) Sub (get_recordingEventsChannel (aa_ctx (rt_archive s)))
                     (get_recordingEventsStreamId (aa_ctx (rt_archive s))) (rt_history s) of
                None \<Rightarrow> None
              | Some (Inl _, tr) \<Rightarrow> Some (s\<lparr>rt_poller := Ended, rt_history := tr\<rparr>)
              | Some (Inr _, tr) \<Rightarrow> Some (s\<lparr>rt_poller := Polling, rt_history := tr\<rparr>)))
      | Polling \<Rightarrow>
          (if rt_running s then
             (case events_poll (se_sbe X) (se_env X) (mk_RecordingEventsAdapter FRAGMENTS_LIMIT) (rt_history s) of
                (r, _, tr) \<Rightarrow>
                  Some (s\<lparr>rt_poller := Handling (rev (callbacks (since (rt_history s) tr))) r, rt_history := tr\<rparr>))
           else Some (s\<lparr>rt_poller := Ended\<rparr>))
      | Handling (cb # cbs) r \<Rightarrow> Some (handle X cb (s\<lparr>rt_poller := Handling cbs r\<rparr>))
      | Handling [] (Inl _) \<Rightarrow> Some (s\<lparr>rt_poller := Ended\<rparr>)
      | Handling [] (Inr _) \<Rightarrow> Some (s\<lparr>rt_poller := Polling, rt_history := call_idle (rt_history s)\<rparr>)
      | Ended \<Rightarrow> None)"

section \<open>The main thread\<close>

definition start_step :: "samples_env \<Rightarrow> throughput_system \<Rightarrow> throughput_system option" where
  "start_step X s =
     (if rt_disableRecording s then Some (s\<lparr>rt_main := Adding\<rparr>)
      else
        (case archive_startRecording (se_sbe X) (se_env X) (rt_channel s) (rt_streamId s) LOCAL (rt_archive s) (rt_history s) of
           None \<Rightarrow> None
         | Some (Inl _, a, tr) \<Rightarrow> Some (s\<lparr>rt_archive := a, rt_history := tr, rt_main := Joining 1\<rparr>)
         | Some (Inr _, a, tr) \<Rightarrow> Some (s\<lparr>rt_archive := a, rt_history := tr, rt_main := Adding\<rparr>)))"

definition add_step :: "samples_env \<Rightarrow> throughput_system \<Rightarrow> throughput_system option" where
  "add_step X s =
     (case add_and_find (se_env X) ExclusivePub (rt_channel s) (rt_streamId s) (rt_history s) of
        None \<Rightarrow> None
      | Some (Inl _, tr) \<Rightarrow> Some (s\<lparr>rt_history := tr, rt_main := Joining 1\<rparr>)
      | Some (Inr pubId, tr) \<Rightarrow> Some (s\<lparr>rt_history := tr, rt_main := Arming pubId\<rparr>))"

definition time_step :: "samples_env \<Rightarrow> int64 \<Rightarrow> throughput_system \<Rightarrow> throughput_system" where
  "time_step X pubId s =
     (case call_now (se_env X) (rt_history s) of
        (t, tr1) \<Rightarrow>
          (if rt_messageLength s <s 0 then s\<lparr>rt_recordingStartTime := t, rt_history := tr1, rt_main := Joining 1\<rparr>
           else if rt_messageLength s = 0 then s\<lparr>rt_recordingStartTime := t, rt_history := tr1, rt_main := Undefined\<rparr>
           else
             (case call_now (se_env X) tr1 of
                (start, tr2) \<Rightarrow>
                  s\<lparr>rt_recordingStartTime := t, rt_history := tr2, rt_main := Publishing pubId start 0\<rparr>)))"

definition offer_step :: "samples_env \<Rightarrow> int64 \<Rightarrow> int64 \<Rightarrow> int32 \<Rightarrow> throughput_system \<Rightarrow> throughput_system" where
  "offer_step X pubId start i s =
     (if i <s rt_numberOfMessages s then
        (if rt_messageLength s <s 4 then s\<lparr>rt_main := Joining 1\<rparr>
         else
           (case call_offerData X (message_bytes (rt_messageLength s) i) (rt_history s) of
              (Inl _, tr) \<Rightarrow> s\<lparr>rt_history := tr, rt_main := Joining 1\<rparr>
            | (Inr result, tr) \<Rightarrow>
                (if result <s 0 then s\<lparr>rt_history := call_yield tr\<rparr>
                 else s\<lparr>rt_history := tr, rt_main := Publishing pubId start (i + 1)\<rparr>)))
      else s\<lparr>rt_main := Positioning pubId start\<rparr>)"

definition rate_step :: "samples_env \<Rightarrow> int64 \<Rightarrow> throughput_system \<Rightarrow> throughput_system" where
  "rate_step X start s =
     (case call_now (se_env X) (rt_history s) of
        (t, tr) \<Rightarrow>
          (case message_rate (rt_numberOfMessages s) (duration_ms (t - start)) of
             None \<Rightarrow> s\<lparr>rt_history := tr, rt_main := Undefined\<rparr>
           | Some _ \<Rightarrow> s\<lparr>rt_history := tr, rt_main := Waiting\<rparr>))"

definition stop_step :: "samples_env \<Rightarrow> nat \<Rightarrow> throughput_system \<Rightarrow> throughput_system option" where
  "stop_step X code s =
     (if rt_disableRecording s then Some (s\<lparr>rt_main := Exited code\<rparr>)
      else
        (case archive_stopRecording (se_sbe X) (se_env X) (rt_channel s) (rt_streamId s) (rt_archive s) (rt_history s) of
           None \<Rightarrow> None
         | Some (Inl _, a, tr) \<Rightarrow> Some (s\<lparr>rt_archive := a, rt_history := tr, rt_main := Terminated\<rparr>)
         | Some (Inr _, a, tr) \<Rightarrow> Some (s\<lparr>rt_archive := a, rt_history := tr, rt_main := Exited code\<rparr>)))"

text \<open>The answer to the question whether to repeat; when it is no, the object goes out of scope.\<close>

definition ask_step :: "bool \<Rightarrow> throughput_system \<Rightarrow> throughput_system" where
  [simp]: "ask_step repeat s =
     (if repeat then s\<lparr>rt_main := Adding\<rparr> else s\<lparr>rt_running := False, rt_main := Joining 0\<rparr>)"

definition main_step :: "samples_env \<Rightarrow> bool \<Rightarrow> throughput_system \<Rightarrow> throughput_system option" where
  "main_step X repeat s =
     (case rt_main s of
        Starting \<Rightarrow> start_step X s
      | Adding \<Rightarrow> add_step X s
      | Arming pubId \<Rightarrow> Some (s\<lparr>rt_isRecording := True, rt_main := Limiting pubId\<rparr>)
      | Limiting pubId \<Rightarrow> Some (s\<lparr>rt_stopPosition := 2 ^ 63 - 1, rt_main := Timing pubId\<rparr>)
      | Timing pubId \<Rightarrow> Some (time_step X pubId s)
      | Publishing pubId start i \<Rightarrow> Some (offer_step X pubId start i s)
      | Positioning pubId start \<Rightarrow> Some (s\<lparr>rt_stopPosition := se_position X (rt_history s), rt_main := Rating start\<rparr>)
      | Rating start \<Rightarrow> Some (rate_step X start s)
      | Waiting \<Rightarrow>
          (if \<not> rt_disableRecording s \<and> rt_isRecording s then Some (s\<lparr>rt_history := Slept # rt_history s\<rparr>)
           else Some (s\<lparr>rt_main := Asking\<rparr>))
      | Asking \<Rightarrow> Some (ask_step repeat s)
      | Joining code \<Rightarrow> if rt_poller s = Ended then Some (s\<lparr>rt_main := Stopping code\<rparr>) else None
      | Stopping code \<Rightarrow> stop_step X code s
      | _ \<Rightarrow> None)"

section \<open>The process\<close>

fun over :: "main_pc \<Rightarrow> bool" where
  "over (Exited _) = True"
| "over Terminated = True"
| "over Undefined = True"
| "over _ = False"

text \<open>One step of the process: of one of the threads, or the interrupt signal.\<close>

datatype thread = Main | Poller | Signal

definition sigIntHandler :: "throughput_system \<Rightarrow> throughput_system" where
  [simp]: "sigIntHandler s = s\<lparr>rt_running := False\<rparr>"

inductive throughput_step :: "samples_env \<Rightarrow> throughput_system \<Rightarrow> thread \<Rightarrow> throughput_system \<Rightarrow> bool" for X where
  main: "\<not> over (rt_main s) \<Longrightarrow> main_step X repeat s = Some s' \<Longrightarrow> throughput_step X s Main s'"
| poller: "\<not> over (rt_main s) \<Longrightarrow> poller_step X s = Some s' \<Longrightarrow> throughput_step X s Poller s'"
| signal: "\<not> over (rt_main s) \<Longrightarrow> throughput_step X s Signal (sigIntHandler s)"

text \<open>A run through states of which each, the first and the last included, has a property.\<close>

inductive run_within ::
  "samples_env \<Rightarrow> (throughput_system \<Rightarrow> bool) \<Rightarrow> throughput_system \<Rightarrow> thread list \<Rightarrow> throughput_system \<Rightarrow> bool" for X P where
  none: "P s \<Longrightarrow> run_within X P s [] s"
| more: "run_within X P s ts s1 \<Longrightarrow> throughput_step X s1 t s2 \<Longrightarrow> P s2 \<Longrightarrow> run_within X P s (ts @ [t]) s2"

abbreviation throughput_run :: "samples_env \<Rightarrow> throughput_system \<Rightarrow> thread list \<Rightarrow> throughput_system \<Rightarrow> bool" where
  "throughput_run X \<equiv> run_within X (\<lambda>_. True)"

inductive_cases throughput_stepE: "throughput_step X s t s'"

text \<open>The constructor, after the options: the object, with the polling thread at its beginning.\<close>

record throughput_options =
  to_help :: bool
  to_channel :: string
  to_streamId :: int32
  to_numberOfMessages :: int32
  to_messageLength :: int32
  to_disableRecording :: bool
  to_file :: string

definition throughput_defaults :: throughput_options where
  "throughput_defaults = \<lparr>to_help = False, to_channel = ''aeron:udp?endpoint=localhost:40123'', to_streamId = 10,
     to_numberOfMessages = 1000000, to_messageLength = 256, to_disableRecording = False, to_file = []\<rparr>"

definition mk_RecordingThroughput ::
  "throughput_system \<Rightarrow> throughput_options \<Rightarrow> aeron_archive \<Rightarrow> trace \<Rightarrow> throughput_system" where
  "mk_RecordingThroughput memory opt a tr =
     memory\<lparr>rt_disableRecording := to_disableRecording opt, rt_archive := a, rt_channel := to_channel opt,
       rt_streamId := to_streamId opt, rt_numberOfMessages := to_numberOfMessages opt,
       rt_messageLength := to_messageLength opt, rt_isRecording := False,
       rt_main := Starting, rt_poller := Subscribing, rt_running := True, rt_history := tr\<rparr>"

text \<open>The program: it is over before it begins, with an exit code, or the process runs.\<close>

definition throughput_begin ::
  "samples_env \<Rightarrow> throughput_system \<Rightarrow> throughput_options \<Rightarrow> trace \<Rightarrow> (nat \<times> trace + throughput_system) option" where
  "throughput_begin X memory opt tr =
     (if to_help opt then Some (Inl (1, tr))
      else
        (case connect_configured X (to_file opt) tr of
           None \<Rightarrow> None
         | Some (Inl _, tr1) \<Rightarrow> Some (Inl (1, tr1))
         | Some (Inr a, tr1) \<Rightarrow> Some (Inr (mk_RecordingThroughput memory opt a tr1))))"

section \<open>The rates that are printed\<close>

lemma sdiv_nonneg: "0 \<le> a \<Longrightarrow> 0 < b \<Longrightarrow> a sdiv b = a div (b :: int)"
  by (cases "a = 0") (simp_all add: signed_divide_int_def)

lemma rate_bounds:
  fixes q n d :: int
  assumes "0 \<le> q" and "q * (d div 1000000) \<le> n" and "n < (q + 1) * (d div 1000000)"
  shows "n * 10 ^ 9 < (1000 * q + 1000) * d" and "1000 * q * (d - 1000000) \<le> n * 10 ^ 9"
proof -
  have ms: "d div 1000000 * 1000000 \<le> d" "d - 1000000 \<le> d div 1000000 * 1000000" by linarith+
  have "n * 10 ^ 9 < (q + 1) * (d div 1000000) * 10 ^ 9" using assms(3) by simp
  also have "\<dots> = (1000 * q + 1000) * (d div 1000000 * 1000000)" by (simp add: algebra_simps)
  also have "\<dots> \<le> (1000 * q + 1000) * d" using assms(1) ms(1) by (intro mult_left_mono) simp_all
  finally show "n * 10 ^ 9 < (1000 * q + 1000) * d" .
  have "1000 * q * (d - 1000000) \<le> 1000 * q * (d div 1000000 * 1000000)"
    using assms(1) ms(2) by (intro mult_left_mono) simp_all
  also have "\<dots> = q * (d div 1000000) * 10 ^ 9" by (simp add: algebra_simps)
  also have "\<dots> \<le> n * 10 ^ 9" using assms(2) by simp
  finally show "1000 * q * (d - 1000000) \<le> n * 10 ^ 9" .
qed

text \<open>
  C22: The rate of messages is rounded before it is scaled. For a number of messages and a duration that
  are not negative there is no rate when less than a millisecond has passed, as the division is
  by 0. Otherwise the duration is cut to whole milliseconds, and the rate is 1000 times the quotient
  rounded down: a multiple of 1000, and 0 whenever there are fewer messages than milliseconds. So
  it is less than 1000 below the true number of messages per second; but as the duration was
  cut, it may also be above it, though never above what the same messages in a millisecond
  less would give: 1999 messages in 1.999999 milliseconds are shown as 1999000 per second, twice the truth.
\<close>

theorem rate_is_rounded_to_thousands:
  assumes "0 \<le> sint n" and "0 \<le> sint d"
  shows "case message_rate n (duration_ms d) of
       None \<Rightarrow> sint d < 1000000
     | Some r \<Rightarrow> 1000000 \<le> sint d \<and> sint r = 1000 * (sint n div (sint d div 1000000)) \<and>
         sint n * 10 ^ 9 < (sint r + 1000) * sint d \<and> sint r * (sint d - 1000000) \<le> sint n * 10 ^ 9"
proof -
  let ?ms = "sint d div 1000000"
  have "sint d < 2 ^ 63" "sint n < 2 ^ 31" using sint_less [of d] sint_less [of n] by simp_all
  moreover have pos: "0 \<le> ?ms" using assms(2) by (simp add: pos_imp_zdiv_nonneg_iff)
  moreover have "?ms \<le> sint d" using assms(2) zdiv_mono2 [of "sint d" 1 1000000] by simp
  ultimately have ms: "sint (duration_ms d) = ?ms"
    using assms(2) by (simp add: duration_ms_def sdiv_nonneg signed_of_int signed_take_bit_int_eq_self)
  show ?thesis
  proof (cases "duration_ms d = 0")
    case True
    then have "?ms = 0" using ms by simp
    then show ?thesis using True assms(2) by (simp add: message_rate_def)
  next
    case False
    then have "0 < ?ms" using ms pos by (metis order_le_less signed_eq_0_iff)
    let ?q = "sint n div ?ms"
    have "sint n div ?ms \<le> sint n div 1" using assms(1) \<open>0 < ?ms\<close> by (intro zdiv_mono2) simp_all
    then have q: "0 \<le> ?q" "?q < 2 ^ 31"
      using assms(1) \<open>0 < ?ms\<close> \<open>sint n < 2 ^ 31\<close> by (simp_all add: pos_imp_zdiv_nonneg_iff)
    have "message_rate n (duration_ms d) = Some (word_of_int (?q * 1000))"
      using False assms(1) \<open>0 < ?ms\<close> by (simp add: message_rate_def ms sdiv_nonneg)
    moreover have "sint (word_of_int (?q * 1000) :: int64) = ?q * 1000"
    proof -
      have "signed_take_bit 63 (?q * 1000) = ?q * 1000" using q by (intro signed_take_bit_int_eq_self) simp_all
      then show ?thesis unfolding signed_of_int by simp
    qed
    moreover have "?q * ?ms \<le> sint n" "sint n < (?q + 1) * ?ms"
      using minus_mod_eq_div_mult [of "sint n" ?ms] pos_mod_bound [OF \<open>0 < ?ms\<close>, of "sint n"]
        pos_mod_sign [OF \<open>0 < ?ms\<close>, of "sint n"]
      unfolding distrib_right mult_1 by linarith+
    moreover have "1000000 \<le> sint d" using \<open>0 < ?ms\<close> by linarith
    ultimately show ?thesis
      using rate_bounds [of ?q "sint d" "sint n"] \<open>0 \<le> ?q\<close> by (simp add: mult.commute)
  qed
qed

lemma rate_is_rounded_to_thousands_witness:
  "message_rate 1999 (duration_ms 1000000000) = Some 1000 \<and> message_rate 1999 (duration_ms 999999) = None \<and>
   message_rate 1999 (duration_ms 1999999) = Some 1999000 \<and> sint (1999000 :: int64) * 999999 \<le> 1999 * 10 ^ 9"
proof -
  have r: "message_rate 1999 (duration_ms 1000000000) = Some 1000" "message_rate 1999 (duration_ms 999999) = None"
      "message_rate 1999 (duration_ms 1999999) = Some 1999000"
    by code_simp+
  have "0 \<le> sint (1999 :: int32)" "0 \<le> sint (1999999 :: int64)" by code_simp+
  from rate_is_rounded_to_thousands [OF this] have "sint (1999000 :: int64) * 999999 \<le> 1999 * 10 ^ 9"
    unfolding r option.case by simp
  with r show ?thesis by blast
qed

section \<open>Runs\<close>

text \<open>
  The contract of an invariant of the process, with one law for each kind of step, which only need
  hold while the process is not over. What both threads keep holds in every run without a signal;
  what the signal keeps as well, in every run.
\<close>

locale silent_invariant =
  fixes X :: samples_env and I :: "throughput_system \<Rightarrow> bool"
  assumes main_keeps: "I s \<Longrightarrow> \<not> over (rt_main s) \<Longrightarrow> main_step X repeat s = Some s' \<Longrightarrow> I s'"
    and poller_keeps: "I s \<Longrightarrow> \<not> over (rt_main s) \<Longrightarrow> poller_step X s = Some s' \<Longrightarrow> I s'"
begin

lemma silent_step_keeps: "throughput_step X s t s' \<Longrightarrow> t \<noteq> Signal \<Longrightarrow> I s \<Longrightarrow> I s'"
  by (elim throughput_stepE) (auto intro: main_keeps poller_keeps)

lemma silent_run_keeps: "run_within X P s ts s' \<Longrightarrow> Signal \<notin> set ts \<Longrightarrow> I s \<Longrightarrow> I s'"
  by (induction rule: run_within.induct) (auto intro: silent_step_keeps)

end

locale process_invariant = silent_invariant +
  assumes signal_keeps: "I s \<Longrightarrow> \<not> over (rt_main s) \<Longrightarrow> I (s\<lparr>rt_running := False\<rparr>)"
begin

lemma step_keeps: "throughput_step X s t s' \<Longrightarrow> I s \<Longrightarrow> I s'"
  using silent_step_keeps by (cases "t = Signal") (auto elim: throughput_stepE intro: signal_keeps)

lemma run_keeps: "run_within X P s ts s' \<Longrightarrow> I s \<Longrightarrow> I s'"
  by (induction rule: run_within.induct) (auto intro: step_keeps)

end

lemma begin_ready:
  assumes "break_stops (se_env X)" and "throughput_begin X memory opt tr = Some (Inr s)"
  shows "archive_ok (rt_archive s)" and "rt_main s = Starting" and "rt_poller s = Subscribing" and "rt_running s"
proof -
  obtain a tr1 where "connect_configured X (to_file opt) tr = Some (Inr a, tr1)"
      "s = mk_RecordingThroughput memory opt a tr1"
    using assms(2) by (auto simp: throughput_begin_def split: if_splits option.splits sum.splits)
  then show "archive_ok (rt_archive s)" "rt_main s = Starting" "rt_poller s = Subscribing" "rt_running s"
    using configured_ready [OF assms(1)] by (auto simp: mk_RecordingThroughput_def)
qed

end
