(* ===== verification/ThroughputSample.thy ===== *)
theory ThroughputSample
  imports RecordingThroughput
begin

text \<open>
  Concrete runs of the throughput program in the world of the sample server: one round of one
  message, which ends with the exit code 0, and one that throws. Nothing here models the
  repository's code.
\<close>

section \<open>A sample run\<close>

definition sample_system :: throughput_system where
  "sample_system = \<lparr>rt_disableRecording = False, rt_archive = sample_archive, rt_channel = [], rt_streamId = 0,
     rt_numberOfMessages = 0, rt_messageLength = 0, rt_stopPosition = 0, rt_isRecording = False, rt_recordingStartTime = 0,
     rt_main = Starting, rt_poller = Subscribing, rt_running = True, rt_history = []\<rparr>"

definition sample_throughput_options :: "int32 \<Rightarrow> throughput_options" where
  "sample_throughput_options len =
     throughput_defaults\<lparr>to_channel := ''aeron:ipc'', to_numberOfMessages := 1, to_messageLength := len\<rparr>"

lemma server_progress_poll:
  assumes "last_request tr = 255"
  shows "events_poll sample_sbe server_env (mk_RecordingEventsAdapter FRAGMENTS_LIMIT) tr =
     (Inr 1, mk_RecordingEventsAdapter FRAGMENTS_LIMIT,
      Polled 1 # Answered CONTINUE # Called (OnProgress 42 0 (2 ^ 63 - 1)) # Delivered sample_progress_message #
        PollStarted 10 # tr)"
proof -
  have "event_callback sample_sbe sample_progress_message = Inr (OnProgress 42 0 (2 ^ 63 - 1))"
    by (simp add: event_callback_def sample_progress_message_def Let_def sample_defs)
  moreover have "server_reply 255 = sample_progress_message" by (simp add: server_reply_def)
  moreover have "env_callback server_env tr1 = None" "env_pollResult server_env tr1 = 1" for tr1
    by (simp_all add: server_env_def sample_env_def)
  moreover have "nat (sint (10 :: int32)) = Suc (Suc 8)" by simp
  ultimately show ?thesis
    using assms unfolding events_poll_def controlledPoll_def mk_RecordingEventsAdapter_def FRAGMENTS_LIMIT_def
    by (simp only: recording_events_adapter.simps poll_rounds.simps)
      (simp add: events_fragmentHandler_calls poll_end_def Let_def)
qed

lemma server_starts:
  assumes "served a"
  shows "\<exists>b tr'. archive_startRecording sample_sbe server_env ''aeron:ipc'' 10 LOCAL a tr = Some (Inr 42, b, tr') \<and> served b"
proof -
  have "fits (operation_request (StartRecording ''aeron:ipc'' 10 LOCAL) 5 7)"
    by (simp add: fits_def body_bytes_def widen_def narrow_def wide32_def)
  then obtain b tr' where "perform sample_sbe server_env (StartRecording ''aeron:ipc'' 10 LOCAL) a tr =
      Some (Inr (Value64 42), b, tr')" "served b"
    using server_performs [OF assms] by fastforce
  then show ?thesis by (auto simp: answers_def bind_result_def split: option.splits sum.splits)
qed

lemma server_stops:
  assumes "served a"
  shows "\<exists>b tr'. archive_stopRecording sample_sbe server_env ''aeron:ipc'' 10 a tr = Some (Inr (), b, tr') \<and> served b"
proof -
  have "fits (operation_request (StopRecording ''aeron:ipc'' 10) 5 7)"
    by (simp add: fits_def body_bytes_def widen_def narrow_def wide32_def)
  then obtain b tr' where "perform sample_sbe server_env (StopRecording ''aeron:ipc'' 10) a tr =
      Some (Inr Done, b, tr')" "served b"
    using server_performs [OF assms] by fastforce
  then show ?thesis by (auto simp: answers_def bind_result_def split: option.splits sum.splits)
qed

definition reaches :: "samples_env \<Rightarrow> throughput_system \<Rightarrow> throughput_system \<Rightarrow> bool" where
  "reaches X s s' \<longleftrightarrow> (\<exists>ts. Signal \<notin> set ts \<and> throughput_run X s ts s')"

lemma reaches_refl: "reaches X s s"
  unfolding reaches_def by (intro exI [of _ "[]"]) (simp add: run_within.none)

lemma reaches_main: "reaches X s s1 \<Longrightarrow> \<not> over (rt_main s1) \<Longrightarrow> main_step X r s1 = Some s2 \<Longrightarrow> reaches X s s2"
  unfolding reaches_def
  by (metis run_within.more throughput_step.main set_append Un_iff empty_iff empty_set list.set_intros(1) set_ConsD thread.distinct(3))

lemma reaches_poller: "reaches X s s1 \<Longrightarrow> \<not> over (rt_main s1) \<Longrightarrow> poller_step X s1 = Some s2 \<Longrightarrow> reaches X s s2"
  unfolding reaches_def
  by (metis run_within.more throughput_step.poller set_append Un_iff empty_iff empty_set list.set_intros(1) set_ConsD thread.distinct(5))

lemma clock_difference:
  "duration_ms (env_now server_env tr1 - env_now server_env tr0) = duration_ms ((word_of_nat (length tr1) - word_of_nat (length tr0)) * 1000000)"
  by (simp add: server_env_def left_diff_distrib)

text \<open>The object in the world of the server, for one message of 256 bytes.\<close>

definition server_object :: "throughput_system \<Rightarrow> bool" where
  "server_object s \<longleftrightarrow> \<not> rt_disableRecording s \<and> rt_channel s = ''aeron:ipc'' \<and> rt_streamId s = 10 \<and>
     rt_numberOfMessages s = 1 \<and> rt_messageLength s = 256 \<and> rt_running s \<and> served (rt_archive s)"

lemma server_publishes:
  assumes "server_object s" and "rt_main s = Adding" and "rt_poller s = Polling" and "reaches server_world s0 s"
  shows "\<exists>s' h t0 t1 t2. reaches server_world s0 s' \<and> server_object s' \<and> rt_main s' = Waiting \<and>
     rt_isRecording s' \<and> rt_poller s' = Polling \<and> rt_stopPosition s' = 0 \<and> rt_recordingStartTime s' = env_now server_env h \<and>
     rt_history s' = [ClockRead t0, DataOffered (message_bytes 256 0) 1, ClockRead t1, ClockRead t2] @ h"
proof -
  let ?X = server_world
  let ?h1 = "Looked ExclusivePub 1 # Added ExclusivePub ''aeron:ipc'' 10 # rt_history s"
  let ?s1 = "s\<lparr>rt_history := ?h1, rt_main := Arming 1\<rparr>"
  let ?s2 = "?s1\<lparr>rt_isRecording := True, rt_main := Limiting 1\<rparr>"
  let ?s3 = "?s2\<lparr>rt_stopPosition := 2 ^ 63 - 1, rt_main := Timing 1\<rparr>"
  let ?t = "env_now server_env ?h1"
  let ?start = "env_now server_env (ClockRead ?t # ?h1)"
  let ?h2 = "ClockRead ?start # ClockRead ?t # ?h1"
  let ?s4 = "?s3\<lparr>rt_recordingStartTime := ?t, rt_history := ?h2, rt_main := Publishing 1 ?start 0\<rparr>"
  let ?h3 = "DataOffered (message_bytes 256 0) 1 # ?h2"
  let ?s5 = "?s4\<lparr>rt_history := ?h3, rt_main := Publishing 1 ?start 1\<rparr>"
  let ?s6 = "?s5\<lparr>rt_main := Positioning 1 ?start\<rparr>"
  let ?s7 = "?s6\<lparr>rt_stopPosition := 0, rt_main := Rating ?start\<rparr>"
  let ?h4 = "ClockRead (env_now server_env ?h3) # ?h3"
  let ?s8 = "?s7\<lparr>rt_history := ?h4, rt_main := Waiting\<rparr>"
  note fields = assms(1) [unfolded server_object_def]
  have "main_step ?X True s = Some ?s1"
    using fields assms(2) by (simp add: main_step_def add_step_def server_add_and_find)
  from reaches_main [OF assms(4) _ this] have r1: "reaches ?X s0 ?s1" using assms(2) by simp
  have "main_step ?X True ?s1 = Some ?s2" by (simp add: main_step_def)
  from reaches_main [OF r1 _ this] have r2: "reaches ?X s0 ?s2" by simp
  have "main_step ?X True ?s2 = Some ?s3" by (simp add: main_step_def)
  from reaches_main [OF r2 _ this] have r3: "reaches ?X s0 ?s3" by simp
  have "main_step ?X True ?s3 = Some ?s4"
    using fields by (simp add: main_step_def time_step_def call_defs Let_def word_sless_alt)
  from reaches_main [OF r3 _ this] have r4: "reaches ?X s0 ?s4" by simp
  have "main_step ?X True ?s4 = Some ?s5"
    using fields by (simp add: main_step_def offer_step_def call_offerData_def Let_def word_sless_alt)
  from reaches_main [OF r4 _ this] have r5: "reaches ?X s0 ?s5" by simp
  have "main_step ?X True ?s5 = Some ?s6"
    using fields by (simp add: main_step_def offer_step_def)
  from reaches_main [OF r5 _ this] have r6: "reaches ?X s0 ?s6" by simp
  have "main_step ?X True ?s6 = Some ?s7" by (simp add: main_step_def)
  from reaches_main [OF r6 _ this] have r7: "reaches ?X s0 ?s7" by simp
  have "message_rate 1 (duration_ms (env_now server_env ?h3 - ?start)) = Some 0"
    unfolding clock_difference by (simp add: duration_ms_def message_rate_def signed_divide_int_def)
  then have "main_step ?X True ?s7 = Some ?s8"
    using fields by (simp add: main_step_def rate_step_def call_defs Let_def)
  from reaches_main [OF r7 _ this] have r8: "reaches ?X s0 ?s8" by simp
  define s8 t0 t1 h where defs: "s8 = ?s8" "t0 = env_now server_env ?h3" "t1 = ?start" "h = ?h1"
  have "server_object s8" using assms(1) by (simp add: server_object_def defs)
  moreover have "rt_main s8 = Waiting" "rt_isRecording s8" "rt_poller s8 = Polling" "rt_stopPosition s8 = 0"
      "rt_recordingStartTime s8 = env_now server_env h"
    using assms(3) by (simp_all add: defs)
  moreover have "rt_history s8 = [ClockRead t0, DataOffered (message_bytes 256 0) 1, ClockRead t1, ClockRead ?t] @ h"
    by (simp add: defs)
  moreover have "reaches server_world s0 s8" using r8 by (simp add: defs)
  ultimately show ?thesis by blast
qed


lemma server_records:
  assumes "server_object s" and "rt_main s = Waiting" and "rt_poller s = Polling" and "rt_stopPosition s = 0"
    and "rt_recordingStartTime s = env_now server_env h"
    and "rt_history s = [ClockRead t0, DataOffered bytes 1, ClockRead t1, ClockRead t2] @ h"
    and "reaches server_world s0 s"
  shows "\<exists>s'. reaches server_world s0 s' \<and> server_object s' \<and> rt_main s' = Waiting \<and> rt_poller s' = Polling \<and>
     \<not> rt_isRecording s'"
proof -
  let ?X = server_world
  let ?cb = "OnProgress 42 0 (2 ^ 63 - 1)"
  define h1 where "h1 = Polled 1 # Answered CONTINUE # Called ?cb # Delivered sample_progress_message # PollStarted 10 # rt_history s"
  let ?s1 = "s\<lparr>rt_poller := Handling [?cb] (Inr 1), rt_history := h1\<rparr>"
  let ?s2 = "?s1\<lparr>rt_poller := Handling [] (Inr 1), rt_history := ClockRead (env_now server_env h1) # h1, rt_isRecording := False\<rparr>"
  let ?s3 = "?s2\<lparr>rt_poller := Polling, rt_history := Idled # rt_history ?s2\<rparr>"
  note fields = assms(1) [unfolded server_object_def]
  have "last_request (rt_history s) = 255" by (simp add: assms(6))
  note poll = server_progress_poll [OF this, folded h1_def]
  have since: "since (rt_history s) h1 =
      [Polled 1, Answered CONTINUE, Called ?cb, Delivered sample_progress_message, PollStarted 10]"
    using since_append [of "rt_history s" "[Polled 1, Answered CONTINUE, Called ?cb, Delivered sample_progress_message, PollStarted 10]"]
    by (simp add: h1_def)
  have "poller_step ?X s = Some ?s1"
    using fields assms(3) by (simp add: poller_step_def poll since del: server_world_fields(1,2))
      (simp add: poll since)
  from reaches_poller [OF assms(7) _ this] have r1: "reaches ?X s0 ?s1" using assms(2) by simp
  have "message_rate 1 (duration_ms (env_now server_env h1 - env_now server_env h)) = Some 0"
    unfolding clock_difference by (simp add: h1_def assms(6) duration_ms_def message_rate_def signed_divide_int_def)
  then have "poller_step ?X ?s1 = Some ?s2"
    using fields assms(4,5)
    by (simp add: poller_step_def OnProgressHandler_def call_defs Let_def word_sle_eq)
  from reaches_poller [OF r1 _ this] have r2: "reaches ?X s0 ?s2" using assms(2) by simp
  have "poller_step ?X ?s2 = Some ?s3" by (simp add: poller_step_def call_defs)
  from reaches_poller [OF r2 _ this] have r3: "reaches ?X s0 ?s3" using assms(2) by simp
  have "server_object ?s3" "rt_main ?s3 = Waiting" "rt_poller ?s3 = Polling" "\<not> rt_isRecording ?s3"
    using assms(1,2) by (simp_all add: server_object_def)
  then show ?thesis using r3 by blast
qed

lemma server_exits:
  assumes "server_object s" and "rt_main s = Asking" and "rt_poller s = Polling" and "reaches server_world s0 s"
  shows "\<exists>s'. reaches server_world s0 s' \<and> rt_main s' = Exited 0"
proof -
  let ?X = server_world
  let ?s1 = "s\<lparr>rt_running := False, rt_main := Joining 0\<rparr>"
  let ?s2 = "?s1\<lparr>rt_poller := Ended\<rparr>"
  let ?s3 = "?s2\<lparr>rt_main := Stopping 0\<rparr>"
  note fields = assms(1) [unfolded server_object_def]
  have "main_step ?X False s = Some ?s1" using assms(2) by (simp add: main_step_def)
  from reaches_main [OF assms(4) _ this] have r1: "reaches ?X s0 ?s1" using assms(2) by simp
  have "poller_step ?X ?s1 = Some ?s2" using assms(3) by (simp add: poller_step_def)
  from reaches_poller [OF r1 _ this] have r2: "reaches ?X s0 ?s2" by simp
  have "main_step ?X False ?s2 = Some ?s3" by (simp add: main_step_def)
  from reaches_main [OF r2 _ this] have r3: "reaches ?X s0 ?s3" by simp
  obtain b tr where "archive_stopRecording sample_sbe server_env ''aeron:ipc'' 10 (rt_archive s) (rt_history s) =
      Some (Inr (), b, tr)"
    using server_stops fields by blast
  then have "main_step ?X False ?s3 = Some (?s3\<lparr>rt_archive := b, rt_history := tr, rt_main := Exited 0\<rparr>)"
    using fields by (simp add: main_step_def stop_step_def)
  from reaches_main [OF r3 _ this] have "reaches ?X s0 (?s3\<lparr>rt_archive := b, rt_history := tr, rt_main := Exited 0\<rparr>)"
    by simp
  then show ?thesis by (intro exI conjI) (assumption, simp)
qed

lemma server_begins:
  "\<exists>s0. throughput_begin server_world sample_system (sample_throughput_options len) [] = Some (Inr s0) \<and>
     rt_main s0 = Starting \<and> rt_poller s0 = Subscribing \<and> rt_running s0 \<and> \<not> rt_disableRecording s0 \<and>
     rt_channel s0 = ''aeron:ipc'' \<and> rt_streamId s0 = 10 \<and> rt_numberOfMessages s0 = 1 \<and> rt_messageLength s0 = len \<and>
     served (rt_archive s0)"
proof -
  obtain a tr where "connect_configured server_world [] [] = Some (Inr a, tr)" "served a"
    using server_configured by blast
  then show ?thesis
    by (simp add: throughput_begin_def sample_throughput_options_def throughput_defaults_def mk_RecordingThroughput_def)
qed

text \<open>One round of one message: the program waits for its recording.\<close>

lemma server_waits:
  "\<exists>s0 s h t0 t1 t2. throughput_begin server_world sample_system (sample_throughput_options 256) [] = Some (Inr s0) \<and>
     reaches server_world s0 s \<and> server_object s \<and> rt_main s = Waiting \<and> rt_isRecording s \<and> rt_poller s = Polling \<and>
     rt_stopPosition s = 0 \<and> rt_recordingStartTime s = env_now server_env h \<and>
     rt_history s = [ClockRead t0, DataOffered (message_bytes 256 0) 1, ClockRead t1, ClockRead t2] @ h"
proof -
  let ?X = server_world
  obtain s0 where s0: "throughput_begin ?X sample_system (sample_throughput_options 256) [] = Some (Inr s0)"
    "rt_main s0 = Starting" "rt_poller s0 = Subscribing" "rt_running s0" "\<not> rt_disableRecording s0"
    "rt_channel s0 = ''aeron:ipc''" "rt_streamId s0 = 10" "rt_numberOfMessages s0 = 1" "rt_messageLength s0 = 256"
    "served (rt_archive s0)"
    using server_begins by blast
  obtain b tr where b: "archive_startRecording sample_sbe server_env ''aeron:ipc'' 10 LOCAL (rt_archive s0) (rt_history s0) =
      Some (Inr 42, b, tr)" "served b"
    using server_starts [OF s0(10)] by blast
  define s1 where "s1 = s0\<lparr>rt_archive := b, rt_history := tr, rt_main := Adding\<rparr>"
  have "main_step ?X True s0 = Some s1"
    using b s0 by (simp add: main_step_def start_step_def s1_def)
  from reaches_main [OF reaches_refl _ this] have r1: "reaches ?X s0 s1" by (simp add: s0)
  define s2 where "s2 = s1\<lparr>rt_poller := Polling,
    rt_history := Looked Sub 1 # Added Sub (get_recordingEventsChannel (aa_ctx b)) (get_recordingEventsStreamId (aa_ctx b)) # tr\<rparr>"
  have "poller_step ?X s1 = Some s2"
    using s0 by (simp add: poller_step_def server_add_and_find s1_def s2_def)
  from reaches_poller [OF r1 _ this] have r2: "reaches ?X s0 s2" by (simp add: s1_def)
  have "server_object s2" "rt_main s2 = Adding" "rt_poller s2 = Polling"
    using s0 b(2) by (simp_all add: server_object_def s1_def s2_def)
  from server_publishes [OF this r2] show ?thesis using s0(1) by blast
qed

text \<open>It exits with 0 when the recording was reported.\<close>

lemma server_run:
  "\<exists>s0 s s'. throughput_begin server_world sample_system (sample_throughput_options 256) [] = Some (Inr s0) \<and>
     reaches server_world s0 s \<and> rt_main s = Waiting \<and> \<not> rt_disableRecording s \<and>
     main_step server_world False s = Some (s\<lparr>rt_main := Asking\<rparr>) \<and>
     reaches server_world s0 s' \<and> rt_main s' = Exited 0"
proof -
  let ?X = server_world
  obtain s0 s3 h t0 t1 t2 where s3: "throughput_begin ?X sample_system (sample_throughput_options 256) [] = Some (Inr s0)"
    "reaches ?X s0 s3" "server_object s3" "rt_main s3 = Waiting" "rt_poller s3 = Polling" "rt_stopPosition s3 = 0"
    "rt_recordingStartTime s3 = env_now server_env h"
    "rt_history s3 = [ClockRead t0, DataOffered (message_bytes 256 0) 1, ClockRead t1, ClockRead t2] @ h"
    using server_waits by blast
  from server_records [OF s3(3-8,2)] obtain s where s: "reaches ?X s0 s" "server_object s" "rt_main s = Waiting"
    "rt_poller s = Polling" "\<not> rt_isRecording s"
    by blast
  then have ask: "main_step ?X False s = Some (s\<lparr>rt_main := Asking\<rparr>)" by (simp add: main_step_def)
  from reaches_main [OF s(1) _ this] have "reaches ?X s0 (s\<lparr>rt_main := Asking\<rparr>)" using s by simp
  from server_exits [OF _ _ _ this] obtain s' where "reaches ?X s0 s'" "rt_main s' = Exited 0"
    using s by (auto simp: server_object_def)
  then show ?thesis using s3(1) s ask by (auto simp: server_object_def)
qed

text \<open>A length that no vector can have: the main thread throws before it publishes.\<close>

lemma server_throws:
  "\<exists>s0 s s'. throughput_begin server_world sample_system (sample_throughput_options (- 1)) [] = Some (Inr s0) \<and>
     reaches server_world s0 s \<and> rt_main s = Joining 1 \<and> rt_running s \<and> \<not> rt_disableRecording s \<and>
     rt_poller s = Subscribing \<and> reaches server_world s s' \<and> rt_poller s' = Polling"
proof -
  let ?X = server_world
  obtain s0 where s0: "throughput_begin ?X sample_system (sample_throughput_options (- 1)) [] = Some (Inr s0)"
    "rt_main s0 = Starting" "rt_poller s0 = Subscribing" "rt_running s0" "\<not> rt_disableRecording s0"
    "rt_channel s0 = ''aeron:ipc''" "rt_streamId s0 = 10" "rt_numberOfMessages s0 = 1" "rt_messageLength s0 = - 1"
    "served (rt_archive s0)"
    using server_begins by blast
  obtain b tr where b: "archive_startRecording sample_sbe server_env ''aeron:ipc'' 10 LOCAL (rt_archive s0) (rt_history s0) =
      Some (Inr 42, b, tr)" "served b"
    using server_starts [OF s0(10)] by blast
  let ?s1 = "s0\<lparr>rt_archive := b, rt_history := tr, rt_main := Adding\<rparr>"
  let ?h = "Looked ExclusivePub 1 # Added ExclusivePub ''aeron:ipc'' 10 # tr"
  let ?s2 = "?s1\<lparr>rt_history := ?h, rt_main := Arming 1\<rparr>"
  let ?s3 = "?s2\<lparr>rt_isRecording := True, rt_main := Limiting 1\<rparr>"
  let ?s4 = "?s3\<lparr>rt_stopPosition := 2 ^ 63 - 1, rt_main := Timing 1\<rparr>"
  let ?t = "env_now server_env ?h"
  let ?s5 = "?s4\<lparr>rt_recordingStartTime := ?t, rt_history := ClockRead ?t # ?h, rt_main := Joining 1\<rparr>"
  have "main_step ?X True s0 = Some ?s1" using b s0 by (simp add: main_step_def start_step_def)
  from reaches_main [OF reaches_refl _ this] have r1: "reaches ?X s0 ?s1" by (simp add: s0)
  have "main_step ?X True ?s1 = Some ?s2"
    using s0 by (simp add: main_step_def add_step_def server_add_and_find)
  from reaches_main [OF r1 _ this] have r2: "reaches ?X s0 ?s2" by simp
  have "main_step ?X True ?s2 = Some ?s3" by (simp add: main_step_def)
  from reaches_main [OF r2 _ this] have r3: "reaches ?X s0 ?s3" by simp
  have "main_step ?X True ?s3 = Some ?s4" by (simp add: main_step_def)
  from reaches_main [OF r3 _ this] have r4: "reaches ?X s0 ?s4" by simp
  have "main_step ?X True ?s4 = Some ?s5"
    using s0 by (simp add: main_step_def time_step_def call_defs Let_def word_sless_alt)
  from reaches_main [OF r4 _ this] have r5: "reaches ?X s0 ?s5" by simp
  have "\<exists>h. poller_step ?X ?s5 = Some (?s5\<lparr>rt_poller := Polling, rt_history := h\<rparr>)"
    using s0 by (simp add: poller_step_def server_add_and_find) (rule exI, rule refl)
  then obtain h where "poller_step ?X ?s5 = Some (?s5\<lparr>rt_poller := Polling, rt_history := h\<rparr>)" by blast
  from reaches_poller [OF reaches_refl _ this] have "reaches ?X ?s5 (?s5\<lparr>rt_poller := Polling, rt_history := h\<rparr>)" by simp
  moreover have "rt_main ?s5 = Joining 1" "rt_running ?s5" "\<not> rt_disableRecording ?s5" "rt_poller ?s5 = Subscribing"
    "rt_poller (?s5\<lparr>rt_poller := Polling, rt_history := h\<rparr>) = Polling"
    using s0 by simp_all
  ultimately show ?thesis using s0(1) r5 by blast
qed

lemma poll_rounds_returns:
  assumes "\<forall>tr. \<not> env_rethrows E tr"
  shows "\<not> isl (fst (poll_rounds E h n s tr))"
  by (induction n arbitrary: s tr)
    (auto simp: assms poll_end_def Let_def split: option.split sum.split prod.split)

lemma server_events_return: "\<not> isl (fst (events_poll S server_env a tr))"
  unfolding events_poll_def controlledPoll_def
  by (rule poll_rounds_returns) (simp add: server_env_def)

lemma reaches_run: "reaches X s s' \<Longrightarrow> \<exists>ts. Signal \<notin> set ts \<and> throughput_run X s ts s'"
  by (simp add: reaches_def)

end
