(* ===== verification/ThroughputRounds.thy ===== *)
theory ThroughputRounds
  imports ThroughputSample
begin

text \<open>
  What the throughput program publishes: the invariant that the accepted offers of data are whole
  rounds of its messages and a part of the next, kept by every step of both threads.
\<close>

section \<open>What is published\<close>

fun data_offer :: "event \<Rightarrow> bool" where
  "data_offer (DataOffered _ _) = True"
| "data_offer _ = False"

text \<open>The bytes of the offers of data that were accepted, oldest first.\<close>

fun accepted :: "trace \<Rightarrow> byte list list" where
  "accepted [] = []"
| "accepted (DataOffered bytes r # tr) = accepted tr @ (if r <s 0 then [] else [bytes])"
| "accepted (_ # tr) = accepted tr"

definition quiet :: "trace \<Rightarrow> trace \<Rightarrow> bool" where
  "quiet tr tr' \<longleftrightarrow> (\<exists>es. tr' = es @ tr \<and> list_all (\<lambda>e. \<not> data_offer e) es)"

lemma quiet_refl [simp]: "quiet tr tr"
  by (auto simp: quiet_def intro!: exI [of _ "[]"])

lemma quiet_Cons [simp]: "\<not> data_offer e \<Longrightarrow> quiet tr0 tr \<Longrightarrow> quiet tr0 (e # tr)"
  by (auto simp: quiet_def intro: exI [of _ "e # _"])

lemma quiet_trans [trans]: "quiet a b \<Longrightarrow> quiet b c \<Longrightarrow> quiet a c"
  by (auto simp: quiet_def)

lemma quiet_append: "list_all (\<lambda>e. \<not> data_offer e) es \<Longrightarrow> quiet tr (es @ tr)"
  by (auto simp: quiet_def)

lemma poll_event_quiet: "poll_event e \<Longrightarrow> \<not> data_offer e"
  by (cases e) simp_all

lemma waiting_quiet: "waiting_event e \<Longrightarrow> \<not> data_offer e"
  by (cases e) simp_all

lemma offer_events_quiet: "quiet tr (offer_events bytes rs @ tr)"
  by (rule quiet_append) (induction bytes rs rule: offer_events.induct; simp)

lemma add_and_find_quiet:
  assumes "add_and_find E res channel streamId tr = Some (x, tr')"
  shows "quiet tr tr'"
proof -
  have "quiet tr (snd (y, tr'))" if "loop (find_step E res regId) (Added res channel streamId # tr) = Some (y, tr')"
      for regId and y :: "unit result"
    using that
    by (rule loop_invariant [where I = "quiet tr" and Q = "\<lambda>r. quiet tr (snd r)"])
      (auto simp: find_step_def call_defs split: sum.splits if_splits)
  then show ?thesis
    using assms by (auto simp: add_and_find_def call_defs split: sum.splits option.splits)
qed

lemma exchanged_quiet:
  assumes "exchanged S E a req name tr res tr'"
  shows "quiet tr tr'"
proof -
  define corr where "corr = env_nextCorrelationId E (Locked # tr)"
  let ?waits = "\<lambda>tr2. \<exists>p tr3. tr' = Unlocked # tr3 \<and>
      answered S (env_now E tr2 + aa_messageTimeoutNs a) (response_decision S (aa_controlSessionId a) corr)
        (ClockRead (env_now E tr2) # tr2) (res, p, tr3)"
  obtain sent tr2 where sends: "sends_request S E (req corr) (px_retryAttempts (aa_proxy a))
        (CorrelationIdDrawn corr # Locked # tr) sent tr2"
    and "case sent of Inl e \<Rightarrow> res = Inl e \<and> tr' = Unlocked # tr2
        | Inr False \<Rightarrow> res = Inl (ArchiveException (name @ '': failed to send'')) \<and> tr' = Unlocked # tr2
        | Inr True \<Rightarrow> ?waits tr2"
    using assms unfolding exchanged_def Let_def corr_def [symmetric] by blast
  then have course: "tr' = Unlocked # tr2 \<or> ?waits tr2" by (cases sent) (auto split: bool.splits)
  have "quiet (CorrelationIdDrawn corr # Locked # tr) tr2"
    using sends offer_events_quiet by (auto simp: sends_request_def)
  then have q: "quiet tr tr2" by (rule quiet_trans [rotated]) simp
  from course show ?thesis
  proof
    assume "?waits tr2"
    then obtain es where "tr' = Unlocked # es @ ClockRead (env_now E tr2) # tr2" "list_all waiting_event es"
      by (auto simp: answered_def waited_def split: sum.splits)
    moreover from this have "quiet (ClockRead (env_now E tr2) # tr2) (es @ ClockRead (env_now E tr2) # tr2)"
      by (intro quiet_append) (auto simp: list_all_iff dest: waiting_quiet)
    ultimately show ?thesis using q quiet_trans by (metis data_offer.simps(2-) quiet_Cons)
  qed (use q in simp)
qed

interpretation events_quiet: fragment_handler "events_fragmentHandler S E" "\<lambda>_ tr. quiet tr0 tr" for S E tr0
  by unfold_locales
    (auto simp: events_fragmentHandler_calls dest: poll_event_quiet split: sum.splits option.splits)


lemma events_poll_quiet:
  assumes "events_poll S E a tr = (r, a', tr')"
  shows "quiet tr tr'"
  using assms unfolding events_poll_def by (rule events_quiet.inv_controlledPoll [rotated]) simp

lemma perform_quiet:
  assumes "break_stops E" and "archive_ok a" and "perform S E o' a tr = Some (r, a', tr')"
  shows "quiet tr tr' \<and> archive_ok a'"
  using perform_outcome [OF assms] exchanged_quiet same_client_ok assms(2) by blast

lemma startRecording_quiet:
  assumes "break_stops E" and "archive_ok a" and "archive_startRecording S E ch sid loc a tr = Some (r, a', tr')"
  shows "quiet tr tr' \<and> archive_ok a'"
  by (rule perform_quiet [OF assms(1,2), of S "StartRecording ch sid loc"]) (simp add: answers_def assms(3))

lemma stopRecording_quiet:
  assumes "break_stops E" and "archive_ok a" and "archive_stopRecording S E ch sid a tr = Some (r, a', tr')"
  shows "quiet tr tr' \<and> archive_ok a'"
  by (rule perform_quiet [OF assms(1,2), of S "StopRecording ch sid"]) (simp add: answers_def assms(3))

text \<open>What no step changes, and what a step of the polling thread leaves alone.\<close>

definition same_setup :: "throughput_system \<Rightarrow> throughput_system \<Rightarrow> bool" where
  "same_setup s s' \<longleftrightarrow>
     rt_disableRecording s' = rt_disableRecording s \<and> rt_channel s' = rt_channel s \<and> rt_streamId s' = rt_streamId s \<and>
     rt_numberOfMessages s' = rt_numberOfMessages s \<and> rt_messageLength s' = rt_messageLength s"

lemma same_setup_refl [simp]: "same_setup s s"
  by (simp add: same_setup_def)

lemma same_setup_trans: "same_setup a b \<Longrightarrow> same_setup b c \<Longrightarrow> same_setup a c"
  by (simp add: same_setup_def)

definition polls_only :: "throughput_system \<Rightarrow> throughput_system \<Rightarrow> bool" where
  "polls_only s s' \<longleftrightarrow>
     same_setup s s' \<and> rt_archive s' = rt_archive s \<and> rt_running s' = rt_running s \<and>
     rt_stopPosition s' = rt_stopPosition s \<and>
     (rt_main s' = rt_main s \<or> rt_main s' = Undefined) \<and> quiet (rt_history s) (rt_history s')"

lemma handle_polls_only: "polls_only s (handle X cb s) \<and> rt_poller (handle X cb s) = rt_poller s"
  by (cases cb)
    (auto simp: polls_only_def same_setup_def OnProgressHandler_def OnStopHandler_def call_defs Let_def split: option.split)

lemma poller_step_polls_only:
  assumes "poller_step X s = Some s'"
  shows "polls_only s s'"
proof (cases "rt_poller s")
  case Subscribing
  show ?thesis
  proof (cases "rt_disableRecording s")
    case False
    then obtain x tr where "add_and_find (se_env X) Sub (get_recordingEventsChannel (aa_ctx (rt_archive s)))
        (get_recordingEventsStreamId (aa_ctx (rt_archive s))) (rt_history s) = Some (x, tr)"
      using assms Subscribing by (auto simp: poller_step_def split: option.splits)
    then show ?thesis
      using assms Subscribing False add_and_find_quiet
      by (cases x) (auto simp: poller_step_def polls_only_def same_setup_def)
  qed (use assms Subscribing in \<open>auto simp: poller_step_def polls_only_def same_setup_def\<close>)
next
  case Polling
  then show ?thesis
    using assms
    by (auto simp: poller_step_def polls_only_def same_setup_def intro: events_poll_quiet split: if_splits prod.splits)
next
  case (Handling cbs r)
  show ?thesis
  proof (cases cbs)
    case Nil
    then show ?thesis
      using assms Handling
      by (cases r) (auto simp: poller_step_def polls_only_def same_setup_def call_defs)
  next
    case (Cons cb cbs')
    then have "s' = handle X cb (s\<lparr>rt_poller := Handling cbs' r\<rparr>)"
      using assms Handling by (simp add: poller_step_def)
    then show ?thesis
      using handle_polls_only [of "s\<lparr>rt_poller := Handling cbs' r\<rparr>" X cb]
      by (auto simp: polls_only_def same_setup_def)
  qed
qed (use assms in \<open>simp add: poller_step_def\<close>)

text \<open>The messages of a round, in order; so many whole rounds of them, and so many of the next one.\<close>

definition all_messages :: "throughput_system \<Rightarrow> byte list list" where
  "all_messages s = map (\<lambda>i. message_bytes (rt_messageLength s) (word_of_nat i)) [0..<nat (sint (rt_numberOfMessages s))]"

definition published :: "trace \<Rightarrow> throughput_system \<Rightarrow> nat \<Rightarrow> nat \<Rightarrow> bool" where
  "published tr0 s k j \<longleftrightarrow>
     (\<exists>es. rt_history s = es @ tr0 \<and> accepted es = concat (replicate k (all_messages s)) @ take j (all_messages s))"

fun publish_stage :: "(nat \<Rightarrow> nat \<Rightarrow> bool) \<Rightarrow> main_pc \<Rightarrow> bool" where
  "publish_stage P (Publishing _ _ i) \<longleftrightarrow> 0 \<le> sint i \<and> (\<exists>k. P k (nat (sint i)))"
| "publish_stage P (Positioning _ _) \<longleftrightarrow> (\<exists>k. P (Suc k) 0)"
| "publish_stage P (Rating _) \<longleftrightarrow> (\<exists>k. P (Suc k) 0)"
| "publish_stage P Waiting \<longleftrightarrow> (\<exists>k. P (Suc k) 0)"
| "publish_stage P Asking \<longleftrightarrow> (\<exists>k. P (Suc k) 0)"
| "publish_stage P (Joining c) \<longleftrightarrow> (if c = 0 then \<exists>k. P (Suc k) 0 else \<exists>k j. P k j)"
| "publish_stage P (Stopping c) \<longleftrightarrow> (if c = 0 then \<exists>k. P (Suc k) 0 else \<exists>k j. P k j)"
| "publish_stage P (Exited c) \<longleftrightarrow> (if c = 0 then \<exists>k. P (Suc k) 0 else \<exists>k j. P k j)"
| "publish_stage P Terminated \<longleftrightarrow> (\<exists>k j. P k j)"
| "publish_stage P Undefined \<longleftrightarrow> (\<exists>k j. P k j)"
| "publish_stage P _ \<longleftrightarrow> (\<exists>k. P k 0)"

lemma publish_stage_mono: "publish_stage P pc \<Longrightarrow> (\<And>k j. P k j \<Longrightarrow> Q k j) \<Longrightarrow> publish_stage Q pc"
  by (cases pc) (auto split: if_splits)

lemma publish_stage_some: "publish_stage P pc \<Longrightarrow> \<exists>k j. P k j"
  by (cases pc) (auto split: if_splits)

lemma accepted_append: "accepted (xs @ ys) = accepted ys @ accepted xs"
  by (induction xs rule: accepted.induct) simp_all

lemma accepted_quiet: "list_all (\<lambda>e. \<not> data_offer e) es \<Longrightarrow> accepted es = []"
  by (induction es rule: accepted.induct) simp_all

lemma published_quiet:
  assumes "published tr0 s k j" and "same_setup s s'" and "quiet (rt_history s) (rt_history s')"
  shows "published tr0 s' k j"
proof -
  have "all_messages s' = all_messages s" using assms(2) by (simp add: all_messages_def same_setup_def)
  moreover obtain es where "rt_history s = es @ tr0"
      "accepted es = concat (replicate k (all_messages s)) @ take j (all_messages s)"
    using assms(1) by (auto simp: published_def)
  moreover obtain es' where "rt_history s' = es' @ rt_history s" "accepted es' = []"
    using assms(3) accepted_quiet by (auto simp: quiet_def)
  ultimately show ?thesis
    unfolding published_def by (intro exI [of _ "es' @ es"]) (simp add: accepted_append)
qed

lemma published_whole:
  assumes "published tr0 s k j" and "length (all_messages s) \<le> j"
  shows "published tr0 s (Suc k) 0"
proof -
  have "concat (replicate (Suc k) xs) = concat (replicate k xs) @ xs" for xs :: "byte list list"
    by (induction k) simp_all
  then show ?thesis using assms by (auto simp: published_def)
qed

lemma sint_Suc:
  assumes "i <s n"
  shows "sint (i + 1 :: int32) = sint i + 1"
proof -
  have "- (2 ^ 31) \<le> sint i" "sint i + 1 < 2 ^ 31"
    using assms sint_greater_eq [of i] sint_less [of n] by (simp_all add: word_sless_alt)
  then have "signed_take_bit 31 (sint i + 1) = sint i + 1"
    by (intro signed_take_bit_int_eq_self) simp_all
  then show ?thesis by (simp add: sint_word_ariths)
qed

lemma word_of_nat_sint: "0 \<le> sint (i :: int32) \<Longrightarrow> word_of_nat (nat (sint i)) = i"
  by (simp add: of_nat_nat)

lemma published_message:
  assumes "published tr0 s k (nat (sint i))" and "0 \<le> sint i" and "i <s rt_numberOfMessages s"
    and "same_setup s s'" and "rt_history s' = DataOffered (message_bytes (rt_messageLength s) i) r # rt_history s"
    and "\<not> r <s 0"
  shows "published tr0 s' k (nat (sint (i + 1)))"
proof -
  have "all_messages s' = all_messages s" using assms(4) by (simp add: all_messages_def same_setup_def)
  moreover obtain es where "rt_history s = es @ tr0"
      "accepted es = concat (replicate k (all_messages s)) @ take (nat (sint i)) (all_messages s)"
    using assms(1) by (auto simp: published_def)
  moreover have "nat (sint i) < length (all_messages s)"
    using assms(2,3) by (simp add: all_messages_def word_sless_alt)
  then have "take (Suc (nat (sint i))) (all_messages s) =
      take (nat (sint i)) (all_messages s) @ [message_bytes (rt_messageLength s) i]"
    using assms(2) by (simp add: take_Suc_conv_app_nth) (simp add: all_messages_def word_of_nat_sint)
  moreover have "nat (sint (i + 1)) = Suc (nat (sint i))" using sint_Suc [OF assms(3)] assms(2) by simp
  ultimately show ?thesis
    unfolding published_def
    by (intro exI [of _ "DataOffered (message_bytes (rt_messageLength s) i) r # es"]) (simp add: assms(5,6))
qed

text \<open>The invariant of the process, kept by every step.\<close>

definition publish_inv :: "trace \<Rightarrow> throughput_system \<Rightarrow> bool" where
  "publish_inv tr0 s \<longleftrightarrow> archive_ok (rt_archive s) \<and> publish_stage (published tr0 s) (rt_main s)"

lemma polls_only_inv:
  assumes "publish_inv tr0 s" and "polls_only s s'"
  shows "publish_inv tr0 s'"
proof -
  have keep: "published tr0 s k j \<Longrightarrow> published tr0 s' k j" for k j
    using assms(2) published_quiet by (auto simp: polls_only_def)
  then have stage: "publish_stage (published tr0 s') (rt_main s)"
    using assms(1) publish_stage_mono unfolding publish_inv_def by blast
  then have "publish_stage (published tr0 s') (rt_main s')"
    using assms(2) publish_stage_some [OF stage] by (fastforce simp: polls_only_def)
  then show ?thesis using assms by (simp add: publish_inv_def polls_only_def)
qed

text \<open>A step of the main thread that offers nothing, from a place where whole rounds are published.\<close>

lemma quiet_stage:
  assumes "published tr0 s k 0" and "archive_ok (rt_archive s')" and "same_setup s s'"
    and "quiet (rt_history s) (rt_history s')"
    and "\<And>P. P k 0 \<Longrightarrow> publish_stage P (rt_main s')"
  shows "publish_inv tr0 s'"
  using assms(2,5) published_quiet [OF assms(1,3,4)] by (simp add: publish_inv_def)

lemma offer_step_inv:
  assumes "publish_inv tr0 s" and "rt_main s = Publishing pubId start i"
  shows "publish_inv tr0 (offer_step X pubId start i s)"
proof -
  obtain k where i: "0 \<le> sint i" and k: "published tr0 s k (nat (sint i))" and ok: "archive_ok (rt_archive s)"
    using assms by (auto simp: publish_inv_def)
  have keep: "published tr0 s' k (nat (sint i))" if "same_setup s s'" "quiet (rt_history s) (rt_history s')" for s'
    using published_quiet [OF k that] .
  show ?thesis
  proof (cases "i <s rt_numberOfMessages s")
    case False
    then have "length (all_messages s) \<le> nat (sint i)" by (simp add: all_messages_def word_sless_alt)
    then have "published tr0 s (Suc k) 0" by (rule published_whole [OF k])
    then show ?thesis
      using False ok
      by (intro quiet_stage [where s = s and k = "Suc k"]) (auto simp: offer_step_def same_setup_def)
  next
    case True
    show ?thesis
    proof (cases "rt_messageLength s <s 4")
      case True
      with \<open>i <s rt_numberOfMessages s\<close> have "offer_step X pubId start i s = s\<lparr>rt_main := Joining 1\<rparr>"
        by (simp add: offer_step_def)
      then show ?thesis using keep [of "s\<lparr>rt_main := Joining 1\<rparr>"] ok by (auto simp: publish_inv_def same_setup_def)
    next
      case False
      let ?r = "se_offer X (rt_history s) (message_bytes (rt_messageLength s) i)"
      show ?thesis
      proof (cases ?r)
        case (Inl e)
        let ?s = "s\<lparr>rt_history := Raised e # rt_history s, rt_main := Joining 1\<rparr>"
        have "offer_step X pubId start i s = ?s"
          using True False Inl by (simp add: offer_step_def call_offerData_def Let_def)
        then show ?thesis using keep [of ?s] ok by (auto simp: publish_inv_def same_setup_def)
      next
        case (Inr r)
        let ?offer = "DataOffered (message_bytes (rt_messageLength s) i) r # rt_history s"
        show ?thesis
        proof (cases "r <s 0")
          case True
          let ?s = "s\<lparr>rt_history := Yielded # ?offer\<rparr>"
          have "offer_step X pubId start i s = ?s"
            using True False Inr \<open>i <s rt_numberOfMessages s\<close>
            by (simp add: offer_step_def call_offerData_def call_defs Let_def)
          moreover obtain es where "rt_history s = es @ tr0"
              "accepted es = concat (replicate k (all_messages s)) @ take (nat (sint i)) (all_messages s)"
            using k by (auto simp: published_def)
          then have "published tr0 ?s k (nat (sint i))"
            using True unfolding published_def
            by (intro exI [of _ "Yielded # DataOffered (message_bytes (rt_messageLength s) i) r # es"])
              (simp add: all_messages_def)
          ultimately show ?thesis using assms ok i by (auto simp: publish_inv_def)
        next
          case False
          let ?s = "s\<lparr>rt_history := ?offer, rt_main := Publishing pubId start (i + 1)\<rparr>"
          have "offer_step X pubId start i s = ?s"
            using False \<open>\<not> rt_messageLength s <s 4\<close> Inr True
            by (simp add: offer_step_def call_offerData_def Let_def)
          moreover have "published tr0 ?s k (nat (sint (i + 1)))"
            by (rule published_message [OF k i True _ _ False]) (simp_all add: same_setup_def)
          moreover have "0 \<le> sint (i + 1)" using sint_Suc [OF True] i by simp
          ultimately show ?thesis using ok by (auto simp: publish_inv_def)
        qed
      qed
    qed
  qed
qed

lemma start_step_inv:
  assumes "break_stops (se_env X)" and "publish_inv tr0 s" and "rt_main s = Starting" and "start_step X s = Some s'"
  shows "publish_inv tr0 s'"
proof -
  obtain k where k: "published tr0 s k 0" and ok: "archive_ok (rt_archive s)"
    using assms(2,3) by (auto simp: publish_inv_def)
  show ?thesis
  proof (cases "rt_disableRecording s")
    case True
    then show ?thesis
      using assms(4) ok by (intro quiet_stage [OF k]) (auto simp: start_step_def same_setup_def)
  next
    case False
    then obtain x a tr where run: "archive_startRecording (se_sbe X) (se_env X) (rt_channel s) (rt_streamId s) LOCAL
        (rt_archive s) (rt_history s) = Some (x, a, tr)"
      using assms(4) by (auto simp: start_step_def split: option.splits)
    from startRecording_quiet [OF assms(1) ok run] show ?thesis
      using assms(4) run False
      by (cases x; intro quiet_stage [OF k]) (fastforce simp: start_step_def same_setup_def)+
  qed
qed

lemma add_step_inv:
  assumes "publish_inv tr0 s" and "rt_main s = Adding" and "add_step X s = Some s'"
  shows "publish_inv tr0 s'"
proof -
  obtain k where k: "published tr0 s k 0" and ok: "archive_ok (rt_archive s)"
    using assms(1,2) by (auto simp: publish_inv_def)
  obtain x tr where run: "add_and_find (se_env X) ExclusivePub (rt_channel s) (rt_streamId s) (rt_history s) = Some (x, tr)"
    using assms(3) by (auto simp: add_step_def split: option.splits)
  from add_and_find_quiet [OF run] show ?thesis
    using assms(3) run ok
    by (cases x; intro quiet_stage [OF k]) (fastforce simp: add_step_def same_setup_def)+
qed

lemma stop_step_inv:
  assumes "break_stops (se_env X)" and "publish_inv tr0 s" and "rt_main s = Stopping c" and "stop_step X c s = Some s'"
  shows "publish_inv tr0 s'"
proof -
  have ok: "archive_ok (rt_archive s)" and stage: "publish_stage (published tr0 s) (Stopping c)"
    using assms(2,3) by (auto simp: publish_inv_def)
  obtain x :: "unit result" where s': "quiet (rt_history s) (rt_history s')" "archive_ok (rt_archive s')" "same_setup s s'"
      "rt_main s' = (if isl x then Terminated else Exited c)"
  proof (cases "rt_disableRecording s")
    case True
    then show ?thesis
      using that [of "Inr ()"] assms(4) ok by (auto simp: stop_step_def same_setup_def)
  next
    case False
    then obtain x a tr where run: "archive_stopRecording (se_sbe X) (se_env X) (rt_channel s) (rt_streamId s)
        (rt_archive s) (rt_history s) = Some (x, a, tr)"
      using assms(4) by (auto simp: stop_step_def split: option.splits)
    from stopRecording_quiet [OF assms(1) ok run] show ?thesis
      using that [of x] assms(4) run False by (cases x) (auto simp: stop_step_def same_setup_def)
  qed
  have "publish_stage (published tr0 s') (Stopping c)"
    by (rule publish_stage_mono [OF stage]) (rule published_quiet [OF _ s'(3,1)])
  then show ?thesis
    using s'(2,4) publish_stage_some by (fastforce simp: publish_inv_def split: if_splits)
qed

lemma main_step_inv:
  assumes "break_stops (se_env X)" and "publish_inv tr0 s" and "main_step X repeat s = Some s'"
  shows "publish_inv tr0 s'"
proof -
  have ok: "archive_ok (rt_archive s)" and stage: "publish_stage (published tr0 s) (rt_main s)"
    using assms(2) by (auto simp: publish_inv_def)
  show ?thesis
  proof (cases "rt_main s")
    case Starting
    then show ?thesis using assms start_step_inv by (simp add: main_step_def)
  next
    case Adding
    then show ?thesis using assms add_step_inv by (simp add: main_step_def)
  next
    case (Publishing pubId start i)
    then show ?thesis using assms offer_step_inv by (auto simp: main_step_def)
  next
    case (Stopping c)
    then show ?thesis using assms stop_step_inv by (simp add: main_step_def)
  next
    case (Joining c)
    then have s': "s' = s\<lparr>rt_main := Stopping c\<rparr>" using assms(3) by (simp add: main_step_def split: if_splits)
    have "publish_stage (published tr0 s') (Joining c)"
      using stage unfolding Joining
      by (rule publish_stage_mono) (erule published_quiet, simp_all add: s' same_setup_def)
    then show ?thesis using ok by (simp add: publish_inv_def s')
  next
    case (Timing pubId)
    then obtain k where k: "published tr0 s k 0" using stage by auto
    have "s' = time_step X pubId s" using assms(3) Timing by (simp add: main_step_def)
    then show ?thesis
      using ok by (intro quiet_stage [OF k]) (fastforce simp: time_step_def call_defs Let_def same_setup_def)+
  next
    case (Rating start)
    then obtain k where k: "published tr0 s (Suc k) 0" using stage by auto
    have "s' = rate_step X start s" using assms(3) Rating by (simp add: main_step_def)
    then show ?thesis
      using ok by (intro quiet_stage [OF k])
        (fastforce simp: rate_step_def call_defs Let_def same_setup_def split: option.split)+
  next
    case Waiting
    then obtain k where k: "published tr0 s (Suc k) 0" using stage by auto
    then show ?thesis
      using ok assms(3) Waiting
      by (intro quiet_stage [OF k]) (auto simp: main_step_def same_setup_def split: if_splits)
  next
    case Asking
    then obtain k where k: "published tr0 s (Suc k) 0" using stage by auto
    then show ?thesis
      using ok assms(3) Asking
      by (intro quiet_stage [OF k]) (auto simp: main_step_def same_setup_def split: if_splits)
  next
    case (Positioning pubId start)
    then obtain k where k: "published tr0 s (Suc k) 0" using stage by auto
    then show ?thesis
      using ok assms(3) Positioning
      by (intro quiet_stage [OF k]) (auto simp: main_step_def same_setup_def)
  next
    case (Arming pubId)
    then obtain k where k: "published tr0 s k 0" using stage by auto
    then show ?thesis
      using ok assms(3) Arming by (intro quiet_stage [OF k]) (auto simp: main_step_def same_setup_def)
  next
    case (Limiting pubId)
    then obtain k where k: "published tr0 s k 0" using stage by auto
    then show ?thesis
      using ok assms(3) Limiting by (intro quiet_stage [OF k]) (auto simp: main_step_def same_setup_def)
  qed (use assms(3) in \<open>simp_all add: main_step_def\<close>)
qed

lemma signal_inv:
  assumes "publish_inv tr0 s"
  shows "publish_inv tr0 (s\<lparr>rt_running := False\<rparr>)"
proof -
  have "publish_stage (published tr0 (s\<lparr>rt_running := False\<rparr>)) (rt_main s)"
    using assms unfolding publish_inv_def
    by (elim conjE publish_stage_mono) (erule published_quiet, simp_all add: same_setup_def)
  then show ?thesis using assms by (simp add: publish_inv_def)
qed

interpretation publishing: process_invariant X "\<lambda>s. break_stops (se_env X) \<longrightarrow> publish_inv tr0 s" for X tr0
  by unfold_locales (auto intro: main_step_inv signal_inv polls_only_inv poller_step_polls_only)

text \<open>
  C15: Every message is published, once and in order. At any time in a run of the program, however
  its threads take turns, the data whose offer was accepted since the beginning is some number of
  whole rounds and a part of the next one, a round being the messages \<open>0\<close> to \<open>n - 1\<close> in order, each
  as long as asked for. While the program waits for the recording or for an answer, and when it has exited
  with 0, it is whole rounds only, and at least one.
\<close>

theorem rounds_are_published_in_order:
  assumes "break_stops (se_env X)" and "throughput_begin X memory opt tr = Some (Inr s0)"
    and "throughput_run X s0 ts s"
  shows "\<exists>es k j. rt_history s = es @ rt_history s0 \<and>
     accepted es = concat (replicate k (all_messages s)) @ take j (all_messages s) \<and>
     (rt_main s = Waiting \<or> rt_main s = Asking \<or> rt_main s = Exited 0 \<longrightarrow> 0 < k \<and> j = 0)"
proof -
  have "publish_inv (rt_history s0) s0"
    using begin_ready [OF assms(1,2)] by (auto simp: publish_inv_def published_def intro: exI [of _ 0])
  then have "publish_inv (rt_history s0) s"
    using publishing.run_keeps [OF assms(3), of "rt_history s0"] assms(1) by blast
  then have stage: "publish_stage (published (rt_history s0) s) (rt_main s)" by (simp add: publish_inv_def)
  show ?thesis
  proof (cases "rt_main s = Waiting \<or> rt_main s = Asking \<or> rt_main s = Exited 0")
    case True
    then obtain k where "published (rt_history s0) s (Suc k) 0" using stage by auto
    then show ?thesis unfolding published_def by blast
  next
    case False
    obtain k j where "published (rt_history s0) s k j" using publish_stage_some [OF stage] by blast
    then show ?thesis using False unfolding published_def by blast
  qed
qed

lemma rounds_are_published_in_order_witness:
  "\<exists>s0 ts s es k. throughput_begin server_world sample_system (sample_throughput_options 256) [] = Some (Inr s0) \<and>
     throughput_run server_world s0 ts s \<and> rt_main s = Exited 0 \<and> rt_history s = es @ rt_history s0 \<and>
     accepted es = concat (replicate k (all_messages s)) \<and> 0 < k"
proof -
  obtain s0 s where s: "throughput_begin server_world sample_system (sample_throughput_options 256) [] = Some (Inr s0)"
      "reaches server_world s0 s" "rt_main s = Exited 0"
    using server_run by blast
  obtain ts where run: "throughput_run server_world s0 ts s" using reaches_run [OF s(2)] by blast
  have stops: "break_stops (se_env server_world)" by (simp add: server_break_stops)
  obtain es k j where "rt_history s = es @ rt_history s0"
      "accepted es = concat (replicate k (all_messages s)) @ take j (all_messages s)" "0 < k \<and> j = 0"
    using rounds_are_published_in_order [OF stops s(1) run] s(3) by blast
  then show ?thesis using s(1,3) run by auto
qed

end
