(* ===== verification/ThroughputEnds.thy ===== *)
theory ThroughputEnds
  imports ThroughputRounds
begin

text \<open>
  How the throughput program waits and how it ends: what clears the flag it waits for, what has
  been done when it exits, and that after an exception it does not.
\<close>

section \<open>Waiting for the recording\<close>

text \<open>From the flag set to the end of the wait; and the calls whose handlers clear the flag.\<close>

fun in_round :: "main_pc \<Rightarrow> bool" where
  "in_round (Limiting _) = True"
| "in_round (Timing _) = True"
| "in_round (Publishing _ _ _) = True"
| "in_round (Positioning _ _) = True"
| "in_round (Rating _) = True"
| "in_round Waiting = True"
| "in_round _ = False"

definition releases :: "throughput_system \<Rightarrow> bool" where
  "releases s \<longleftrightarrow>
     (case rt_poller s of
        Handling (OnProgress _ _ position # _) _ \<Rightarrow> rt_stopPosition s \<le>s position
      | Handling (OnStop _ _ _ # _) _ \<Rightarrow> True
      | _ \<Rightarrow> False)"

lemma main_step_round:
  assumes "main_step X repeat s = Some s'"
  shows "in_round (rt_main s') \<Longrightarrow> in_round (rt_main s) \<or> rt_isRecording s'"
    and "rt_isRecording s \<Longrightarrow> rt_isRecording s'"
  using assms
  by (cases "rt_main s";
      auto simp: main_step_def start_step_def add_step_def time_step_def offer_step_def rate_step_def stop_step_def
        call_defs Let_def split: if_splits option.splits sum.splits prod.splits)+

lemma handle_release:
  assumes "rt_isRecording s" and "\<not> rt_isRecording (handle X cb s)"
  shows "case cb of OnProgress _ _ position \<Rightarrow> rt_stopPosition s \<le>s position | OnStop _ _ _ \<Rightarrow> True | _ \<Rightarrow> False"
  using assms by (cases cb) (auto simp: OnProgressHandler_def OnStopHandler_def split: if_splits)

lemma poller_step_release:
  assumes "poller_step X s = Some s'" and "rt_isRecording s" and "\<not> rt_isRecording s'"
  shows "releases s"
proof (cases "rt_poller s")
  case (Handling cbs r)
  show ?thesis
  proof (cases cbs)
    case Nil
    then show ?thesis using assms Handling by (cases r) (auto simp: poller_step_def)
  next
    case (Cons cb cbs')
    then have "s' = handle X cb (s\<lparr>rt_poller := Handling cbs' r\<rparr>)"
      using assms(1) Handling by (simp add: poller_step_def)
    then show ?thesis
      using handle_release [of "s\<lparr>rt_poller := Handling cbs' r\<rparr>" X cb] assms(2,3) Handling Cons
      by (cases cb) (auto simp: releases_def)
  qed
qed (use assms in \<open>auto simp: poller_step_def split: if_splits option.splits sum.splits prod.splits\<close>)

lemma step_round:
  assumes "throughput_step X s t s'" and "in_round (rt_main s')"
  shows "in_round (rt_main s) \<or> rt_isRecording s'"
  using assms(1)
proof cases
  case (main repeat)
  then show ?thesis using main_step_round(1) assms(2) by blast
next
  case poller
  then have "rt_main s' = rt_main s"
    using poller_step_polls_only [of X s s'] assms(2) by (auto simp: polls_only_def)
  then show ?thesis using assms(2) by simp
qed (use assms(2) in auto)

lemma step_release:
  assumes "throughput_step X s t s'" and "rt_isRecording s" and "\<not> rt_isRecording s'"
  shows "t = Poller \<and> releases s"
  using assms(1)
proof cases
  case (main repeat)
  then show ?thesis using main_step_round(2) assms(2,3) by blast
next
  case poller
  then show ?thesis using poller_step_release assms(2,3) by blast
qed (use assms in auto)

lemma run_within_first: "run_within X P s ts s' \<Longrightarrow> P s"
  by (induction rule: run_within.induct)

lemma round_released:
  assumes "run_within X P s0 ts s" and "P = (\<lambda>_. True)" and "\<not> in_round (rt_main s0)"
    and "in_round (rt_main s)" and "\<not> rt_isRecording s"
  shows "\<exists>ts1 s1 ts2. ts = ts1 @ Poller # ts2 \<and> throughput_run X s0 ts1 s1 \<and> releases s1 \<and>
     run_within X (\<lambda>s. in_round (rt_main s)) s1 (Poller # ts2) s"
  using assms
proof (induction rule: run_within.induct)
  case (more s0 ts s t s2)
  have run: "throughput_run X s0 ts s" using more.hyps(1) more.prems(1) by simp
  show ?case
  proof (cases "rt_isRecording s")
    case True
    then have t: "t = Poller" "releases s" using step_release more.hyps(2) more.prems(4) by blast+
    moreover have "in_round (rt_main s)" using step_round more.hyps(2) more.prems(3,4) by blast
    then have "run_within X (\<lambda>s. in_round (rt_main s)) s ([] @ [t]) s2"
      using more.prems(3) by (intro run_within.more [OF run_within.none more.hyps(2)])
    ultimately show ?thesis using run by (intro exI [of _ ts] exI [of _ s] exI [of _ "[]"]) simp
  next
    case False
    then have "in_round (rt_main s)" using step_round more.hyps(2) more.prems(3,4) by blast
    then obtain ts1 s1 ts2 where "ts = ts1 @ Poller # ts2" "throughput_run X s0 ts1 s1" "releases s1"
        "run_within X (\<lambda>s. in_round (rt_main s)) s1 (Poller # ts2) s"
      using more.IH more.prems(1,2) False by blast
    then show ?thesis
      using run_within.more [OF _ more.hyps(2), of "\<lambda>s. in_round (rt_main s)" s1 "Poller # ts2"] more.prems(3)
      by (intro exI [of _ ts1] exI [of _ s1] exI [of _ "ts2 @ [t]"]) simp
  qed
qed simp

text \<open>
  C21: The wait ends for an event. When the main thread leaves the wait for the recording, although the
  recording is not disabled, then earlier in the same round, after the flag was set, the polling
  thread handled a call of the adapter: of a recording that stopped, or of progress up to the stop
  position that the object held at that time. It may have been any recording: the handlers do not
  look at the recording id.
\<close>

theorem wait_ends_after_an_event:
  assumes "throughput_begin X memory opt tr = Some (Inr s0)" and "throughput_run X s0 ts s"
    and "rt_main s = Waiting" and "\<not> rt_disableRecording s"
    and "throughput_step X s Main s'" and "rt_main s' = Asking"
  shows "\<exists>ts1 s1 ts2. ts = ts1 @ Poller # ts2 \<and> throughput_run X s0 ts1 s1 \<and>
     (\<exists>cb cbs r. rt_poller s1 = Handling (cb # cbs) r \<and>
        ((\<exists>recordingId startPosition position. cb = OnStop recordingId startPosition position) \<or>
         (\<exists>recordingId startPosition position. cb = OnProgress recordingId startPosition position \<and>
            rt_stopPosition s1 \<le>s position))) \<and>
     run_within X (\<lambda>s. in_round (rt_main s)) s1 (Poller # ts2) s"
proof -
  have "rt_main s0 = Starting"
    using assms(1) by (auto simp: throughput_begin_def mk_RecordingThroughput_def split: if_splits option.splits sum.splits)
  then have "\<not> in_round (rt_main s0)" by simp
  moreover have "\<not> rt_isRecording s"
    using assms(3-6) by (auto elim!: throughput_stepE simp: main_step_def split: if_splits)
  ultimately obtain ts1 s1 ts2 where "ts = ts1 @ Poller # ts2" "throughput_run X s0 ts1 s1" "releases s1"
      "run_within X (\<lambda>s. in_round (rt_main s)) s1 (Poller # ts2) s"
    using round_released [OF assms(2) refl] assms(3) by auto
  then show ?thesis
    by (intro exI [of _ ts1] exI [of _ s1] exI [of _ ts2])
      (auto simp: releases_def split: poller_pc.splits list.splits callback.splits)
qed

lemma wait_ends_after_an_event_witness:
  "\<exists>s0 ts s1 cb cbs r. throughput_begin server_world sample_system (sample_throughput_options 256) [] = Some (Inr s0) \<and>
     throughput_run server_world s0 ts s1 \<and> rt_poller s1 = Handling (cb # cbs) r \<and> in_round (rt_main s1)"
proof -
  obtain s0 s where s: "throughput_begin server_world sample_system (sample_throughput_options 256) [] = Some (Inr s0)"
      "reaches server_world s0 s" "rt_main s = Waiting" "\<not> rt_disableRecording s"
      "main_step server_world False s = Some (s\<lparr>rt_main := Asking\<rparr>)"
    using server_run by blast
  obtain ts where run: "throughput_run server_world s0 ts s" using reaches_run [OF s(2)] by blast
  have step: "throughput_step server_world s Main (s\<lparr>rt_main := Asking\<rparr>)"
    using s(3,5) by (intro throughput_step.main) simp_all
  have "rt_main (s\<lparr>rt_main := Asking\<rparr>) = Asking" by simp
  from wait_ends_after_an_event [OF s(1) run s(3,4) step this]
  obtain ts1 s1 ts2 cb cbs r where "throughput_run server_world s0 ts1 s1" "rt_poller s1 = Handling (cb # cbs) r"
      "run_within server_world (\<lambda>s. in_round (rt_main s)) s1 (Poller # ts2) s"
    by blast
  then show ?thesis using s(1) run_within_first by blast
qed

section \<open>The end of the process\<close>

text \<open>The polling thread does not fail: it is subscribed, and no poll throws.\<close>

definition polls_return :: "samples_env \<Rightarrow> bool" where
  "polls_return X \<longleftrightarrow>
     (\<forall>channel streamId tr e tr'. add_and_find (se_env X) Sub channel streamId tr \<noteq> Some (Inl e, tr')) \<and>
     (\<forall>tr. \<not> isl (fst (events_poll (se_sbe X) (se_env X) (mk_RecordingEventsAdapter FRAGMENTS_LIMIT) tr)))"

fun poller_alive :: "poller_pc \<Rightarrow> bool" where
  "poller_alive (Handling _ r) \<longleftrightarrow> \<not> isl r"
| "poller_alive Ended = False"
| "poller_alive _ = True"

lemma poller_step_alive:
  assumes "polls_return X" and "poller_step X s = Some s'" and "poller_alive (rt_poller s)"
    and "rt_running s" and "\<not> rt_disableRecording s"
  shows "poller_alive (rt_poller s')"
proof (cases "rt_poller s")
  case (Handling cbs r)
  then show ?thesis
    using assms handle_polls_only
    by (cases cbs; cases r) (auto simp: poller_step_def)
next
  case Polling
  obtain r a tr where p: "events_poll (se_sbe X) (se_env X) (mk_RecordingEventsAdapter FRAGMENTS_LIMIT) (rt_history s) = (r, a, tr)"
    by (metis prod.exhaust)
  then have "\<not> isl r" using assms(1) unfolding polls_return_def by (metis fst_conv)
  then show ?thesis using assms(2,4) Polling p by (auto simp: poller_step_def)
next
  case Subscribing
  then show ?thesis
    using assms(1,2,5) by (auto simp: poller_step_def polls_return_def split: option.splits sum.splits)
qed (use assms in simp)

text \<open>
  Without a signal the flag stays set and the polling thread alive, until the main thread clears the flag on
  its way to the exit code 0. Once it has thrown instead, it never gets there.
\<close>

fun not_leaving :: "main_pc \<Rightarrow> bool" where
  "not_leaving (Joining c) \<longleftrightarrow> c = 1"
| "not_leaving (Stopping _) = False"
| "not_leaving (Exited _) = False"
| "not_leaving Terminated = False"
| "not_leaving _ = True"

definition polls_on :: "throughput_system \<Rightarrow> bool" where
  "polls_on s \<longleftrightarrow> \<not> rt_disableRecording s \<and> rt_running s \<and> poller_alive (rt_poller s)"

definition unsignalled :: "throughput_system \<Rightarrow> bool" where
  "unsignalled s \<longleftrightarrow> polls_on s \<and> not_leaving (rt_main s) \<or>
     rt_main s \<in> {Joining 0, Stopping 0, Exited 0, Terminated, Undefined}"

definition abandoned :: "throughput_system \<Rightarrow> bool" where
  "abandoned s \<longleftrightarrow> polls_on s \<and> (rt_main s = Joining 1 \<or> rt_main s = Undefined)"

lemma poller_step_polls_on:
  assumes "polls_return X" and "polls_on s" and "poller_step X s = Some s'"
  shows "polls_on s' \<and> (rt_main s' = rt_main s \<or> rt_main s' = Undefined)"
  using poller_step_alive [OF assms(1,3)] poller_step_polls_only [OF assms(3)] assms(2)
  by (auto simp: polls_on_def polls_only_def same_setup_def)

lemma main_step_unsignalled:
  assumes "unsignalled s" and "main_step X repeat s = Some s'"
  shows "unsignalled s'"
  using assms
  by (cases "rt_main s";
      auto simp: unsignalled_def polls_on_def main_step_def start_step_def add_step_def time_step_def offer_step_def
        rate_step_def stop_step_def call_defs Let_def split: if_splits option.splits sum.splits prod.splits)

lemma poller_step_unsignalled:
  assumes "polls_return X" and "unsignalled s" and "poller_step X s = Some s'"
  shows "unsignalled s'"
proof (cases "polls_on s \<and> not_leaving (rt_main s)")
  case True
  then show ?thesis
    using poller_step_polls_on [OF assms(1) _ assms(3)] by (auto simp: unsignalled_def)
next
  case False
  then have "rt_main s \<in> {Joining 0, Stopping 0, Exited 0, Terminated, Undefined}"
    using assms(2) by (auto simp: unsignalled_def)
  moreover have "rt_main s' = rt_main s \<or> rt_main s' = Undefined"
    using poller_step_polls_only [OF assms(3)] by (auto simp: polls_only_def)
  ultimately show ?thesis by (auto simp: unsignalled_def)
qed

interpretation unsignalled: silent_invariant X "\<lambda>s. polls_return X \<longrightarrow> unsignalled s" for X
  by unfold_locales (auto intro: main_step_unsignalled poller_step_unsignalled)

interpretation abandoned: silent_invariant X "\<lambda>s. polls_return X \<longrightarrow> abandoned s" for X
proof unfold_locales
  show "polls_return X \<longrightarrow> abandoned s'"
    if "polls_return X \<longrightarrow> abandoned s" and "main_step X repeat s = Some s'" for repeat s s'
    using that by (auto simp: abandoned_def polls_on_def main_step_def split: if_splits)
  show "polls_return X \<longrightarrow> abandoned s'"
    if "polls_return X \<longrightarrow> abandoned s" and "poller_step X s = Some s'" for s s'
    using that poller_step_polls_on unfolding abandoned_def by metis
qed

text \<open>
  C18: After an exception the program does not end, when it records. In a run of the program without
  \<^verbatim>\<open>disable-recording\<close>, in which no signal comes and the polling thread does not fail (it can subscribe,
  and no poll throws), consider any state in which the main thread has thrown and so waits, on its
  way to the exit code 1, in the destructor for the polling thread. Whatever threw, the flag that the polling thread
  looks at is still set, and nobody clears it: in every later state the main thread still waits
  there and the polling thread has not ended, unless a handler has divided by 0, which is
  undefined. The process is never over with an exit code.
\<close>

theorem exceptions_leave_the_program_waiting:
  assumes "polls_return X" and "throughput_begin X memory opt tr = Some (Inr s0)" and "\<not> to_disableRecording opt"
    and "throughput_run X s0 ts s" and "rt_main s = Joining 1"
    and "throughput_run X s ts' s'" and "Signal \<notin> set (ts @ ts')"
  shows "rt_running s \<and> rt_running s' \<and> rt_poller s' \<noteq> Ended \<and> (rt_main s' = Joining 1 \<or> rt_main s' = Undefined)"
proof -
  have "unsignalled s0"
    using assms(2,3)
    by (auto simp: throughput_begin_def mk_RecordingThroughput_def unsignalled_def polls_on_def
        split: if_splits option.splits sum.splits)
  then have "unsignalled s"
    using unsignalled.silent_run_keeps [OF assms(4)] assms(1,7) by simp
  then have "abandoned s" using assms(5) by (simp add: unsignalled_def abandoned_def)
  then have "abandoned s \<and> abandoned s'"
    using abandoned.silent_run_keeps [OF assms(6)] assms(1,7) by simp
  then show ?thesis by (auto simp: abandoned_def polls_on_def)
qed

lemma exceptions_leave_the_program_waiting_witness:
  "\<exists>s0 ts s ts' s'. throughput_begin server_world sample_system (sample_throughput_options (- 1)) [] = Some (Inr s0) \<and>
     throughput_run server_world s0 ts s \<and> rt_main s = Joining 1 \<and> throughput_run server_world s ts' s' \<and>
     rt_poller s' = Polling \<and> rt_running s' \<and> (rt_main s' = Joining 1 \<or> rt_main s' = Undefined)"
proof -
  obtain s0 s s' where s: "throughput_begin server_world sample_system (sample_throughput_options (- 1)) [] = Some (Inr s0)"
      "reaches server_world s0 s" "rt_main s = Joining 1" "reaches server_world s s'" "rt_poller s' = Polling"
    using server_throws by blast
  obtain ts where run: "Signal \<notin> set ts" "throughput_run server_world s0 ts s" using reaches_run [OF s(2)] by blast
  obtain ts' where run': "Signal \<notin> set ts'" "throughput_run server_world s ts' s'" using reaches_run [OF s(4)] by blast
  have "polls_return server_world"
    by (simp add: polls_return_def server_add_and_find server_events_return)
  moreover have "\<not> to_disableRecording (sample_throughput_options (- 1))"
    by (simp add: sample_throughput_options_def throughput_defaults_def)
  moreover have "Signal \<notin> set (ts @ ts')" using run(1) run'(1) by simp
  ultimately have "rt_running s' \<and> (rt_main s' = Joining 1 \<or> rt_main s' = Undefined)"
    using exceptions_leave_the_program_waiting [OF _ s(1) _ run(2) s(3) run'(2)] by blast
  then show ?thesis using s run(2) run'(2) by blast
qed

text \<open>What has been done at each place: the recording started, the flag cleared, the thread ended.\<close>

definition start_answered :: "samples_env \<Rightarrow> string \<Rightarrow> int32 \<Rightarrow> trace \<Rightarrow> bool" where
  "start_answered X channel streamId tr \<longleftrightarrow>
     (\<exists>a tr1 v. archive_ok a \<and> exchanged (se_sbe X) (se_env X) a
        (operation_request (StartRecording channel streamId LOCAL) (aa_controlSessionId a))
        ''start recording'' tr1 (Inr v) tr)"

definition stop_answered :: "samples_env \<Rightarrow> string \<Rightarrow> int32 \<Rightarrow> trace \<Rightarrow> bool" where
  "stop_answered X channel streamId tr \<longleftrightarrow>
     (\<exists>a tr1 v. archive_ok a \<and> exchanged (se_sbe X) (se_env X) a
        (operation_request (StopRecording channel streamId) (aa_controlSessionId a))
        ''stop recording'' tr1 (Inr v) tr)"

definition started :: "samples_env \<Rightarrow> throughput_system \<Rightarrow> bool" where
  "started X s \<longleftrightarrow> rt_disableRecording s \<or>
     (\<exists>tr. start_answered X (rt_channel s) (rt_streamId s) tr \<and> extends tr (rt_history s))"

definition stopped :: "samples_env \<Rightarrow> throughput_system \<Rightarrow> bool" where
  "stopped X s \<longleftrightarrow> rt_disableRecording s \<or> stop_answered X (rt_channel s) (rt_streamId s) (rt_history s)"

fun end_stage :: "samples_env \<Rightarrow> throughput_system \<Rightarrow> main_pc \<Rightarrow> bool" where
  "end_stage X s Starting \<longleftrightarrow> True"
| "end_stage X s (Joining c) \<longleftrightarrow> (c = 0 \<longrightarrow> started X s \<and> \<not> rt_running s)"
| "end_stage X s (Stopping c) \<longleftrightarrow> rt_poller s = Ended \<and> (c = 0 \<longrightarrow> started X s \<and> \<not> rt_running s)"
| "end_stage X s (Exited c) \<longleftrightarrow> rt_poller s = Ended \<and> stopped X s \<and> (c = 0 \<longrightarrow> started X s \<and> \<not> rt_running s)"
| "end_stage X s Terminated \<longleftrightarrow> True"
| "end_stage X s Undefined \<longleftrightarrow> True"
| "end_stage X s _ \<longleftrightarrow> started X s"

lemma quiet_later: "quiet tr tr' \<Longrightarrow> \<exists>es. tr' = es @ tr"
  by (auto simp: quiet_def)

lemma started_later:
  assumes "started X s" and "same_setup s s'" and "\<exists>es. rt_history s' = es @ rt_history s"
  shows "started X s'"
  using assms extends_append unfolding started_def same_setup_def by metis

lemma perform_exchanged:
  assumes "break_stops E" and "archive_ok a" and "perform S E o' a tr = Some (Inr w, a', tr')"
  shows "\<exists>v. exchanged S E a (operation_request o' (aa_controlSessionId a)) (operation_name o') tr (Inr v) tr'"
proof -
  obtain x where "exchanged S E a (operation_request o' (aa_controlSessionId a)) (operation_name o') tr x tr'"
      "Inr w = bind_result x (\<lambda>v. Inr (operation_answer o' v))"
    using perform_outcome [OF assms] by blast
  then show ?thesis by (cases x) auto
qed

definition end_inv :: "samples_env \<Rightarrow> throughput_system \<Rightarrow> bool" where
  "end_inv X s \<longleftrightarrow> archive_ok (rt_archive s) \<and> end_stage X s (rt_main s)"

lemma main_step_later:
  assumes "break_stops (se_env X)" and "archive_ok (rt_archive s)" and "main_step X repeat s = Some s'"
  shows "same_setup s s'" and "\<exists>es. rt_history s' = es @ rt_history s" and "archive_ok (rt_archive s')"
proof -
  have "same_setup s s' \<and> (\<exists>es. rt_history s' = es @ rt_history s) \<and> archive_ok (rt_archive s')"
  proof (cases "rt_main s")
    case Starting
    then show ?thesis
      using assms(2,3) startRecording_quiet [OF assms(1,2)] quiet_later
      by (auto simp: main_step_def start_step_def same_setup_def split: if_splits option.splits sum.splits)
  next
    case Adding
    then show ?thesis
      using assms(2,3) add_and_find_quiet quiet_later
      by (auto simp: main_step_def add_step_def same_setup_def split: option.splits sum.splits)
  next
    case (Stopping c)
    then show ?thesis
      using assms(2,3) stopRecording_quiet [OF assms(1,2)] quiet_later
      by (auto simp: main_step_def stop_step_def same_setup_def split: if_splits option.splits sum.splits)
  next
    case (Publishing pubId start i)
    then show ?thesis
      using assms(2,3)
      by (auto simp: main_step_def offer_step_def same_setup_def call_offerData_def call_defs Let_def
          split: if_splits sum.splits)
  next
    case (Timing pubId)
    then show ?thesis
      using assms(2,3) by (auto simp: main_step_def time_step_def same_setup_def call_defs Let_def split: if_splits)
  next
    case (Rating start)
    then show ?thesis
      using assms(2,3) by (auto simp: main_step_def rate_step_def same_setup_def call_defs Let_def split: option.splits)
  qed (use assms(2,3) in \<open>auto simp: main_step_def same_setup_def split: if_splits\<close>)
  then show "same_setup s s'" "\<exists>es. rt_history s' = es @ rt_history s" "archive_ok (rt_archive s')" by blast+
qed

lemma start_step_started:
  assumes "break_stops (se_env X)" and "archive_ok (rt_archive s)" and "start_step X s = Some s'"
    and "rt_main s' \<noteq> Joining 1"
  shows "started X s' \<and> rt_main s' = Adding"
proof (cases "rt_disableRecording s")
  case True
  then show ?thesis using assms(3) by (auto simp: start_step_def started_def)
next
  case False
  then obtain v a tr where run: "archive_startRecording (se_sbe X) (se_env X) (rt_channel s) (rt_streamId s) LOCAL
      (rt_archive s) (rt_history s) = Some (Inr v, a, tr)"
    using assms(3,4) by (auto simp: start_step_def split: option.splits sum.splits)
  then have "perform (se_sbe X) (se_env X) (StartRecording (rt_channel s) (rt_streamId s) LOCAL) (rt_archive s)
      (rt_history s) = Some (Inr (Value64 v), a, tr)"
    by (simp add: answers_def)
  from perform_exchanged [OF assms(1,2) this] obtain w where
    ex: "exchanged (se_sbe X) (se_env X) (rt_archive s)
      (operation_request (StartRecording (rt_channel s) (rt_streamId s) LOCAL) (aa_controlSessionId (rt_archive s)))
      ''start recording'' (rt_history s) (Inr w) tr" by auto
  have s': "s' = s\<lparr>rt_archive := a, rt_history := tr, rt_main := Adding\<rparr>"
    using assms(3) False run by (simp add: start_step_def)
  have "start_answered X (rt_channel s) (rt_streamId s) tr" using ex assms(2) unfolding start_answered_def by blast
  then have "started X s'" by (auto simp: started_def s')
  then show ?thesis by (simp add: s')
qed

lemma stop_step_stopped:
  assumes "break_stops (se_env X)" and "archive_ok (rt_archive s)" and "stop_step X c s = Some s'"
  shows "rt_main s' = Terminated \<or> rt_main s' = Exited c \<and> stopped X s'"
    and "rt_poller s' = rt_poller s" and "rt_running s' = rt_running s"
proof -
  show "rt_main s' = Terminated \<or> rt_main s' = Exited c \<and> stopped X s'"
  proof (cases "rt_disableRecording s \<or> rt_main s' = Terminated")
    case False
    then obtain u a tr where run: "archive_stopRecording (se_sbe X) (se_env X) (rt_channel s) (rt_streamId s)
        (rt_archive s) (rt_history s) = Some (Inr u, a, tr)"
      using assms(3) by (auto simp: stop_step_def split: option.splits sum.splits)
    then have "perform (se_sbe X) (se_env X) (StopRecording (rt_channel s) (rt_streamId s)) (rt_archive s)
        (rt_history s) = Some (Inr Done, a, tr)"
      by (simp add: answers_def)
    from perform_exchanged [OF assms(1,2) this] obtain w where
      ex: "exchanged (se_sbe X) (se_env X) (rt_archive s)
        (operation_request (StopRecording (rt_channel s) (rt_streamId s)) (aa_controlSessionId (rt_archive s)))
        ''stop recording'' (rt_history s) (Inr w) tr" by auto
    have s': "s' = s\<lparr>rt_archive := a, rt_history := tr, rt_main := Exited c\<rparr>"
      using assms(3) False run by (simp add: stop_step_def)
    have "stop_answered X (rt_channel s) (rt_streamId s) tr" using ex assms(2) unfolding stop_answered_def by blast
    then show ?thesis by (simp add: stopped_def s')
  qed (use assms(3) in \<open>auto simp: stop_step_def stopped_def split: option.splits sum.splits\<close>)
  show "rt_poller s' = rt_poller s" "rt_running s' = rt_running s"
    using assms(3) by (auto simp: stop_step_def split: if_splits option.splits sum.splits)
qed

lemma main_step_end:
  assumes "break_stops (se_env X)" and "end_inv X s" and "main_step X repeat s = Some s'"
  shows "end_inv X s'"
proof -
  have ok: "archive_ok (rt_archive s)" and stage: "end_stage X s (rt_main s)"
    using assms(2) by (auto simp: end_inv_def)
  note later = main_step_later [OF assms(1) ok assms(3)]
  have keep: "started X s \<Longrightarrow> started X s'" using started_later later(1,2) by blast
  have "end_stage X s' (rt_main s')"
  proof (cases "rt_main s")
    case Starting
    then have run: "start_step X s = Some s'" using assms(3) by (simp add: main_step_def)
    show ?thesis
    proof (cases "rt_main s' = Joining 1")
      case False
      then show ?thesis using start_step_started [OF assms(1) ok run] by simp
    qed simp
  next
    case Adding
    then show ?thesis
      using assms(3) stage keep by (auto simp: main_step_def add_step_def split: option.splits sum.splits)
  next
    case (Publishing pubId start i)
    then show ?thesis
      using assms(3) stage keep
      by (auto simp: main_step_def offer_step_def call_offerData_def Let_def split: if_splits sum.splits)
  next
    case (Timing pubId)
    then show ?thesis
      using assms(3) stage keep by (auto simp: main_step_def time_step_def call_defs Let_def split: if_splits)
  next
    case (Rating start)
    then show ?thesis
      using assms(3) stage keep by (auto simp: main_step_def rate_step_def call_defs Let_def split: option.splits)
  next
    case (Stopping c)
    then have run: "stop_step X c s = Some s'" using assms(3) by (simp add: main_step_def)
    show ?thesis using stop_step_stopped [OF assms(1) ok run] stage keep Stopping by auto
  qed (use assms(3) stage keep in \<open>auto simp: main_step_def split: if_splits\<close>)
  then show ?thesis using later(3) by (simp add: end_inv_def)
qed

lemma poller_step_end:
  assumes "end_inv X s" and "\<not> over (rt_main s)" and "poller_step X s = Some s'"
  shows "end_inv X s'"
proof -
  have only: "polls_only s s'" using assms(3) poller_step_polls_only by blast
  have "rt_poller s \<noteq> Ended" using assms(3) by (auto simp: poller_step_def)
  moreover have "started X s \<Longrightarrow> started X s'"
    using only started_later quiet_later by (auto simp: polls_only_def)
  ultimately have "end_stage X s' (rt_main s')"
    using only assms(1,2) by (cases "rt_main s") (auto simp: polls_only_def end_inv_def)
  then show ?thesis using only assms(1) by (simp add: end_inv_def polls_only_def)
qed

lemma signal_end:
  assumes "end_inv X s" and "\<not> over (rt_main s)"
  shows "end_inv X (s\<lparr>rt_running := False\<rparr>)"
proof -
  have "started X s \<Longrightarrow> started X (s\<lparr>rt_running := False\<rparr>)" by (auto simp: started_def)
  then show ?thesis using assms by (cases "rt_main s") (auto simp: end_inv_def)
qed

interpretation ending: process_invariant X "\<lambda>s. break_stops (se_env X) \<longrightarrow> end_inv X s \<and> same_setup s0 s" for X s0
proof unfold_locales
  show "break_stops (se_env X) \<longrightarrow> end_inv X s' \<and> same_setup s0 s'"
    if "break_stops (se_env X) \<longrightarrow> end_inv X s \<and> same_setup s0 s" and "main_step X repeat s = Some s'" for repeat s s'
    using that main_step_end main_step_later(1) same_setup_trans by (metis end_inv_def)
  show "break_stops (se_env X) \<longrightarrow> end_inv X s' \<and> same_setup s0 s'"
    if "break_stops (se_env X) \<longrightarrow> end_inv X s \<and> same_setup s0 s" and "\<not> over (rt_main s)"
      and "poller_step X s = Some s'" for s s'
    using that poller_step_end poller_step_polls_only same_setup_trans by (metis polls_only_def)
qed (auto simp: same_setup_def intro: signal_end)

text \<open>
  C16: The program exits only when it is done. If it is over before it begins, the code is 1, and it was asked for help
  or could not connect. After that, when it is over with an exit code, the polling thread has
  ended; and unless recording was disabled by the options, the last thing that happened is that a
  request to stop recording the channel and stream of the options was answered, and if the code is
  0, a request to start recording them was answered before. The flag that the signal clears is
  false when the code is 0.
\<close>

theorem exits_when_done:
  assumes "break_stops (se_env X)"
  shows "case throughput_begin X memory opt tr of
       None \<Rightarrow> True
     | Some (Inl (code, tr1)) \<Rightarrow>
         code = 1 \<and> (to_help opt \<and> tr1 = tr \<or> (\<exists>e. connect_configured X (to_file opt) tr = Some (Inl e, tr1)))
     | Some (Inr s0) \<Rightarrow>
         \<forall>ts s code. throughput_run X s0 ts s \<and> rt_main s = Exited code \<longrightarrow>
           rt_poller s = Ended \<and> (code = 0 \<longrightarrow> \<not> rt_running s) \<and>
           (to_disableRecording opt \<or>
              stop_answered X (to_channel opt) (to_streamId opt) (rt_history s) \<and>
              (code = 0 \<longrightarrow> (\<exists>tr2. start_answered X (to_channel opt) (to_streamId opt) tr2 \<and> extends tr2 (rt_history s))))"
proof -
  have done_: "rt_poller s = Ended \<and> (code = 0 \<longrightarrow> \<not> rt_running s) \<and>
      (to_disableRecording opt \<or>
         stop_answered X (to_channel opt) (to_streamId opt) (rt_history s) \<and>
         (code = 0 \<longrightarrow> (\<exists>tr2. start_answered X (to_channel opt) (to_streamId opt) tr2 \<and> extends tr2 (rt_history s))))"
    if b: "throughput_begin X memory opt tr = Some (Inr s0)" and run: "throughput_run X s0 ts s" "rt_main s = Exited code"
    for s0 ts s code
  proof -
    have "end_inv X s0" using begin_ready [OF assms b] by (simp add: end_inv_def)
    then have "end_inv X s" "same_setup s0 s" using ending.run_keeps [OF run(1), of s0] assms by simp_all
    moreover have "rt_disableRecording s0 = to_disableRecording opt" "rt_channel s0 = to_channel opt"
        "rt_streamId s0 = to_streamId opt"
      using b by (auto simp: throughput_begin_def mk_RecordingThroughput_def split: if_splits option.splits sum.splits)
    ultimately show ?thesis using run(2) by (auto simp: end_inv_def same_setup_def started_def stopped_def)
  qed
  show ?thesis
  proof (cases "throughput_begin X memory opt tr")
    case (Some r)
    show ?thesis
    proof (cases r)
      case (Inl early)
      then show ?thesis
        using Some by (auto simp: throughput_begin_def split: if_splits option.splits sum.splits)
    next
      case (Inr s0)
      show ?thesis using done_ [OF Some [unfolded Inr]] unfolding Some Inr option.case sum.case by blast
    qed
  qed simp
qed

lemma exits_when_done_witness:
  "\<exists>s0 ts s tr2. throughput_begin server_world sample_system (sample_throughput_options 256) [] = Some (Inr s0) \<and>
     throughput_run server_world s0 ts s \<and> rt_main s = Exited 0 \<and>
     stop_answered server_world ''aeron:ipc'' 10 (rt_history s) \<and>
     start_answered server_world ''aeron:ipc'' 10 tr2 \<and> extends tr2 (rt_history s)"
proof -
  obtain s0 s where s: "throughput_begin server_world sample_system (sample_throughput_options 256) [] = Some (Inr s0)"
      "reaches server_world s0 s" "rt_main s = Exited 0"
    using server_run by blast
  obtain ts where run: "throughput_run server_world s0 ts s" using reaches_run [OF s(2)] by blast
  have stops: "break_stops (se_env server_world)" by (simp add: server_break_stops)
  have opt: "to_channel (sample_throughput_options 256) = ''aeron:ipc''" "to_streamId (sample_throughput_options 256) = 10"
      "\<not> to_disableRecording (sample_throughput_options 256)"
    by (simp_all add: sample_throughput_options_def throughput_defaults_def)
  from exits_when_done [OF stops, where memory = sample_system and opt = "sample_throughput_options 256"
      and tr = "[]", unfolded s(1) option.case sum.case]
  have "stop_answered server_world ''aeron:ipc'' 10 (rt_history s) \<and>
      (\<exists>tr2. start_answered server_world ''aeron:ipc'' 10 tr2 \<and> extends tr2 (rt_history s))"
    using run s(3) opt(3) unfolding opt(1,2) by blast
  then show ?thesis using s(1,3) run by blast
qed

end
