(* ===== verification/ThroughputShutdown.thy ===== *)
theory ThroughputShutdown
  imports ThroughputEnds
begin

text \<open>
  What stops the throughput program and what does not: once it shuts down it ends, in a bounded
  number of steps; but an interrupt during a round, or offers that are refused, leave the main
  thread where it is for ever.
\<close>

section \<open>Shutting down\<close>

text \<open>
  The steps that are left, other than signals: of the polling thread, and with those of the main thread,
  which joins it and stops the recording. And the greatest length of the history until then.
\<close>

fun poller_work :: "poller_pc \<Rightarrow> nat" where
  "poller_work Subscribing = 2"
| "poller_work Polling = 1"
| "poller_work (Handling cbs _) = length cbs + 2"
| "poller_work Ended = 0"

definition shutdown_work :: "throughput_system \<Rightarrow> nat" where
  "shutdown_work s = (case rt_main s of Joining _ \<Rightarrow> poller_work (rt_poller s) + 2 | Stopping _ \<Rightarrow> 1 | _ \<Rightarrow> 0)"

definition history_bound :: "nat \<Rightarrow> throughput_system \<Rightarrow> nat" where
  "history_bound F s =
     (case rt_poller s of
        Subscribing \<Rightarrow> max (length (rt_history s)) (F + 1) + 2
      | Handling cbs _ \<Rightarrow> length (rt_history s) + length cbs + 1
      | _ \<Rightarrow> length (rt_history s))"

definition closing :: "nat \<Rightarrow> throughput_system \<Rightarrow> bool" where
  "closing c s \<longleftrightarrow> \<not> rt_running s \<and>
     (rt_main s = Joining c \<or> rt_main s = Stopping c \<and> rt_poller s = Ended \<or>
      rt_main s \<in> {Exited c, Terminated, Undefined})"

lemma length_handle: "length (rt_history (handle X cb s)) \<le> length (rt_history s) + 1"
  by (cases cb) (auto simp: OnProgressHandler_def OnStopHandler_def call_defs Let_def split: option.split)

lemma poller_step_work:
  assumes "poller_step X s = Some s'" and "\<not> rt_running s" and "found_after (se_env X) F"
  shows "poller_work (rt_poller s') < poller_work (rt_poller s) \<and> history_bound F s' \<le> history_bound F s"
proof (cases "rt_poller s")
  case Subscribing
  obtain x tr where sub: "add_and_find (se_env X) Sub (get_recordingEventsChannel (aa_ctx (rt_archive s)))
      (get_recordingEventsStreamId (aa_ctx (rt_archive s))) (rt_history s) = Some (x, tr)"
    "length tr \<le> max (length (rt_history s)) (F + 1) + 2"
    using add_and_find_returns [OF assms(3)] by blast
  then show ?thesis
    using assms(1) Subscribing
    by (cases x) (auto simp: poller_step_def history_bound_def split: if_splits)
next
  case Polling
  then have "s' = s\<lparr>rt_poller := Ended\<rparr>" using assms(1,2) by (simp add: poller_step_def)
  then show ?thesis using Polling by (simp add: history_bound_def)
next
  case (Handling cbs r)
  show ?thesis
  proof (cases cbs)
    case Nil
    then show ?thesis
      using assms(1) Handling by (cases r) (auto simp: poller_step_def history_bound_def call_defs)
  next
    case (Cons cb cbs')
    then have s': "s' = handle X cb (s\<lparr>rt_poller := Handling cbs' r\<rparr>)"
      using assms(1) Handling by (simp add: poller_step_def)
    have "rt_poller s' = Handling cbs' r" using handle_polls_only s' by simp
    then show ?thesis
      using length_handle [of X cb "s\<lparr>rt_poller := Handling cbs' r\<rparr>"] Handling Cons s'
      by (simp add: history_bound_def)
  qed
qed (use assms(1) in \<open>simp add: poller_step_def\<close>)

lemma poller_step_possible:
  assumes "rt_poller s \<noteq> Ended" and "found_after (se_env X) F"
  shows "\<exists>s'. poller_step X s = Some s'"
proof (cases "rt_poller s")
  case Subscribing
  obtain x tr where sub: "add_and_find (se_env X) Sub (get_recordingEventsChannel (aa_ctx (rt_archive s)))
      (get_recordingEventsStreamId (aa_ctx (rt_archive s))) (rt_history s) = Some (x, tr)"
    using add_and_find_returns [OF assms(2)] by blast
  then show ?thesis using Subscribing by (cases x) (auto simp: poller_step_def)
next
  case (Handling cbs r)
  then show ?thesis by (cases cbs; cases r) (auto simp: poller_step_def)
qed (use assms(1) in \<open>auto simp: poller_step_def split: prod.split\<close>)

lemma stopRecording_returns:
  assumes "break_stops E" and "archive_ok a" and "quiet_after E M"
    and "deadlines_pass E (aa_messageTimeoutNs a) (length tr + 2 * nat (max 1 (sint (px_retryAttempts (aa_proxy a)))) + 2) N"
  shows "\<exists>x a' tr'. archive_stopRecording S E ch sid a tr = Some (x, a', tr')"
proof -
  have "\<forall>tr2. extends tr tr2 \<and>
      length tr2 \<le> length tr + 2 * nat (max 1 (sint (px_retryAttempts (aa_proxy a)))) + 2 \<longrightarrow>
      clock_passes E (env_now E tr2 + aa_messageTimeoutNs a) N"
    using assms(4) by (simp add: deadlines_pass_def)
  from operation_exchange.exchange_returns [OF assms(1-3) this]
  obtain r where "callAndPollForResponse S E (operation_sender (StopRecording ch sid) (aa_controlSessionId a) S E)
      (operation_name (StopRecording ch sid)) a tr = Some r" by blast
  then show ?thesis
    by (cases r rule: prod_cases3) (simp add: archive_stopRecording_def operation_sender_def [abs_def] request_defs drop_value_def)
qed

text \<open>What one step of a closing process does.\<close>

definition closer :: "samples_env \<Rightarrow> nat \<Rightarrow> nat \<Rightarrow> throughput_system \<Rightarrow> nat \<Rightarrow> throughput_system \<Rightarrow> bool" where
  "closer X F c s n s' \<longleftrightarrow> closing c s' \<and> shutdown_work s' + n \<le> shutdown_work s \<and>
     (\<not> over (rt_main s') \<longrightarrow> rt_archive s' = rt_archive s \<and> history_bound F s' \<le> history_bound F s)"

lemma main_step_closer:
  assumes "closing c s" and "\<not> over (rt_main s)" and "main_step X repeat s = Some s'"
  shows "closer X F c s 1 s'"
proof (cases "rt_main s = Joining c")
  case True
  then have "s' = s\<lparr>rt_main := Stopping c\<rparr>" "rt_poller s = Ended"
    using assms(3) by (auto simp: main_step_def split: if_splits)
  then show ?thesis using assms(1) True by (simp add: closer_def closing_def shutdown_work_def history_bound_def)
next
  case False
  then have st: "rt_main s = Stopping c" "rt_poller s = Ended" "\<not> rt_running s"
    using assms(1,2) by (auto simp: closing_def)
  then have run: "stop_step X c s = Some s'" using assms(3) by (simp add: main_step_def)
  then have "rt_main s' = Exited c \<or> rt_main s' = Terminated" and "rt_running s' = rt_running s"
    by (auto simp: stop_step_def split: if_splits option.splits sum.splits)
  then show ?thesis using st by (auto simp: closer_def closing_def shutdown_work_def)
qed

lemma poller_step_closer:
  assumes "closing c s" and "\<not> over (rt_main s)" and "poller_step X s = Some s'" and "found_after (se_env X) F"
  shows "closer X F c s 1 s'"
proof -
  have p: "rt_poller s \<noteq> Ended" using assms(3) by (auto simp: poller_step_def)
  then have join: "rt_main s = Joining c" and "\<not> rt_running s" using assms(1,2) by (auto simp: closing_def)
  moreover have "polls_only s s'" using assms(3) by (rule poller_step_polls_only)
  ultimately show ?thesis
    using poller_step_work [OF assms(3) _ assms(4)]
    by (auto simp: closer_def closing_def shutdown_work_def polls_only_def)
qed

lemma step_closer:
  assumes "closing c s" and "throughput_step X s t s'" and "found_after (se_env X) F"
  shows "closer X F c s (if t = Signal then 0 else 1) s'"
  using assms(2)
proof cases
  case (main repeat)
  then show ?thesis using main_step_closer [OF assms(1)] by simp
next
  case poller
  then show ?thesis using poller_step_closer [OF assms(1) _ _ assms(3)] by simp
next
  case signal
  then show ?thesis
    using assms(1) by (auto simp: closer_def closing_def shutdown_work_def history_bound_def split: poller_pc.split)
qed

lemma run_closer:
  assumes "run_within X P s ts s'" and "closing c s" and "found_after (se_env X) F"
  shows "closer X F c s (length (filter (\<lambda>t. t \<noteq> Signal) ts)) s'"
  using assms
proof (induction rule: run_within.induct)
  case (more s ts s1 t s2)
  then have "\<not> over (rt_main s1)" by (auto elim: throughput_stepE)
  moreover have c: "closer X F c s (length (filter (\<lambda>t. t \<noteq> Signal) ts)) s1" using more by blast
  moreover have "closing c s1" using c by (simp add: closer_def)
  from step_closer [OF this more.hyps(2) more.prems(2)] have "closer X F c s1 (if t = Signal then 0 else 1) s2" .
  ultimately show ?case by (auto simp: closer_def split: if_splits)
qed (simp add: closer_def)

lemma closing_goes_on:
  assumes "break_stops (se_env X)" and "found_after (se_env X) F" and "quiet_after (se_env X) M"
    and "archive_ok (rt_archive s)"
    and "deadlines_pass (se_env X) (aa_messageTimeoutNs (rt_archive s))
       (history_bound F s + 2 * nat (max 1 (sint (px_retryAttempts (aa_proxy (rt_archive s))))) + 2) N"
    and "closing c s" and "\<not> over (rt_main s)"
  shows "\<exists>t s'. t \<noteq> Signal \<and> throughput_step X s t s'"
proof (cases "rt_main s = Joining c")
  case True
  show ?thesis
  proof (cases "rt_poller s = Ended")
    case ended: True
    then have "main_step X True s = Some (s\<lparr>rt_main := Stopping c\<rparr>)" using True by (simp add: main_step_def)
    then show ?thesis using assms(7) throughput_step.main by blast
  next
    case False
    then show ?thesis using poller_step_possible [OF _ assms(2)] assms(7) throughput_step.poller by blast
  qed
next
  case False
  then have st: "rt_main s = Stopping c" "rt_poller s = Ended" using assms(6,7) by (auto simp: closing_def)
  then have "history_bound F s = length (rt_history s)" by (simp add: history_bound_def)
  then obtain x a tr where "archive_stopRecording (se_sbe X) (se_env X) (rt_channel s) (rt_streamId s)
      (rt_archive s) (rt_history s) = Some (x, a, tr)"
    using stopRecording_returns [OF assms(1,4,3)] assms(5) by force
  then have "\<exists>s'. main_step X True s = Some s'"
    using st by (cases x) (auto simp: main_step_def stop_step_def)
  then show ?thesis using assms(7) throughput_step.main by blast
qed

text \<open>
  C17: The program shuts down, if its surroundings let it. Let the main thread wait for the polling thread, the flag be
  cleared and the client be usable. Assume that a controlled poll keeps its contract, that Aeron finds every
  resource, that messages stop coming and that the clock passes the deadlines of the
  request to stop the recording (without these, \<open>stopRecording\<close> need not return). Then in every interleaving only so many steps are left as the polling
  thread has calls to handle, and at most four more; until the process is over one of its threads
  can take a step. So it ends, with the exit code it was to have, or by \<^verbatim>\<open>std::terminate\<close> when that
  request fails in the destructor, or where a handler divides by 0.
\<close>

theorem shutdown_ends:
  assumes "break_stops (se_env X)" and "found_after (se_env X) F" and "quiet_after (se_env X) M"
    and "archive_ok (rt_archive s)"
    and "deadlines_pass (se_env X) (aa_messageTimeoutNs (rt_archive s))
       (history_bound F s + 2 * nat (max 1 (sint (px_retryAttempts (aa_proxy (rt_archive s))))) + 2) N"
    and "rt_main s = Joining c" and "\<not> rt_running s" and "throughput_run X s ts s'"
  shows "length (filter (\<lambda>t. t \<noteq> Signal) ts) \<le> poller_work (rt_poller s) + 2 \<and>
     (if over (rt_main s') then rt_main s' \<in> {Exited c, Terminated, Undefined}
      else \<exists>t s''. t \<noteq> Signal \<and> throughput_step X s' t s'')"
proof -
  have closing: "closing c s" using assms(6,7) by (simp add: closing_def)
  have c: "closer X F c s (length (filter (\<lambda>t. t \<noteq> Signal) ts)) s'"
    by (rule run_closer [OF assms(8) closing assms(2)])
  have "\<exists>t s''. t \<noteq> Signal \<and> throughput_step X s' t s''" if "\<not> over (rt_main s')"
  proof (rule closing_goes_on [OF assms(1-3)])
    show "deadlines_pass (se_env X) (aa_messageTimeoutNs (rt_archive s'))
       (history_bound F s' + 2 * nat (max 1 (sint (px_retryAttempts (aa_proxy (rt_archive s'))))) + 2) N"
      using assms(5) c that by (auto simp: closer_def deadlines_pass_def)
  qed (use c that assms(4) in \<open>auto simp: closer_def\<close>)
  then show ?thesis using c assms(6) by (auto simp: closer_def closing_def shutdown_work_def)
qed

definition quiet_world :: samples_env where
  "quiet_world = server_world\<lparr>se_env := sample_env None\<rparr>"

lemma shutdown_ends_witness:
  "\<exists>s s'. rt_main s = Joining 0 \<and> throughput_run quiet_world s [Poller, Main] s' \<and> rt_main s' = Stopping 0 \<and>
     (\<exists>t s''. t \<noteq> Signal \<and> throughput_step quiet_world s' t s'')"
proof -
  let ?X = quiet_world
  let ?s = "sample_system\<lparr>rt_main := Joining 0, rt_poller := Polling, rt_running := False\<rparr>"
  let ?s1 = "?s\<lparr>rt_poller := Ended\<rparr>"
  let ?s2 = "?s1\<lparr>rt_main := Stopping 0\<rparr>"
  have E: "se_env ?X = sample_env None" by (simp add: quiet_world_def)
  have s1: "throughput_step ?X ?s Poller ?s1" by (rule throughput_step.poller) (simp_all add: poller_step_def)
  have "main_step ?X True ?s1 = Some ?s2" by (simp add: main_step_def)
  then have s2: "throughput_step ?X ?s1 Main ?s2" by (intro throughput_step.main) simp_all
  from run_within.more [OF run_within.more [OF run_within.none s1] s2]
  have run: "throughput_run ?X ?s [Poller, Main] ?s2" by simp
  have ok: "archive_ok (rt_archive ?s)" by (simp add: sample_system_def sample_archive_ok)
  have deadlines: "deadlines_pass (se_env ?X) (aa_messageTimeoutNs (rt_archive ?s))
      (history_bound 0 ?s + 2 * nat (max 1 (sint (px_retryAttempts (aa_proxy (rt_archive ?s))))) + 2) 200"
    using sample_deadline
    by (simp add: E deadlines_pass_def sample_system_def history_bound_def sample_archive_def sample_proxy_def)
  have "found_after (se_env ?X) 0" "quiet_after (se_env ?X) 1" "break_stops (se_env ?X)"
    by (simp_all add: E found_after_def sample_quiet sample_break_stops) (simp add: sample_env_def)
  from shutdown_ends [OF this(3,1,2) ok deadlines _ _ run, of 0]
  have "\<exists>t s''. t \<noteq> Signal \<and> throughput_step ?X ?s2 t s''" by simp
  then show ?thesis using run by (intro exI [of _ ?s] exI [of _ ?s2]) simp
qed

section \<open>An interrupt during a round\<close>

text \<open>
  The main thread is before the end of a round, and if the flag it will wait for is armed, it is set; or
  it has thrown. The polling thread has no event to handle.
\<close>

fun ahead :: "main_pc \<Rightarrow> bool" where
  "ahead Starting = True"
| "ahead Adding = True"
| "ahead (Arming _) = True"
| "ahead _ = False"

definition unfinished :: "throughput_system \<Rightarrow> bool" where
  "unfinished s \<longleftrightarrow> ahead (rt_main s) \<or> in_round (rt_main s) \<and> rt_isRecording s"

fun aborted :: "main_pc \<Rightarrow> bool" where
  "aborted (Joining c) \<longleftrightarrow> c = 1"
| "aborted (Stopping c) \<longleftrightarrow> c = 1"
| "aborted (Exited c) \<longleftrightarrow> c = 1"
| "aborted Terminated = True"
| "aborted Undefined = True"
| "aborted _ = False"

fun eventless :: "poller_pc \<Rightarrow> bool" where
  "eventless (Handling cbs _) \<longleftrightarrow> cbs = []"
| "eventless _ = True"

definition interrupted :: "throughput_system \<Rightarrow> bool" where
  "interrupted s \<longleftrightarrow> \<not> rt_disableRecording s \<and> \<not> rt_running s \<and> eventless (rt_poller s) \<and>
     (unfinished s \<or> aborted (rt_main s))"

lemma main_step_interrupted:
  assumes "interrupted s" and "main_step X repeat s = Some s'"
  shows "interrupted s'"
  using assms
  by (cases "rt_main s";
      auto simp: interrupted_def unfinished_def main_step_def start_step_def add_step_def time_step_def offer_step_def
        rate_step_def stop_step_def call_defs Let_def split: if_splits option.splits sum.splits prod.splits)

lemma poller_step_eventless:
  assumes "poller_step X s = Some s'" and "eventless (rt_poller s)" and "\<not> rt_running s"
  shows "eventless (rt_poller s') \<and> rt_main s' = rt_main s \<and> rt_isRecording s' = rt_isRecording s \<and>
     rt_running s' = rt_running s \<and> rt_disableRecording s' = rt_disableRecording s"
proof (cases "rt_poller s")
  case Subscribing
  then show ?thesis
    using assms(1) by (auto simp: poller_step_def split: if_splits option.splits sum.splits)
next
  case (Handling cbs r)
  then show ?thesis using assms(1,2) by (cases r) (auto simp: poller_step_def)
next
  case Polling
  then have "s' = s\<lparr>rt_poller := Ended\<rparr>" using assms(1,3) by (simp add: poller_step_def)
  then show ?thesis by simp
qed (use assms(1) in \<open>simp add: poller_step_def\<close>)

lemma poller_step_interrupted:
  assumes "interrupted s" and "poller_step X s = Some s'"
  shows "interrupted s'" and "rt_main s' = rt_main s"
  using poller_step_eventless [OF assms(2)] assms(1) by (simp_all add: interrupted_def unfinished_def)

interpretation interrupt: process_invariant X interrupted for X
proof unfold_locales
  show "interrupted (s\<lparr>rt_running := False\<rparr>)" if "interrupted s" for s
    using that by (simp add: interrupted_def unfinished_def)
qed (use main_step_interrupted poller_step_interrupted(1) in blast)+

lemma interrupted_waits:
  assumes "interrupted s" and "rt_main s = Waiting" and "main_step X repeat s = Some s'"
  shows "rt_main s' = Waiting"
proof -
  have "\<not> rt_disableRecording s" "rt_isRecording s" using assms(1) by (simp_all add: assms(2) interrupted_def unfinished_def)
  then show ?thesis using assms(2,3) by (auto simp: main_step_def)
qed

interpretation interrupted_wait: process_invariant X "\<lambda>s. interrupted s \<and> rt_main s = Waiting" for X
proof unfold_locales
  show "interrupted (s\<lparr>rt_running := False\<rparr>) \<and> rt_main (s\<lparr>rt_running := False\<rparr>) = Waiting"
    if "interrupted s \<and> rt_main s = Waiting" for s
    using that by (auto simp: interrupted_def unfinished_def)
qed (use main_step_interrupted interrupted_waits poller_step_interrupted in metis)+

text \<open>
  C19: An interrupt during a round leaves the program hanging, unless an event has released the round. Let recording be
  enabled; let the flag that the signal clears be false before the end of a round, with
  \<^verbatim>\<open>isRecording_\<close> still to be set in this round or set and not yet cleared by an event; and let the polling
  thread have no event left to handle. Then it polls no more, and nothing clears the flag that the main thread
  waits for: it never comes to the question whether to repeat, nor to the exit code 0; only by throwing,
  or where something is undefined, can it leave the round. If it is waiting, it waits for ever.
\<close>

theorem interrupted_round_never_ends:
  assumes "throughput_run X s ts s'" and "\<not> rt_disableRecording s" and "\<not> rt_running s" and "eventless (rt_poller s)"
    and "unfinished s"
  shows "(unfinished s' \<or> aborted (rt_main s')) \<and> (rt_main s = Waiting \<longrightarrow> rt_main s' = Waiting)"
proof -
  have "interrupted s" using assms(2-5) by (simp add: interrupted_def)
  then show ?thesis
    using interrupt.run_keeps [OF assms(1)] interrupted_wait.run_keeps [OF assms(1)] by (auto simp: interrupted_def)
qed

lemma server_interrupted:
  "\<exists>s0 ts s. throughput_begin server_world sample_system (sample_throughput_options 256) [] = Some (Inr s0) \<and>
     throughput_run server_world s0 ts s \<and> rt_main s = Waiting \<and> unfinished s \<and> \<not> rt_disableRecording s \<and>
     \<not> rt_running s \<and> rt_poller s = Polling"
proof -
  obtain s0 s ts where s: "throughput_begin server_world sample_system (sample_throughput_options 256) [] = Some (Inr s0)"
      "throughput_run server_world s0 ts s" "server_object s" "rt_main s = Waiting" "rt_isRecording s" "rt_poller s = Polling"
    using server_waits reaches_run by meson
  have "throughput_step server_world s Signal (s\<lparr>rt_running := False\<rparr>)"
    using s(4) by (intro throughput_step.signal [unfolded sigIntHandler_def]) simp
  from run_within.more [OF s(2) this] have run: "throughput_run server_world s0 (ts @ [Signal]) (s\<lparr>rt_running := False\<rparr>)"
    by simp
  show ?thesis
    by (rule exI, rule exI, rule exI, intro conjI, rule s(1), rule run)
      (use s(3-6) in \<open>simp_all add: unfinished_def server_object_def\<close>)
qed

lemma interrupted_round_never_ends_witness:
  "\<exists>s0 ts s. throughput_begin server_world sample_system (sample_throughput_options 256) [] = Some (Inr s0) \<and>
     throughput_run server_world s0 ts s \<and> rt_main s = Waiting \<and>
     (\<forall>ts' s'. throughput_run server_world s ts' s' \<longrightarrow> rt_main s' = Waiting)"
proof -
  obtain s0 ts s where s: "throughput_begin server_world sample_system (sample_throughput_options 256) [] = Some (Inr s0)"
      "throughput_run server_world s0 ts s" "rt_main s = Waiting" "unfinished s" "\<not> rt_disableRecording s"
      "\<not> rt_running s" "rt_poller s = Polling"
    using server_interrupted by blast
  then have "eventless (rt_poller s)" by simp
  from interrupted_round_never_ends [OF _ s(5,6) this s(4)] s(1-3) show ?thesis by blast
qed

section \<open>Offers that are refused\<close>

text \<open>Offers are refused, the main thread is at the message \<open>i\<close> and so much was accepted before.\<close>

definition republishing ::
  "samples_env \<Rightarrow> int64 \<Rightarrow> int64 \<Rightarrow> int32 \<Rightarrow> byte list list \<Rightarrow> throughput_system \<Rightarrow> bool" where
  "republishing X pubId start i data s \<longleftrightarrow>
     (\<forall>tr bytes. \<exists>r. se_offer X tr bytes = Inr r \<and> r <s 0) \<and> i <s rt_numberOfMessages s \<and> \<not> rt_messageLength s <s 4 \<and>
     (rt_main s = Publishing pubId start i \<or> rt_main s = Undefined) \<and> accepted (rt_history s) = data"

lemma main_step_republishing:
  assumes "republishing X pubId start i data s" and "main_step X repeat s = Some s'"
  shows "republishing X pubId start i data s'"
proof (cases "rt_main s = Undefined")
  case False
  obtain r where "se_offer X (rt_history s) (message_bytes (rt_messageLength s) i) = Inr r" "r <s 0"
    using assms(1) unfolding republishing_def by blast
  then show ?thesis
    using assms False by (auto simp: republishing_def main_step_def offer_step_def call_offerData_def call_defs Let_def)
qed (use assms(2) in \<open>simp add: main_step_def\<close>)

interpretation refused: process_invariant X "republishing X pubId start i data" for X pubId start i data
proof unfold_locales
  show "republishing X pubId start i data (s\<lparr>rt_running := False\<rparr>)" if "republishing X pubId start i data s" for s
    using that by (simp add: republishing_def)
  show "republishing X pubId start i data s'" if "republishing X pubId start i data s" and "poller_step X s = Some s'" for s s'
  proof -
    have "polls_only s s'" using that(2) by (rule poller_step_polls_only)
    moreover from this have "accepted (rt_history s') = accepted (rt_history s)"
      by (auto simp: polls_only_def quiet_def accepted_append accepted_quiet)
    ultimately show ?thesis using that(1) by (auto simp: republishing_def polls_only_def same_setup_def)
  qed
qed (use main_step_republishing in blast)

text \<open>
  C20: Refused offers are repeated for ever. While the publication refuses every offer, be it closed, not
  connected or past its last position, the main thread stays at the same message, whatever signals
  come, and nothing more is published; only a handler that divides by 0 can end the process.
\<close>

theorem refused_offers_are_repeated:
  assumes "throughput_run X s ts s'" and "\<forall>tr bytes. \<exists>r. se_offer X tr bytes = Inr r \<and> r <s 0"
    and "rt_main s = Publishing pubId start i" and "i <s rt_numberOfMessages s" and "4 \<le>s rt_messageLength s"
  shows "(rt_main s' = Publishing pubId start i \<or> rt_main s' = Undefined) \<and>
     accepted (rt_history s') = accepted (rt_history s)"
proof -
  have "\<not> rt_messageLength s <s 4" using assms(5) by (simp add: word_sless_alt word_sle_eq)
  then have "republishing X pubId start i (accepted (rt_history s)) s" using assms(2-4) by (simp add: republishing_def)
  from refused.run_keeps [OF assms(1) this] show ?thesis by (simp add: republishing_def)
qed

definition refusing_world :: samples_env where
  "refusing_world = server_world\<lparr>se_offer := \<lambda>_ _. Inr (- 4)\<rparr>"

lemma refused_offers_are_repeated_witness:
  "\<exists>s s'. rt_main s = Publishing 1 0 0 \<and> throughput_run refusing_world s [Main, Signal, Main] s' \<and> \<not> rt_running s' \<and>
     rt_main s' = Publishing 1 0 0 \<and> accepted (rt_history s') = []"
proof -
  let ?X = refusing_world
  let ?s = "sample_system\<lparr>rt_main := Publishing 1 0 0, rt_numberOfMessages := 1, rt_messageLength := 256\<rparr>"
  let ?e = "[Yielded, DataOffered (message_bytes 256 0) (- 4)]"
  let ?s1 = "?s\<lparr>rt_history := ?e\<rparr>"
  let ?s2 = "?s1\<lparr>rt_running := False\<rparr>"
  let ?s3 = "?s2\<lparr>rt_history := ?e @ ?e\<rparr>"
  have "main_step ?X True ?s = Some ?s1" "main_step ?X True ?s2 = Some ?s3"
    by (simp_all add: main_step_def offer_step_def call_offerData_def call_defs Let_def refusing_world_def
        sample_system_def word_sless_alt)
  then have s1: "throughput_step ?X ?s Main ?s1" and s3: "throughput_step ?X ?s2 Main ?s3"
    by (auto intro!: throughput_step.main)
  have s2: "throughput_step ?X ?s1 Signal ?s2" by (rule throughput_step.signal [unfolded sigIntHandler_def]) simp
  from run_within.more [OF run_within.more [OF run_within.more [OF run_within.none s1] s2] s3]
  have run: "throughput_run ?X ?s [Main, Signal, Main] ?s3" by simp
  have "\<forall>tr bytes. \<exists>r. se_offer ?X tr bytes = Inr r \<and> r <s 0"
    by (simp add: refusing_world_def word_sless_alt)
  from refused_offers_are_repeated [OF run this, of 1 0 0]
  have "accepted (rt_history ?s3) = accepted (rt_history ?s)"
    by (simp add: word_sless_alt word_sle_eq)
  then show ?thesis using run by (intro exI [of _ ?s] exI [of _ ?s3]) (simp add: sample_system_def)
qed

end
