(* ===== verification/Spec2Isabelle.thy ===== *)
theory Spec2Isabelle
  imports RecordedBasicPublisher ReplayedBasicSubscriber DriverControl ThroughputShutdown
begin

text \<open>
  A verification of the Aeron Archive client for C++: the library under \<^verbatim>\<open>src/\<close> and the programs under
  \<^verbatim>\<open>samples/\<close>.

  THE PROGRAM. A client of an archive connects to it, sends it requests over one Aeron publication,
  and reads the answers from one subscription. \<^verbatim>\<open>Configuration\<close> reads its settings from a property
  file (\<^verbatim>\<open>PropertiesReader\<close>) or from the environment; \<^verbatim>\<open>Context\<close> holds them with the Aeron client and
  puts the term buffer settings into the request channel (\<^verbatim>\<open>ChannelUri\<close>). \<^verbatim>\<open>ArchiveProxy\<close> encodes
  requests and offers them, with retries. \<^verbatim>\<open>ControlResponsePoller\<close> and \<^verbatim>\<open>RecordingDescriptorPoller\<close>
  decode what a poll delivers. \<^verbatim>\<open>AeronArchive\<close> owns all of them: each of its operations takes the lock,
  draws a correlation id, sends a request, and polls until an answer to this id, an error or a timeout
  ends the wait. \<^verbatim>\<open>RecordingEventsAdapter\<close> and \<^verbatim>\<open>RecordingPos\<close> stand beside the client: the one
  turns event messages into callbacks, the other searches Aeron's counters. The samples use the
  client as applications do.

  THE OUTSIDE. Aeron, the clock and the callbacks of applications are not in the repository. They are the
  record \<open>env\<close> (\<open>AeronEnv\<close>): every call to the outside adds an event to the history, newest first, and
  what the outside answers is an arbitrary function of the history. The message codecs are generated by
  the build from a schema that is not in the repository; they are the record \<open>sbe\<close> (\<open>SbeCodec\<close>), of
  arbitrary functions. \<^verbatim>\<open>boost::lexical_cast\<close>, the order in which an unordered map lists its entries
  (\<open>layout\<close>, \<open>UnorderedMap\<close>), files, environment variables and counters are parameters too. A
  theorem holds for all of them, under named assumptions only: \<open>break_stops\<close>, the contract of
  a controlled poll; \<open>sbe_decodes\<close>, that a decoder inverts the encoders; \<open>archive_ok\<close>, the
  limits and ids of a client, which \<open>connected_client_is_ready\<close> proves of each one that is constructed; and for
  termination that messages stop coming (\<open>quiet_after\<close>), the clock passes a deadline
  (\<open>clock_passes\<close>, \<open>deadlines_pass\<close>) and Aeron finds what was added (\<open>found_after\<close>).

  HOW THE CODE IS MODELLED. A class is a record; a method is a definition that takes it, the parameters
  of the outside and the history, and returns its result, the new record and the new history.
  Exceptions are values of \<open>exn\<close> on the left of a sum. 32 and 64 bit integers are words; the
  signed comparisons and casts are written out. A loop is \<open>loop\<close> (\<open>Prelude\<close>) over a definition of
  one pass; it returns \<open>None\<close> when it never ends, so that returning is something to prove. There is no fuel.
  Loops that run over a string or a list, or that count down (\<open>offer_loop\<close>, the rounds of a poll), are
  recursions. The mutex is a pair of events.

  THE THEORIES. The definitions have the names of the code.
    \<^item> \<open>Prelude\<close>, \<open>UnorderedMap\<close>: integers, exceptions, decimal printing, \<open>loop\<close>; the map as a list of entries,
      with the locale \<open>dictionary\<close>.
    \<^item> \<open>ChannelUri\<close>, \<open>PropertiesReader\<close>, \<open>Configuration\<close>, \<open>Context\<close>, \<open>RecordingPos\<close>: the files of these names.
    \<^item> \<open>AeronEnv\<close>: the outside and the poll of a subscription, with the locales \<open>fragment_handler\<close>,
      \<open>breaking_handler\<close> and \<open>stopping_handler\<close>, the contracts between a poll and its handler.
    \<^item> \<open>ArchiveProxy\<close>: the request methods with their retries and timeouts; the locale \<open>proxy_operation\<close> is what they share.
    \<^item> \<open>ControlResponsePoller\<close>, \<open>RecordingDescriptorPoller\<close>, \<open>RecordingEventsAdapter\<close>: the handlers and their polls.
    \<^item> \<open>ArchivePolling\<close>: the private waiting loops of \<^verbatim>\<open>AeronArchive.cpp\<close> (from line 308 on); the locale
      \<open>answer_loop\<close> is the loop that takes message after message until one decides.
    \<^item> \<open>AeronArchive\<close>: the constructor, the exchange under the lock, and all public operations; the locale
      \<open>exchange\<close> is one request and its answer. The record \<open>aeron_archive\<close> is a client whose pointers are set; the
      object that the unfinished constructor from a proxy leaves is an \<open>archive_object\<close>, whose pointers may be null.
    \<^item> \<open>ArchiveOperations\<close>, \<open>ArchiveListings\<close>, \<open>ArchiveConnect\<close>, \<open>ArchiveStreams\<close>, \<open>ArchiveSessions\<close>: what the
      operations do, one theory for each kind: requests with one answer, listings, construction,
      recorded publications and replays and error polls, and any sequence of operations.
    \<^item> \<open>SamplesUtil\<close>, \<open>SamplesEnv\<close>, \<open>RecordedBasicPublisher\<close>, \<open>ReplayedBasicSubscriber\<close>, \<open>DriverControl\<close>: the
      samples with one thread, from the parsed options to the exit code.
    \<^item> \<open>RecordingThroughput\<close>, \<open>ThroughputRounds\<close>, \<open>ThroughputEnds\<close>, \<open>ThroughputShutdown\<close>: the sample with two
      threads, as a step relation; what it publishes, how it ends, and when it does not. The locales
      \<open>silent_invariant\<close> and \<open>process_invariant\<close> are the contracts of an invariant of the process, without and
      with signals.
    \<^item> \<open>SampleWorld\<close>, \<open>SampleServer\<close>, \<open>ThroughputSample\<close>: a concrete codec, environment, archive and runs,
      at which the theorems with assumptions are applied.

  WHAT IS SHOWN.
    \<^item> Requests. A value that an operation returns is that of the first message delivered that decides
      for its session and correlation id, after its request was accepted once by the
      publication; an exception has one of a listed set of causes; the offers are bounded by the
      retries, and the bytes decode to the request.
    \<^item> Listings. The consumer is called once, in order, for the descriptors of this request and for
      nothing else; the result counts the calls.
    \<^item> Life cycle. A constructed client is ready: resources registered and found, the session that of the
      message that opened it. Any sequence of operations keeps the lock balanced and the traffic under it.
    \<^item> Termination of construction, operations and listings. Against it stands
      \<open>unrelated_messages_defeat_the_timeout\<close>: while messages keep coming, an operation need never return.
    \<^item> Messages and text. The pollers dispatch exactly what messages say; the URI state machine equals a grammar, and
      printing is inverted by it; the parser of a property line equals a reference definition, and a property
      file is read back; the counter searches find the first match.
    \<^item> Programs. What each sample has done when it exits with 0; for the throughput program in every interleaving: it
      publishes whole rounds in order, waits for an event, and exits only after the polling
      thread; once it shuts down it ends within a bounded number of steps, if the request to stop the recording
      returns. When it records, it does not end after the main thread has thrown
      (\<open>exceptions_leave_the_program_waiting\<close>), nor after an interrupt in a round that no event has released
      (\<open>interrupted_round_never_ends\<close>); nor does it while the publication refuses its messages
      (\<open>refused_offers_are_repeated\<close>).
    \<^item> Errors of the code, as theorems of what it does: settings that are not applied (\<open>settings_need_channel_set_again\<close>),
      comments and keys that are cut wrongly (\<open>parseLine_keeps_comment\<close>, \<open>parseLine_indented_key\<close>), a documented
      default that is rejected (\<open>sparse_word_rejected_in_environment\<close>), errors of one request reported for another
      (\<open>error_of_another_request_is_taken\<close>), a wait that does not wait (\<open>new_recording_is_not_awaited\<close>), a channel
      that loses its parameters (\<open>extend_channel_parses\<close>).

  NOT MODELLED. The fragment assemblers and images, which are Aeron's. Parsing of the options of the samples
  (Boost), their printing, and the handlers that only print; exceptions in the
  samples are taken to derive from \<^verbatim>\<open>std::exception\<close>, as all that the library throws do. Interleavings inside an operation: the lock
  serialises operations, and in the throughput program an exchange and a poll are single steps. Data
  races as undefined behaviour: that program's plain members are taken to be sequentially
  consistent. Running out of memory. The unit tests, whose expectations are instances of the theorems, and the build files.
\<close>

end
